theory Spec2Isabelle
  imports Complex_Main
begin

section \<open>The Simplex solver of \<^verbatim>\<open>src/app/utils/simplex.ts\<close>\<close>

text \<open>
  The source file holds two versions of \<^verbatim>\<open>solveSimplex\<close>: the simple variant
  (lines 22--191: every constraint is \<^verbatim>\<open><=\<close>, one slack per row) and the extended
  variant (lines 213--570: a relation per constraint and the methods standard, bigM and
  twoPhase). Both are embedded here, the first as \<open>solveSimplex\<close>, the second as
  \<open>solveSimplex_ext\<close>.

  JavaScript numbers are modelled as rationals: the entries of the tableau are taken as
  the numbers they are, and rounding, overflow to infinity and NaN in the arithmetic
  that updates them are outside the model. The ratio test compares quotients that it
  computes itself (\<^verbatim>\<open>ratio < minRatio\<close>); their division \<^verbatim>\<open>rhs / coeff\<close> is a
  parameter \<open>quot\<close> of the model, with values that are finite or \<open>\<plusminus>Infinity\<close>: the
  division of doubles (rounded to the nearest double, an overflow giving an infinity) is
  one instance, the exact division \<open>exactQuot\<close> another, and every theorem that does not
  name \<open>exactQuot\<close> holds for every such division. The sentinel \<^verbatim>\<open>-1\<close> of the local
  variables \<^verbatim>\<open>pivotCol\<close> and \<^verbatim>\<open>pivotRow\<close> is \<open>None\<close>, while \<^verbatim>\<open>basicVars\<close>, an
  array the source fills with \<^verbatim>\<open>-1\<close>, is a list of integers. The arrays the code
  mutates in place are passed and returned as values.

  Numeric reads outside an input array (\<^verbatim>\<open>objectiveCoeffs[i]\<close>, \<^verbatim>\<open>constraints[i][j]\<close>
  beyond their lengths) give \<^verbatim>\<open>undefined\<close> and then NaN in the source; the model writes them
  with \<open>!\<close>, which leaves the value unspecified.
\<close>

subsection \<open>Data model\<close>

type_synonym matrix = "rat list list"

datatype opt_type = TMax | TMin

datatype status = Optimal | Unbounded | Infeasible

datatype solve_method = Standard | BigM | TwoPhase

text \<open>
  The value of a quotient \<^verbatim>\<open>rhs / coeff\<close> with \<^verbatim>\<open>coeff > 0\<close>, and of \<^verbatim>\<open>minRatio\<close>:
  a finite number or an infinity, ordered as \<^verbatim>\<open><\<close> orders them. (A NaN quotient is never
  below \<^verbatim>\<open>minRatio\<close>, as \<open>PlusInfinity\<close> is not.)
\<close>

datatype jsratio = MinusInfinity | Finite rat | PlusInfinity

fun jsratio_le :: "jsratio \<Rightarrow> jsratio \<Rightarrow> bool" where
  "jsratio_le MinusInfinity b = True"
| "jsratio_le a PlusInfinity = True"
| "jsratio_le (Finite x) (Finite y) = (x \<le> y)"
| "jsratio_le a b = False"

instantiation jsratio :: linorder
begin

definition less_eq_jsratio :: "jsratio \<Rightarrow> jsratio \<Rightarrow> bool" where
  "less_eq_jsratio a b = jsratio_le a b"

definition less_jsratio :: "jsratio \<Rightarrow> jsratio \<Rightarrow> bool" where
  "less_jsratio a b = (jsratio_le a b \<and> \<not> jsratio_le b a)"

instance
proof
  fix a b c :: jsratio
  show "(a < b) = (a \<le> b \<and> \<not> b \<le> a)"
    by (simp add: less_jsratio_def less_eq_jsratio_def)
  show "a \<le> a"
    by (cases a) (simp_all add: less_eq_jsratio_def)
  show "a \<le> b \<Longrightarrow> b \<le> c \<Longrightarrow> a \<le> c"
    by (cases a; cases b; cases c) (simp_all add: less_eq_jsratio_def)
  show "a \<le> b \<Longrightarrow> b \<le> a \<Longrightarrow> a = b"
    by (cases a; cases b) (simp_all add: less_eq_jsratio_def)
  show "a \<le> b \<or> b \<le> a"
    by (cases a; cases b) (auto simp: less_eq_jsratio_def)
qed

end

text \<open>The exact division, a quotient that is never infinite.\<close>

definition exactQuot :: "rat \<Rightarrow> rat \<Rightarrow> jsratio" where
  "exactQuot rhs coeff = Finite (rhs / coeff)"

record SimplexStep =
  tableau :: matrix
  enteringVar :: nat
  leavingVar :: nat
  pivotRow :: nat
  pivotCol :: nat
  basicVars :: "int list"
  description :: string

record SimplexResult =
  steps :: "SimplexStep list"
  finalTableau :: matrix
  solution :: "rat list"
  optimalValue :: rat
  status :: status
  variableNames :: "string list"
  finalBasicVars :: "int list"

subsection \<open>Numbers and names in template strings\<close>

fun show_nat :: "nat \<Rightarrow> string" where
  "show_nat n =
     (if n < 10 then [''0123456789'' ! n]
      else show_nat (n div 10) @ [''0123456789'' ! (n mod 10)])"

declare show_nat.simps [simp del]

definition show_int :: "int \<Rightarrow> string" where
  "show_int i = (if i < 0 then ''-'' @ show_nat (nat (- i)) else show_nat (nat i))"

text \<open>\<^verbatim>\<open>${names[i]}\<close>: a read outside the array prints as \<^verbatim>\<open>undefined\<close>.\<close>

definition nameAt :: "string list \<Rightarrow> int \<Rightarrow> string" where
  "nameAt names i = (if 0 \<le> i \<and> nat i < length names then names ! nat i else ''undefined'')"

text \<open>
  \<^verbatim>\<open>signs[i]\<close>: a read outside the array is \<^verbatim>\<open>undefined\<close>, which \<^verbatim>\<open>===\<close> tells apart
  from each of the three relation strings; the string \<open>''undefined''\<close> stands for it.
\<close>

definition signAt :: "string list \<Rightarrow> nat \<Rightarrow> string" where
  "signAt signs i = (if i < length signs then signs ! i else ''undefined'')"

text \<open>
  \<^verbatim>\<open>row[i]\<close> read at an integer index held in \<^verbatim>\<open>basicVars\<close>: at \<^verbatim>\<open>-1\<close> the source
  reads \<^verbatim>\<open>undefined\<close> (NaN in arithmetic), which the model leaves unspecified.
\<close>

definition cellAt :: "rat list \<Rightarrow> int \<Rightarrow> rat" where
  "cellAt row i = (if 0 \<le> i then row ! nat i else undefined)"

text \<open>
  \<^verbatim>\<open>solution[i] = v\<close> with \<^verbatim>\<open>i < solution.length\<close>: a negative index sets a property
  of the array object and leaves its elements as they are.
\<close>

definition storeAt :: "rat list \<Rightarrow> int \<Rightarrow> rat \<Rightarrow> rat list" where
  "storeAt xs i v = (if 0 \<le> i then xs[nat i := v] else xs)"

subsection \<open>The pivot engine\<close>

text \<open>
  Entering variable (lines 88--96 and 419--427): \<open>minVal0\<close> is the initial
  \<^verbatim>\<open>minValue\<close>, \<open>0\<close> in the simple variant and \<open>-1e-9\<close> in the extended one.
\<close>

definition findPivotCol :: "rat \<Rightarrow> matrix \<Rightarrow> nat \<Rightarrow> nat option" where
  "findPivotCol minVal0 T totalCols =
     snd (fold (\<lambda>j (minVal, pc). if T ! 0 ! j < minVal then (T ! 0 ! j, Some j) else (minVal, pc))
            [0..<totalCols - 1] (minVal0, None))"

text \<open>
  Ratio test (lines 104--118 and 432--445): \<open>eps\<close> is the bound the pivot-column entry
  must exceed, \<open>0\<close> in the simple variant and \<open>1e-9\<close> in the extended one; \<open>quot\<close> is
  the division; the accumulator holds \<^verbatim>\<open>minRatio\<close>, initially \<^verbatim>\<open>Infinity\<close>, and
  \<^verbatim>\<open>pivotRow\<close>.
\<close>

definition ratioStep :: "(rat \<Rightarrow> rat \<Rightarrow> jsratio) \<Rightarrow> rat \<Rightarrow> matrix \<Rightarrow> nat \<Rightarrow> nat \<Rightarrow> nat
    \<Rightarrow> jsratio \<times> nat option \<Rightarrow> jsratio \<times> nat option" where
  "ratioStep quot eps T totalCols pc i acc =
     (let rhs = T ! i ! (totalCols - 1); coeff = T ! i ! pc in
      if coeff > eps then
        (let ratio = quot rhs coeff in
         if ratio < fst acc then (ratio, Some i) else acc)
      else acc)"

definition ratioTest :: "(rat \<Rightarrow> rat \<Rightarrow> jsratio) \<Rightarrow> rat \<Rightarrow> matrix \<Rightarrow> nat \<Rightarrow> nat \<Rightarrow> nat
    \<Rightarrow> nat option" where
  "ratioTest quot eps T m totalCols pc =
     snd (fold (ratioStep quot eps T totalCols pc) [1..<m + 1] (PlusInfinity, None))"

text \<open>Gauss-Jordan pivot (lines 149--162 and 466--477).\<close>

definition normalizeRow :: "nat \<Rightarrow> rat \<Rightarrow> rat list \<Rightarrow> rat list" where
  "normalizeRow totalCols pv row = fold (\<lambda>j r. r[j := r ! j / pv]) [0..<totalCols] row"

definition subtractRow :: "nat \<Rightarrow> rat \<Rightarrow> rat list \<Rightarrow> rat list \<Rightarrow> rat list" where
  "subtractRow totalCols factor prow row =
     fold (\<lambda>j r. r[j := r ! j - factor * prow ! j]) [0..<totalCols] row"

definition eliminateOthers :: "nat \<Rightarrow> nat \<Rightarrow> nat \<Rightarrow> nat \<Rightarrow> matrix \<Rightarrow> matrix" where
  "eliminateOthers numRows totalCols pr pc T =
     fold (\<lambda>i U. if i \<noteq> pr then U[i := subtractRow totalCols (U ! i ! pc) (U ! pr) (U ! i)] else U)
       [0..<numRows] T"

definition pivotOp :: "nat \<Rightarrow> nat \<Rightarrow> nat \<Rightarrow> nat \<Rightarrow> matrix \<Rightarrow> matrix" where
  "pivotOp numRows totalCols pr pc T =
     (let pivotElement = T ! pr ! pc in
      eliminateOthers numRows totalCols pr pc (T[pr := normalizeRow totalCols pivotElement (T ! pr)]))"

subsection \<open>The simple variant (lines 22--191)\<close>

definition negateForMin :: "opt_type \<Rightarrow> rat list \<Rightarrow> rat list" where
  "negateForMin ty objectiveCoeffs =
     (if ty = TMin then map (\<lambda>val. - val) objectiveCoeffs else objectiveCoeffs)"

definition objRow :: "nat \<Rightarrow> nat \<Rightarrow> rat list \<Rightarrow> rat list" where
  "objRow n totalCols c = fold (\<lambda>i r. r[i := - (c ! i)]) [0..<n] (replicate totalCols 0)"

definition constraintRow :: "nat \<Rightarrow> nat \<Rightarrow> rat list list \<Rightarrow> nat \<Rightarrow> rat list" where
  "constraintRow n totalCols constraints i =
     ((fold (\<lambda>j r. r[j := constraints ! i ! j]) [0..<n] (replicate totalCols 0))
        [n + i := 1])[totalCols - 1 := constraints ! i ! n]"

definition simpleNames :: "nat \<Rightarrow> nat \<Rightarrow> string list" where
  "simpleNames n m =
     map (\<lambda>i. ''x'' @ show_nat (i + 1)) [0..<n] @ map (\<lambda>i. ''s'' @ show_nat (i + 1)) [0..<m]"

definition simpleStep :: "string list \<Rightarrow> matrix \<Rightarrow> int list \<Rightarrow> nat \<Rightarrow> nat \<Rightarrow> SimplexStep" where
  "simpleStep names T B pr pc =
     \<lparr> tableau = T, enteringVar = pc, leavingVar = pr, pivotRow = pr, pivotCol = pc,
       basicVars = B,
       description = ''Pivot on row '' @ show_nat pr @ '', col '' @ show_nat pc @ '' (Enter ''
         @ nameAt names (int pc) @ '', Leave '' @ nameAt names (B ! (pr - 1)) @ '')'' \<rparr>"

text \<open>
  The \<^verbatim>\<open>while (iter < maxIterations)\<close> loop of lines 84--165. \<open>Inl\<close> is the
  \<^verbatim>\<open>return\<close> of lines 120--130 (unbounded), \<open>Inr\<close> the exit by \<^verbatim>\<open>break\<close> or by the
  iteration cap; both carry the tableau, the basis and the steps at that moment.
\<close>

function simpleLoop :: "(rat \<Rightarrow> rat \<Rightarrow> jsratio) \<Rightarrow> nat \<Rightarrow> nat \<Rightarrow> string list \<Rightarrow> nat
    \<Rightarrow> matrix \<times> int list \<times> SimplexStep list
    \<Rightarrow> (matrix \<times> int list \<times> SimplexStep list) + (matrix \<times> int list \<times> SimplexStep list)" where
  "simpleLoop quot m totalCols names iter (T, B, S) =
     (if iter < 100 then
        (case findPivotCol 0 T totalCols of
           None \<Rightarrow> Inr (T, B, S)
         | Some pc \<Rightarrow>
            (case ratioTest quot 0 T m totalCols pc of
               None \<Rightarrow> Inl (T, B, S)
             | Some pr \<Rightarrow>
                 simpleLoop quot m totalCols names (iter + 1)
                   (pivotOp (m + 1) totalCols pr pc T, B[pr - 1 := int pc],
                    S @ [simpleStep names T B pr pc])))
      else Inr (T, B, S))"
  by pat_completeness auto
termination
  by (relation "measure (\<lambda>(quot, m, totalCols, names, iter, st). 100 - iter)") auto

declare simpleLoop.simps [simp del]

definition extractSolution :: "nat \<Rightarrow> nat \<Rightarrow> nat \<Rightarrow> matrix \<Rightarrow> int list \<Rightarrow> rat list" where
  "extractSolution n m totalCols T B =
     fold (\<lambda>i sol. if B ! i < int n then storeAt sol (B ! i) (T ! (i + 1) ! (totalCols - 1)) else sol)
       [0..<m] (replicate n 0)"

definition stoppedResult :: "status \<Rightarrow> string list \<Rightarrow> matrix \<times> int list \<times> SimplexStep list
    \<Rightarrow> SimplexResult" where
  "stoppedResult st names state =
     (case state of (T, B, S) \<Rightarrow>
        \<lparr> steps = S, finalTableau = T, solution = [], optimalValue = 0, status = st,
          variableNames = names, finalBasicVars = B \<rparr>)"

definition optimalResult :: "opt_type \<Rightarrow> nat \<Rightarrow> nat \<Rightarrow> nat \<Rightarrow> string list
    \<Rightarrow> matrix \<times> int list \<times> SimplexStep list \<Rightarrow> SimplexResult" where
  "optimalResult ty n m totalCols names state =
     (case state of (T, B, S) \<Rightarrow>
        \<lparr> steps = S, finalTableau = T, solution = extractSolution n m totalCols T B,
          optimalValue = (if ty = TMin then - (T ! 0 ! (totalCols - 1)) else T ! 0 ! (totalCols - 1)),
          status = Optimal, variableNames = names, finalBasicVars = B \<rparr>)"

definition simpleInit :: "nat \<Rightarrow> nat \<Rightarrow> rat list \<Rightarrow> rat list list
    \<Rightarrow> matrix \<times> int list \<times> SimplexStep list" where
  "simpleInit n m c constraints =
     (let totalCols = n + m + 1 in
      (objRow n totalCols c # map (constraintRow n totalCols constraints) [0..<m],
       map (\<lambda>i. int (n + i)) [0..<m], []))"

definition solveSimplex :: "(rat \<Rightarrow> rat \<Rightarrow> jsratio) \<Rightarrow> opt_type \<Rightarrow> nat \<Rightarrow> nat \<Rightarrow> rat list
    \<Rightarrow> rat list list \<Rightarrow> SimplexResult" where
  "solveSimplex quot ty numVars numConstraints objectiveCoeffs constraints =
     (let c = negateForMin ty objectiveCoeffs;
          m = numConstraints; n = numVars;
          totalCols = n + m + 1;
          names = simpleNames n m
      in case simpleLoop quot m totalCols names 0 (simpleInit n m c constraints) of
           Inl state \<Rightarrow> stoppedResult Unbounded names state
         | Inr state \<Rightarrow> optimalResult ty n m totalCols names state)"

subsection \<open>The extended variant (lines 213--570)\<close>

text \<open>
  Lines 241--252: the counts of slack/surplus and of artificial columns. The array
  \<^verbatim>\<open>constraintVarsMap\<close> is written there and never read, so it is left out.
\<close>

definition countVars :: "nat \<Rightarrow> string list \<Rightarrow> nat \<times> nat" where
  "countVars numConstraints signs =
     fold (\<lambda>i (slackSurplusCount, artificialCount).
             if signAt signs i = ''<='' then (slackSurplusCount + 1, artificialCount)
             else if signAt signs i = ''>='' then (slackSurplusCount + 1, artificialCount + 1)
             else (slackSurplusCount, artificialCount + 1))
       [0..<numConstraints] (0, 0)"

definition useArtificials :: "solve_method \<Rightarrow> bool" where
  "useArtificials meth = (meth = BigM \<or> meth = TwoPhase)"

definition extTotalCols :: "solve_method \<Rightarrow> nat \<Rightarrow> nat \<Rightarrow> string list \<Rightarrow> nat" where
  "extTotalCols meth numVars numConstraints signs =
     (case countVars numConstraints signs of (slackSurplusCount, artificialCount) \<Rightarrow>
        numVars + slackSurplusCount + (if useArtificials meth then artificialCount else 0) + 1)"

definition extNames :: "solve_method \<Rightarrow> nat \<Rightarrow> nat \<Rightarrow> string list \<Rightarrow> string list" where
  "extNames meth numVars numConstraints signs =
     (case countVars numConstraints signs of (slackSurplusCount, artificialCount) \<Rightarrow>
        map (\<lambda>i. ''x'' @ show_nat (i + 1)) [0..<numVars]
        @ map (\<lambda>i. ''s'' @ show_nat (i + 1)) [0..<slackSurplusCount]
        @ (if useArtificials meth then map (\<lambda>i. ''a'' @ show_nat (i + 1)) [0..<artificialCount]
           else []))"

text \<open>
  One round of the loop of lines 295--329 on the tableau, \<^verbatim>\<open>basicVars\<close>,
  \<^verbatim>\<open>currentSlackSurplusIndex\<close> and \<^verbatim>\<open>currentArtificialIndex\<close>.
\<close>

definition fillConstraint :: "solve_method \<Rightarrow> nat \<Rightarrow> nat \<Rightarrow> rat list list \<Rightarrow> string list \<Rightarrow> nat
    \<Rightarrow> matrix \<times> int list \<times> nat \<times> nat \<Rightarrow> matrix \<times> int list \<times> nat \<times> nat" where
  "fillConstraint meth numVars totalCols constraints signs i state =
     (case state of (T, B, curSlack, curArt) \<Rightarrow>
        (let rowIdx = i + 1;
             sign = signAt signs i;
             row = (fold (\<lambda>j r. r[j := constraints ! i ! j]) [0..<numVars] (T ! rowIdx))
                     [totalCols - 1 := constraints ! i ! numVars]
         in if meth = Standard \<and> sign = ''>='' then
              (T[rowIdx := (fold (\<lambda>j r. r[j := r ! j * (- 1)]) [0..<totalCols] row)[curSlack := 1]],
               B[i := int curSlack], curSlack + 1, curArt)
            else if sign = ''<='' then
              (T[rowIdx := row[curSlack := 1]], B[i := int curSlack], curSlack + 1, curArt)
            else if sign = ''>='' \<or> sign = ''='' then
              (let row1 = (if sign = ''>='' then row[curSlack := - 1] else row);
                   curSlack1 = (if sign = ''>='' then curSlack + 1 else curSlack)
               in if useArtificials meth
                  then (T[rowIdx := row1[curArt := 1]], B[i := int curArt], curSlack1, curArt + 1)
                  else (T[rowIdx := row1], B, curSlack1, curArt))
            else (T[rowIdx := row], B, curSlack, curArt)))"

text \<open>Lines 341--389: the initial objective row, written into row 0.\<close>

definition initObjective :: "solve_method \<Rightarrow> nat \<Rightarrow> nat \<Rightarrow> nat \<Rightarrow> rat list \<Rightarrow> rat list \<Rightarrow> rat list" where
  "initObjective meth decisionVarsCount slackSurplusCount totalCols c row =
     (if meth = TwoPhase then
        fold (\<lambda>k r. r[k := 1]) [decisionVarsCount + slackSurplusCount..<totalCols - 1] row
      else if meth = BigM then
        fold (\<lambda>k r. r[k := 100000]) [decisionVarsCount + slackSurplusCount..<totalCols - 1]
          (fold (\<lambda>j r. r[j := - (c ! j)]) [0..<decisionVarsCount] row)
      else fold (\<lambda>j r. r[j := - (c ! j)]) [0..<decisionVarsCount] row)"

text \<open>
  Lines 395--405 and 512--522: the basic variables are eliminated from row 0. The two
  loops differ in their test on the coefficient only (\<^verbatim>\<open>!== 0\<close> and
  \<^verbatim>\<open>Math.abs(coeff) > 1e-9\<close>), which is the parameter \<open>nonzero\<close>.
\<close>

definition eliminateBasic :: "(rat \<Rightarrow> bool) \<Rightarrow> nat \<Rightarrow> nat \<Rightarrow> int list \<Rightarrow> matrix \<Rightarrow> matrix" where
  "eliminateBasic nonzero numConstraints totalCols B T =
     fold (\<lambda>i U. let coeff = cellAt (U ! 0) (B ! i) in
                  if nonzero coeff then U[0 := subtractRow totalCols coeff (U ! (i + 1)) (U ! 0)]
                  else U)
       [0..<numConstraints] T"

definition extInit :: "solve_method \<Rightarrow> nat \<Rightarrow> nat \<Rightarrow> rat list \<Rightarrow> rat list list \<Rightarrow> string list
    \<Rightarrow> matrix \<times> int list \<times> SimplexStep list" where
  "extInit meth numVars numConstraints c constraints signs =
     (case countVars numConstraints signs of (slackSurplusCount, artificialCount) \<Rightarrow>
        (let totalCols = extTotalCols meth numVars numConstraints signs;
             numRows = numConstraints + 1
         in case fold (fillConstraint meth numVars totalCols constraints signs) [0..<numConstraints]
                   (replicate numRows (replicate totalCols 0), replicate numConstraints (- 1),
                    numVars, numVars + slackSurplusCount) of
              (T1, B1, curSlack, curArt) \<Rightarrow>
                (let T2 = T1[0 := initObjective meth numVars slackSurplusCount totalCols c (T1 ! 0)]
                 in (if useArtificials meth
                     then eliminateBasic (\<lambda>x. x \<noteq> 0) numConstraints totalCols B1 T2 else T2,
                     B1, []))))"

definition extStep :: "int \<Rightarrow> nat \<Rightarrow> matrix \<Rightarrow> int list \<Rightarrow> nat \<Rightarrow> nat \<Rightarrow> SimplexStep" where
  "extStep iterStart it T B pr pc =
     \<lparr> tableau = T, enteringVar = pc, leavingVar = pr, pivotRow = pr, pivotCol = pc,
       basicVars = B,
       description = ''Iter '' @ show_int (iterStart + int it + 1) @ '': Pivot ('' @ show_nat pr
         @ '', '' @ show_nat pc @ '')'' \<rparr>"

text \<open>
  \<^verbatim>\<open>runSimplexLoop\<close> (lines 413--481) from the value \<open>it\<close> of its counter: the number
  it returns, with the tableau, \<^verbatim>\<open>basicVars\<close> and \<^verbatim>\<open>steps\<close> it leaves behind. Line 454
  updates \<^verbatim>\<open>basicVars\<close> before line 456 copies it into the step.
\<close>

function runSimplexLoopFrom :: "(rat \<Rightarrow> rat \<Rightarrow> jsratio) \<Rightarrow> nat \<Rightarrow> nat \<Rightarrow> int \<Rightarrow> nat
    \<Rightarrow> matrix \<times> int list \<times> SimplexStep list
    \<Rightarrow> int \<times> matrix \<times> int list \<times> SimplexStep list" where
  "runSimplexLoopFrom quot numConstraints totalCols iterStart it (T, B, S) =
     (if it < 50 then
        (case findPivotCol (- (1 / 1000000000)) T totalCols of
           None \<Rightarrow> (int it, T, B, S)
         | Some pc \<Rightarrow>
            (case ratioTest quot (1 / 1000000000) T numConstraints totalCols pc of
               None \<Rightarrow> (- 1, T, B, S)
             | Some pr \<Rightarrow>
                 runSimplexLoopFrom quot numConstraints totalCols iterStart (it + 1)
                   (pivotOp (numConstraints + 1) totalCols pr pc T, B[pr - 1 := int pc],
                    S @ [extStep iterStart it T (B[pr - 1 := int pc]) pr pc])))
      else (int it, T, B, S))"
  by pat_completeness auto
termination
  by (relation "measure (\<lambda>(quot, numConstraints, totalCols, iterStart, it, st). 50 - it)") auto

declare runSimplexLoopFrom.simps [simp del]

definition runSimplexLoop :: "(rat \<Rightarrow> rat \<Rightarrow> jsratio) \<Rightarrow> nat \<Rightarrow> nat \<Rightarrow> int
    \<Rightarrow> matrix \<times> int list \<times> SimplexStep list
    \<Rightarrow> int \<times> matrix \<times> int list \<times> SimplexStep list" where
  "runSimplexLoop quot numConstraints totalCols iterStart state =
     runSimplexLoopFrom quot numConstraints totalCols iterStart 0 state"

text \<open>Lines 508--522: row 0 is rebuilt for phase 2 and the basic variables eliminated.\<close>

definition preparePhase2 :: "nat \<Rightarrow> nat \<Rightarrow> nat \<Rightarrow> rat list \<Rightarrow> matrix \<times> int list \<times> SimplexStep list
    \<Rightarrow> matrix \<times> int list \<times> SimplexStep list" where
  "preparePhase2 numVars numConstraints totalCols c state =
     (case state of (T, B, S) \<Rightarrow>
        (eliminateBasic (\<lambda>coeff. \<bar>coeff\<bar> > 1 / 1000000000) numConstraints totalCols B
           (T[0 := fold (\<lambda>j r. r[j := - (c ! j)]) [0..<numVars]
                     (fold (\<lambda>j r. r[j := 0]) [0..<totalCols] (T ! 0))]),
         B, S))"

definition solveSimplex_ext :: "(rat \<Rightarrow> rat \<Rightarrow> jsratio) \<Rightarrow> opt_type \<Rightarrow> nat \<Rightarrow> nat \<Rightarrow> rat list \<Rightarrow> rat list list \<Rightarrow> string list
    \<Rightarrow> solve_method \<Rightarrow> SimplexResult" where
  "solveSimplex_ext quot ty numVars numConstraints objectiveCoeffs constraints signs meth =
     (let c = negateForMin ty objectiveCoeffs;
          totalCols = extTotalCols meth numVars numConstraints signs;
          names = extNames meth numVars numConstraints signs
      in case runSimplexLoop quot numConstraints totalCols 0
                (extInit meth numVars numConstraints c constraints signs) of
           (iterations, state1) \<Rightarrow>
             if meth = TwoPhase then
               (if \<bar>fst state1 ! 0 ! (totalCols - 1)\<bar> > 1 / 100000
                then stoppedResult Infeasible names state1
                else (case runSimplexLoop quot numConstraints totalCols iterations
                             (preparePhase2 numVars numConstraints totalCols c state1) of
                        (phase2Steps, state2) \<Rightarrow>
                          if phase2Steps = - 1 then stoppedResult Unbounded names state2
                          else optimalResult ty numVars numConstraints totalCols names state2))
             else if iterations = - 1 then stoppedResult Unbounded names state1
             else optimalResult ty numVars numConstraints totalCols names state1)"

subsection \<open>Auxiliary notions for the statements\<close>

text \<open>The state of the entering-variable scan after the first \<open>k\<close> columns.\<close>

definition colScan :: "rat \<Rightarrow> rat list \<Rightarrow> nat \<Rightarrow> rat \<times> nat option" where
  "colScan v row k = fold (\<lambda>j (minVal, pc). if row ! j < minVal then (row ! j, Some j) else (minVal, pc)) [0..<k] (v, None)"

text \<open>
  The quotient the ratio test computes for row \<open>i\<close>, and the state of the ratio test after
  rows \<open>1..k\<close>.
\<close>

definition ratio :: "(rat \<Rightarrow> rat \<Rightarrow> jsratio) \<Rightarrow> matrix \<Rightarrow> nat \<Rightarrow> nat \<Rightarrow> nat \<Rightarrow> jsratio" where
  "ratio quot T totalCols pc i = quot (T ! i ! (totalCols - 1)) (T ! i ! pc)"

definition rowScan :: "(rat \<Rightarrow> rat \<Rightarrow> jsratio) \<Rightarrow> rat \<Rightarrow> matrix \<Rightarrow> nat \<Rightarrow> nat \<Rightarrow> nat
    \<Rightarrow> jsratio \<times> nat option" where
  "rowScan quot eps T totalCols pc k =
     fold (ratioStep quot eps T totalCols pc) [1..<Suc k] (PlusInfinity, None)"

text \<open>
  Column \<open>p\<close> holds the most negative value among the first \<open>k\<close> entries of a row, below
  \<open>bound\<close>, and is the first column that does.
\<close>

definition mostNegative :: "rat \<Rightarrow> rat list \<Rightarrow> nat \<Rightarrow> nat \<Rightarrow> bool" where
  "mostNegative bound row k p \<longleftrightarrow>
     p < k \<and> row ! p < bound \<and> (\<forall>j<k. row ! p \<le> row ! j) \<and> (\<forall>j<p. row ! p < row ! j)"


text \<open>
  Row \<open>p\<close> has the least computed quotient among the rows \<open>1..m\<close> whose entry in the pivot
  column exceeds \<open>eps\<close>, that quotient is below \<open>Infinity\<close>, and \<open>p\<close> is the first row
  with that quotient.
\<close>

definition minRatioRow :: "(rat \<Rightarrow> rat \<Rightarrow> jsratio) \<Rightarrow> rat \<Rightarrow> matrix \<Rightarrow> nat \<Rightarrow> nat \<Rightarrow> nat \<Rightarrow> nat
    \<Rightarrow> bool" where
  "minRatioRow quot eps T m totalCols pc p \<longleftrightarrow>
     1 \<le> p \<and> p \<le> m \<and> eps < T ! p ! pc \<and> ratio quot T totalCols pc p < PlusInfinity \<and>
     (\<forall>i. 1 \<le> i \<and> i \<le> m \<and> eps < T ! i ! pc \<longrightarrow>
        ratio quot T totalCols pc p \<le> ratio quot T totalCols pc i) \<and>
     (\<forall>i. 1 \<le> i \<and> i < p \<and> eps < T ! i ! pc \<longrightarrow>
        ratio quot T totalCols pc p < ratio quot T totalCols pc i)"

text \<open>
  A tableau of \<open>m + 1\<close> rows of \<open>totalCols\<close> entries; a valid basis for it: one entry per
  constraint row, each the index of a variable column (never \<open>-1\<close>), no index twice.
\<close>

definition rectangular :: "nat \<Rightarrow> nat \<Rightarrow> matrix \<Rightarrow> bool" where
  "rectangular m totalCols T \<longleftrightarrow> length T = m + 1 \<and> (\<forall>r\<le>m. length (T ! r) = totalCols)"

definition validBasis :: "nat \<Rightarrow> nat \<Rightarrow> int list \<Rightarrow> bool" where
  "validBasis m totalCols B \<longleftrightarrow>
     length B = m \<and> (\<forall>i<m. 0 \<le> B ! i \<and> nat (B ! i) < totalCols - 1) \<and> distinct B"

text \<open>
  Canonical form: the column of the variable basic in row \<open>i + 1\<close> holds 1 in that row and
  0 in every other constraint row, and its entry in row 0 is not below \<open>bound\<close>, so that
  the scan for the entering variable does not select it.
\<close>

definition canonical :: "rat \<Rightarrow> nat \<Rightarrow> nat \<Rightarrow> matrix \<Rightarrow> int list \<Rightarrow> bool" where
  "canonical bound m totalCols T B \<longleftrightarrow>
     rectangular m totalCols T \<and> validBasis m totalCols B \<and>
     (\<forall>i<m. \<forall>r. 1 \<le> r \<and> r \<le> m \<longrightarrow> T ! r ! nat (B ! i) = (if r = i + 1 then 1 else 0)) \<and>
     (\<forall>i<m. bound \<le> T ! 0 ! nat (B ! i))"

text \<open>
  The constraint loop of the extended variant in closed form: the numbers of slack/surplus
  and of artificial columns handed out before row \<open>i\<close>, the row the loop writes for
  constraint \<open>i\<close> given the two column counters, and the basic variable it assigns
  (\<open>-1\<close> when it assigns none).
\<close>

definition slackBefore :: "string list \<Rightarrow> nat \<Rightarrow> nat" where
  "slackBefore signs i =
     length (filter (\<lambda>j. signAt signs j = ''<='' \<or> signAt signs j = ''>='') [0..<i])"

definition artBefore :: "string list \<Rightarrow> nat \<Rightarrow> nat" where
  "artBefore signs i =
     length (filter (\<lambda>j. signAt signs j = ''>='' \<or> signAt signs j = ''='') [0..<i])"

definition fillRow :: "solve_method \<Rightarrow> nat \<Rightarrow> nat \<Rightarrow> rat list list \<Rightarrow> string list \<Rightarrow> nat
    \<Rightarrow> nat \<Rightarrow> nat \<Rightarrow> rat list \<Rightarrow> rat list" where
  "fillRow meth numVars totalCols constraints signs i curSlack curArt row0 =
     (let sign = signAt signs i;
          row = (fold (\<lambda>j r. r[j := constraints ! i ! j]) [0..<numVars] row0)
                  [totalCols - 1 := constraints ! i ! numVars]
      in if meth = Standard \<and> sign = ''>='' then
           (fold (\<lambda>j r. r[j := r ! j * (- 1)]) [0..<totalCols] row)[curSlack := 1]
         else if sign = ''<='' then row[curSlack := 1]
         else if sign = ''>='' \<or> sign = ''='' then
           (let row1 = (if sign = ''>='' then row[curSlack := - 1] else row)
            in if useArtificials meth then row1[curArt := 1] else row1)
         else row)"

definition fillBasic :: "solve_method \<Rightarrow> string list \<Rightarrow> nat \<Rightarrow> nat \<Rightarrow> nat \<Rightarrow> int" where
  "fillBasic meth signs i curSlack curArt =
     (let sign = signAt signs i
      in if meth = Standard \<and> sign = ''>='' then int curSlack
         else if sign = ''<='' then int curSlack
         else if (sign = ''>='' \<or> sign = ''='') \<and> useArtificials meth then int curArt
         else - 1)"

definition slackCol :: "nat \<Rightarrow> string list \<Rightarrow> nat \<Rightarrow> nat" where
  "slackCol numVars signs i = numVars + slackBefore signs i"

definition artCol :: "solve_method \<Rightarrow> nat \<Rightarrow> nat \<Rightarrow> string list \<Rightarrow> nat \<Rightarrow> nat" where
  "artCol meth numVars numConstraints signs i =
     numVars + slackBefore signs numConstraints + (if useArtificials meth then artBefore signs i else 0)"

definition filledRow :: "solve_method \<Rightarrow> nat \<Rightarrow> nat \<Rightarrow> rat list list \<Rightarrow> string list \<Rightarrow> nat
    \<Rightarrow> rat list" where
  "filledRow meth numVars numConstraints constraints signs i =
     fillRow meth numVars (extTotalCols meth numVars numConstraints signs) constraints signs i
       (slackCol numVars signs i) (artCol meth numVars numConstraints signs i)
       (replicate (extTotalCols meth numVars numConstraints signs) 0)"

definition filledBasic :: "solve_method \<Rightarrow> nat \<Rightarrow> nat \<Rightarrow> string list \<Rightarrow> nat \<Rightarrow> int" where
  "filledBasic meth numVars numConstraints signs i =
     fillBasic meth signs i (slackCol numVars signs i) (artCol meth numVars numConstraints signs i)"

text \<open>
  The constraint rows hold a unit column for every basic variable (canonical form without
  the condition on row 0).
\<close>

definition basisColumns :: "nat \<Rightarrow> nat \<Rightarrow> matrix \<Rightarrow> int list \<Rightarrow> bool" where
  "basisColumns m totalCols T B \<longleftrightarrow>
     rectangular m totalCols T \<and> validBasis m totalCols B \<and>
     (\<forall>i<m. \<forall>r. 1 \<le> r \<and> r \<le> m \<longrightarrow> T ! r ! nat (B ! i) = (if r = i + 1 then 1 else 0))"

text \<open>
  The relations the extended variant provides a basic variable for: each of the first
  \<open>m\<close> relations is \<open><=\<close> or \<open>>=\<close>, or is \<open>=\<close> under a method with artificial variables.
\<close>

definition signsOk :: "solve_method \<Rightarrow> nat \<Rightarrow> string list \<Rightarrow> bool" where
  "signsOk meth m signs \<longleftrightarrow>
     (\<forall>i<m. signAt signs i = ''<='' \<or> signAt signs i = ''>='' \<or>
            (signAt signs i = ''='' \<and> useArtificials meth))"





text \<open>
  The objective row of phase 2: entry \<open>j\<close> of the row that holds \<open>- c\<close> for the decision
  variables and 0 elsewhere, and entry \<open>j\<close> of that row after, for every constraint row
  \<open>i + 1\<close> whose basic variable has an entry exceeding \<open>1e-9\<close> in absolute value in it, that
  entry times the constraint row is subtracted.
\<close>

definition costRow :: "nat \<Rightarrow> rat list \<Rightarrow> nat \<Rightarrow> rat" where
  "costRow n c j = (if j < n then - (c ! j) else 0)"

definition phase2Objective :: "nat \<Rightarrow> nat \<Rightarrow> rat list \<Rightarrow> matrix \<Rightarrow> int list \<Rightarrow> nat \<Rightarrow> rat" where
  "phase2Objective n m c T B j =
     costRow n c j -
     (\<Sum>i\<leftarrow>[0..<m]. if \<bar>costRow n c (nat (B ! i))\<bar> > 1 / 1000000000
                    then costRow n c (nat (B ! i)) * T ! (i + 1) ! j else 0)"
section \<open>Properties of the pivot engine\<close>

subsection \<open>Invariants of the two loops\<close>

lemma simpleLoop_invariant:
  assumes "I (T, B, S)"
    and "\<And>T B S pc pr. I (T, B, S) \<Longrightarrow> findPivotCol 0 T totalCols = Some pc \<Longrightarrow>
           ratioTest quot 0 T m totalCols pc = Some pr \<Longrightarrow>
           I (pivotOp (m + 1) totalCols pr pc T, B[pr - 1 := int pc], S @ [simpleStep names T B pr pc])"
  shows "case simpleLoop quot m totalCols names iter (T, B, S) of Inl st \<Rightarrow> I st | Inr st \<Rightarrow> I st"
  using assms
proof (induction quot m totalCols names iter "(T, B, S)" arbitrary: T B S rule: simpleLoop.induct)
  case (1 quot m totalCols names iter T B S)
  show ?case
  proof (cases "iter < 100")
    case False
    then show ?thesis using "1.prems"(1) by (subst simpleLoop.simps) simp
  next
    case True
    show ?thesis
    proof (cases "findPivotCol 0 T totalCols")
      case None
      then show ?thesis using True "1.prems"(1) by (subst simpleLoop.simps) simp
    next
      case (Some pc)
      show ?thesis
      proof (cases "ratioTest quot 0 T m totalCols pc")
        case None
        then show ?thesis using True Some "1.prems"(1) by (subst simpleLoop.simps) simp
      next
        case Some2: (Some pr)
        have nxt: "I (pivotOp (m + 1) totalCols pr pc T, B[pr - 1 := int pc], S @ [simpleStep names T B pr pc])"
          using "1.prems"(2)[OF "1.prems"(1) Some Some2] .
        note h = "1.hyps"[OF True Some Some2 nxt "1.prems"(2)]
        have eq: "simpleLoop quot m totalCols names iter (T, B, S) = simpleLoop quot m totalCols names (iter + 1)
                   (pivotOp (m + 1) totalCols pr pc T, B[pr - 1 := int pc],
                    S @ [simpleStep names T B pr pc])"
          using True Some Some2 by (subst simpleLoop.simps) simp
        show ?thesis unfolding eq using h .
      qed
    qed
  qed
qed

lemma runSimplexLoopFrom_invariant:
  assumes "I (T, B, S)"
    and "\<And>T B S pc pr it. I (T, B, S) \<Longrightarrow> findPivotCol (- (1 / 1000000000)) T totalCols = Some pc \<Longrightarrow>
           ratioTest quot (1 / 1000000000) T m totalCols pc = Some pr \<Longrightarrow>
           I (pivotOp (m + 1) totalCols pr pc T, B[pr - 1 := int pc],
              S @ [extStep iterStart it T (B[pr - 1 := int pc]) pr pc])"
  shows "I (snd (runSimplexLoopFrom quot m totalCols iterStart it (T, B, S)))"
  using assms
proof (induction quot m totalCols iterStart it "(T, B, S)" arbitrary: T B S rule: runSimplexLoopFrom.induct)
  case (1 quot m totalCols iterStart it T B S)
  show ?case
  proof (cases "it < 50")
    case False
    then show ?thesis using "1.prems"(1) by (subst runSimplexLoopFrom.simps) simp
  next
    case True
    show ?thesis
    proof (cases "findPivotCol (- (1 / 1000000000)) T totalCols")
      case None
      then show ?thesis using True "1.prems"(1) by (subst runSimplexLoopFrom.simps) simp
    next
      case (Some pc)
      show ?thesis
      proof (cases "ratioTest quot (1 / 1000000000) T m totalCols pc")
        case None
        then show ?thesis using True Some "1.prems"(1) by (subst runSimplexLoopFrom.simps) simp
      next
        case Some2: (Some pr)
        have nxt: "I (pivotOp (m + 1) totalCols pr pc T, B[pr - 1 := int pc],
                 S @ [extStep iterStart it T (B[pr - 1 := int pc]) pr pc])"
          using "1.prems"(2)[OF "1.prems"(1) Some Some2] .
        note h = "1.hyps"[OF True Some Some2 nxt "1.prems"(2)]
        have eq: "runSimplexLoopFrom quot m totalCols iterStart it (T, B, S) =
                  runSimplexLoopFrom quot m totalCols iterStart (it + 1)
                   (pivotOp (m + 1) totalCols pr pc T, B[pr - 1 := int pc],
                    S @ [extStep iterStart it T (B[pr - 1 := int pc]) pr pc])"
          using True Some Some2 by (subst runSimplexLoopFrom.simps) simp
        show ?thesis unfolding eq using h .
      qed
    qed
  qed
qed

subsection \<open>The entering column\<close>

lemma colScan_Suc:
  "colScan v row (Suc k) =
     (case colScan v row k of (minVal, pc) \<Rightarrow> if row ! k < minVal then (row ! k, Some k) else (minVal, pc))"
  by (simp add: colScan_def)

lemma colScan_inv:
  "case colScan v row k of (minVal, pc) \<Rightarrow>
     (\<forall>j<k. minVal \<le> row ! j) \<and>
     (case pc of None \<Rightarrow> minVal = v
      | Some p \<Rightarrow> p < k \<and> minVal = row ! p \<and> row ! p < v \<and> (\<forall>j<p. row ! p < row ! j))"
proof (induction k)
  case 0
  then show ?case by (simp add: colScan_def)
next
  case (Suc k)
  obtain mv pc where s: "colScan v row k = (mv, pc)" by (cases "colScan v row k")
  from Suc s have a: "\<forall>j<k. mv \<le> row ! j" by simp
  from Suc s have b: "case pc of None \<Rightarrow> mv = v
      | Some p \<Rightarrow> p < k \<and> mv = row ! p \<and> row ! p < v \<and> (\<forall>j<p. row ! p < row ! j)" by simp
  show ?case
  proof (cases "row ! k < mv")
    case True
    have "\<forall>j<Suc k. row ! k \<le> row ! j" using a True by (auto simp: less_Suc_eq)
    moreover have "row ! k < v" using b True by (cases pc) auto
    moreover have "\<forall>j<k. row ! k < row ! j" using a True by auto
    ultimately show ?thesis using s True by (simp add: colScan_Suc)
  next
    case False
    have "\<forall>j<Suc k. mv \<le> row ! j" using a False by (auto simp: less_Suc_eq)
    moreover have "case pc of None \<Rightarrow> mv = v
      | Some p \<Rightarrow> p < Suc k \<and> mv = row ! p \<and> row ! p < v \<and> (\<forall>j<p. row ! p < row ! j)"
      using b by (cases pc) auto
    ultimately show ?thesis using s False by (simp add: colScan_Suc)
  qed
qed

lemma findPivotCol_colScan: "findPivotCol v T totalCols = snd (colScan v (T ! 0) (totalCols - 1))"
  by (simp add: findPivotCol_def colScan_def)

lemma findPivotCol_None_iff:
  "findPivotCol v T totalCols = None \<longleftrightarrow> (\<forall>j<totalCols - 1. v \<le> T ! 0 ! j)"
proof -
  obtain mv pc where s: "colScan v (T ! 0) (totalCols - 1) = (mv, pc)"
    by (cases "colScan v (T ! 0) (totalCols - 1)")
  from colScan_inv[where v=v and row="T ! 0" and k="totalCols - 1"] s show ?thesis
    by (cases pc) (auto simp: findPivotCol_colScan dest: leD)
qed

lemma findPivotCol_SomeD:
  assumes "findPivotCol v T totalCols = Some p"
  shows "p < totalCols - 1 \<and> T ! 0 ! p < v \<and> (\<forall>j<totalCols - 1. T ! 0 ! p \<le> T ! 0 ! j)
         \<and> (\<forall>j<p. T ! 0 ! p < T ! 0 ! j)"
proof -
  obtain mv pc where s: "colScan v (T ! 0) (totalCols - 1) = (mv, pc)"
    by (cases "colScan v (T ! 0) (totalCols - 1)")
  from colScan_inv[where v=v and row="T ! 0" and k="totalCols - 1"] s assms show ?thesis
    by (auto simp: findPivotCol_colScan)
qed

lemma findPivotCol_Some_iff:
  "findPivotCol v T totalCols = Some p \<longleftrightarrow>
     p < totalCols - 1 \<and> T ! 0 ! p < v \<and> (\<forall>j<totalCols - 1. T ! 0 ! p \<le> T ! 0 ! j)
     \<and> (\<forall>j<p. T ! 0 ! p < T ! 0 ! j)"
  (is "?L \<longleftrightarrow> ?R")
proof
  assume ?L then show ?R by (rule findPivotCol_SomeD)
next
  assume r: ?R
  have "findPivotCol v T totalCols \<noteq> None"
    using r by (auto simp: findPivotCol_None_iff dest: leD)
  then obtain q where q: "findPivotCol v T totalCols = Some q" by auto
  note d = findPivotCol_SomeD[OF q]
  have "\<not> p < q"
  proof
    assume "p < q"
    then have "T ! 0 ! q < T ! 0 ! p" using d by blast
    moreover have "T ! 0 ! p \<le> T ! 0 ! q" using r d by blast
    ultimately show False by simp
  qed
  moreover have "\<not> q < p"
  proof
    assume "q < p"
    then have "T ! 0 ! p < T ! 0 ! q" using r by blast
    moreover have "T ! 0 ! q \<le> T ! 0 ! p" using r d by blast
    ultimately show False by simp
  qed
  ultimately show ?L using q by simp
qed

subsection \<open>The leaving row\<close>

lemma jsratio_top [simp]: "(a :: jsratio) \<le> PlusInfinity"
  by (cases a) (simp_all add: less_eq_jsratio_def)

lemma rowScan_0: "rowScan quot eps T totalCols pc 0 = (PlusInfinity, None)"
  by (simp add: rowScan_def)

lemma rowScan_Suc:
  "rowScan quot eps T totalCols pc (Suc k) =
     ratioStep quot eps T totalCols pc (Suc k) (rowScan quot eps T totalCols pc k)"
  by (simp add: rowScan_def)

lemma rowScan_inv:
  "case rowScan quot eps T totalCols pc k of (mr, pr) \<Rightarrow>
     (\<forall>i. 1 \<le> i \<and> i \<le> k \<and> eps < T ! i ! pc \<longrightarrow> mr \<le> ratio quot T totalCols pc i) \<and>
     (case pr of
        None \<Rightarrow> mr = PlusInfinity
      | Some p \<Rightarrow> 1 \<le> p \<and> p \<le> k \<and> eps < T ! p ! pc \<and> mr = ratio quot T totalCols pc p \<and>
          mr < PlusInfinity \<and>
          (\<forall>i. 1 \<le> i \<and> i < p \<and> eps < T ! i ! pc \<longrightarrow>
             ratio quot T totalCols pc p < ratio quot T totalCols pc i))"
proof (induction k)
  case 0
  then show ?case by (simp add: rowScan_0)
next
  case (Suc k)
  obtain mr pr where s: "rowScan quot eps T totalCols pc k = (mr, pr)"
    by (cases "rowScan quot eps T totalCols pc k")
  from Suc s have a: "\<forall>i. 1 \<le> i \<and> i \<le> k \<and> eps < T ! i ! pc \<longrightarrow> mr \<le> ratio quot T totalCols pc i"
    by simp
  from Suc s have b: "case pr of
        None \<Rightarrow> mr = PlusInfinity
      | Some p \<Rightarrow> 1 \<le> p \<and> p \<le> k \<and> eps < T ! p ! pc \<and> mr = ratio quot T totalCols pc p \<and>
          mr < PlusInfinity \<and>
          (\<forall>i. 1 \<le> i \<and> i < p \<and> eps < T ! i ! pc \<longrightarrow>
             ratio quot T totalCols pc p < ratio quot T totalCols pc i)"
    by simp
  have top: "mr \<le> PlusInfinity" by simp
  show ?case
  proof (cases "eps < T ! Suc k ! pc \<and> ratio quot T totalCols pc (Suc k) < mr")
    case True
    have r: "rowScan quot eps T totalCols pc (Suc k) = (ratio quot T totalCols pc (Suc k), Some (Suc k))"
      using s True by (simp add: rowScan_Suc ratioStep_def Let_def ratio_def)
    have "\<forall>i. 1 \<le> i \<and> i \<le> Suc k \<and> eps < T ! i ! pc \<longrightarrow>
            ratio quot T totalCols pc (Suc k) \<le> ratio quot T totalCols pc i"
      using a True by (force simp: le_Suc_eq)
    moreover have "\<forall>i. 1 \<le> i \<and> i < Suc k \<and> eps < T ! i ! pc \<longrightarrow>
            ratio quot T totalCols pc (Suc k) < ratio quot T totalCols pc i"
      using a True by (force simp: less_Suc_eq_le)
    moreover have "ratio quot T totalCols pc (Suc k) < PlusInfinity"
      using True top by (rule_tac less_le_trans[where y = mr]) simp_all
    ultimately show ?thesis using r True by simp
  next
    case False
    have r: "rowScan quot eps T totalCols pc (Suc k) = (mr, pr)"
      using s False by (auto simp: rowScan_Suc ratioStep_def Let_def ratio_def)
    have "\<forall>i. 1 \<le> i \<and> i \<le> Suc k \<and> eps < T ! i ! pc \<longrightarrow> mr \<le> ratio quot T totalCols pc i"
      using a False by (force simp: le_Suc_eq)
    moreover have "case pr of
        None \<Rightarrow> mr = PlusInfinity
      | Some p \<Rightarrow> 1 \<le> p \<and> p \<le> Suc k \<and> eps < T ! p ! pc \<and> mr = ratio quot T totalCols pc p \<and>
          mr < PlusInfinity \<and>
          (\<forall>i. 1 \<le> i \<and> i < p \<and> eps < T ! i ! pc \<longrightarrow>
             ratio quot T totalCols pc p < ratio quot T totalCols pc i)"
      using b by (cases pr) auto
    ultimately show ?thesis using r by simp
  qed
qed

lemma ratioTest_rowScan:
  "ratioTest quot eps T m totalCols pc = snd (rowScan quot eps T totalCols pc m)"
  by (simp add: ratioTest_def rowScan_def)

lemma ratioTest_None_iff:
  "ratioTest quot eps T m totalCols pc = None \<longleftrightarrow>
     (\<forall>i. 1 \<le> i \<and> i \<le> m \<and> eps < T ! i ! pc \<longrightarrow> ratio quot T totalCols pc i = PlusInfinity)"
proof -
  obtain mr pr where s: "rowScan quot eps T totalCols pc m = (mr, pr)"
    by (cases "rowScan quot eps T totalCols pc m")
  note inv = rowScan_inv[where quot=quot and eps=eps and T=T and totalCols=totalCols and pc=pc and k=m]
  show ?thesis
  proof (cases pr)
    case None
    with inv s have "mr = PlusInfinity"
      "\<forall>i. 1 \<le> i \<and> i \<le> m \<and> eps < T ! i ! pc \<longrightarrow> mr \<le> ratio quot T totalCols pc i" by auto
    then have "\<forall>i. 1 \<le> i \<and> i \<le> m \<and> eps < T ! i ! pc \<longrightarrow> ratio quot T totalCols pc i = PlusInfinity"
      by (auto simp: antisym)
    then show ?thesis using s None by (simp add: ratioTest_rowScan)
  next
    case (Some p)
    with inv s have "1 \<le> p" "p \<le> m" "eps < T ! p ! pc" "ratio quot T totalCols pc p < PlusInfinity"
      by auto
    then have "\<not> (\<forall>i. 1 \<le> i \<and> i \<le> m \<and> eps < T ! i ! pc \<longrightarrow> ratio quot T totalCols pc i = PlusInfinity)"
      by auto
    then show ?thesis using s Some by (simp add: ratioTest_rowScan)
  qed
qed

lemma ratioTest_SomeD:
  assumes "ratioTest quot eps T m totalCols pc = Some p"
  shows "1 \<le> p \<and> p \<le> m \<and> eps < T ! p ! pc \<and> ratio quot T totalCols pc p < PlusInfinity \<and>
         (\<forall>i. 1 \<le> i \<and> i \<le> m \<and> eps < T ! i ! pc \<longrightarrow>
            ratio quot T totalCols pc p \<le> ratio quot T totalCols pc i) \<and>
         (\<forall>i. 1 \<le> i \<and> i < p \<and> eps < T ! i ! pc \<longrightarrow>
            ratio quot T totalCols pc p < ratio quot T totalCols pc i)"
proof -
  obtain mr pr where s: "rowScan quot eps T totalCols pc m = (mr, pr)"
    by (cases "rowScan quot eps T totalCols pc m")
  from rowScan_inv[where quot=quot and eps=eps and T=T and totalCols=totalCols and pc=pc and k=m]
    s assms show ?thesis
    by (auto simp: ratioTest_rowScan)
qed

lemma ratioTest_Some_iff:
  "ratioTest quot eps T m totalCols pc = Some p \<longleftrightarrow>
     1 \<le> p \<and> p \<le> m \<and> eps < T ! p ! pc \<and> ratio quot T totalCols pc p < PlusInfinity \<and>
     (\<forall>i. 1 \<le> i \<and> i \<le> m \<and> eps < T ! i ! pc \<longrightarrow>
        ratio quot T totalCols pc p \<le> ratio quot T totalCols pc i) \<and>
     (\<forall>i. 1 \<le> i \<and> i < p \<and> eps < T ! i ! pc \<longrightarrow>
        ratio quot T totalCols pc p < ratio quot T totalCols pc i)"
  (is "?L \<longleftrightarrow> ?R")
proof
  assume ?L then show ?R by (rule ratioTest_SomeD)
next
  assume r: ?R
  have "ratioTest quot eps T m totalCols pc \<noteq> None"
    using r by (auto simp: ratioTest_None_iff)
  then obtain q where q: "ratioTest quot eps T m totalCols pc = Some q" by auto
  note d = ratioTest_SomeD[OF q]
  have "\<not> p < q"
  proof
    assume "p < q"
    then have "ratio quot T totalCols pc q < ratio quot T totalCols pc p" using d r by blast
    moreover have "ratio quot T totalCols pc p \<le> ratio quot T totalCols pc q" using r d by blast
    ultimately show False by simp
  qed
  moreover have "\<not> q < p"
  proof
    assume "q < p"
    then have "ratio quot T totalCols pc p < ratio quot T totalCols pc q" using r d by blast
    moreover have "ratio quot T totalCols pc q \<le> ratio quot T totalCols pc p" using r d by blast
    ultimately show False by simp
  qed
  ultimately show ?L using q by simp
qed

subsection \<open>Properties of every recorded step\<close>

lemma steps_stoppedResult [simp]: "steps (stoppedResult st names (T, B, S)) = S"
  by (simp add: stoppedResult_def)

lemma steps_optimalResult [simp]: "steps (optimalResult ty n m totalCols names (T, B, S)) = S"
  by (simp add: optimalResult_def)

lemma simple_steps_all:
  assumes "\<And>T B pr pc. findPivotCol 0 T (n + m + 1) = Some pc \<Longrightarrow>
             ratioTest quot 0 T m (n + m + 1) pc = Some pr \<Longrightarrow> P (simpleStep (simpleNames n m) T B pr pc)"
  shows "\<forall>s\<in>set (steps (solveSimplex quot ty n m c cons)). P s"
proof -
  let ?I = "\<lambda>st. case st of (T, B, S) \<Rightarrow> \<forall>s\<in>set S. P s"
  obtain T0 B0 where i: "simpleInit n m (negateForMin ty c) cons = (T0, B0, [])"
    by (simp add: simpleInit_def Let_def)
  have "case simpleLoop quot m (n + m + 1) (simpleNames n m) 0 (T0, B0, []) of
          Inl st \<Rightarrow> ?I st | Inr st \<Rightarrow> ?I st"
    by (rule simpleLoop_invariant) (use assms in auto)
  then show ?thesis
    by (auto simp: solveSimplex_def Let_def i split: sum.splits)
qed

lemma ext_loop_steps_all:
  assumes "\<And>T B pr pc it. findPivotCol (- (1 / 1000000000)) T totalCols = Some pc \<Longrightarrow>
             ratioTest quot (1 / 1000000000) T m totalCols pc = Some pr \<Longrightarrow>
             P (extStep iterStart it T (B[pr - 1 := int pc]) pr pc)"
    and "\<forall>s\<in>set (snd (snd state)). P s"
  shows "\<forall>s\<in>set (snd (snd (snd (runSimplexLoop quot m totalCols iterStart state)))). P s"
proof -
  let ?I = "\<lambda>st. \<forall>s\<in>set (snd (snd st)). P s"
  obtain T B S where st: "state = (T, B, S)" by (cases state)
  have "?I (snd (runSimplexLoopFrom quot m totalCols iterStart 0 (T, B, S)))"
    by (rule runSimplexLoopFrom_invariant) (use assms st in auto)
  then show ?thesis by (simp add: runSimplexLoop_def st)
qed

lemma ext_steps_all:
  assumes "\<And>T B pr pc it iterStart.
             findPivotCol (- (1 / 1000000000)) T (extTotalCols meth n m signs) = Some pc \<Longrightarrow>
             ratioTest quot (1 / 1000000000) T m (extTotalCols meth n m signs) pc = Some pr \<Longrightarrow>
             P (extStep iterStart it T (B[pr - 1 := int pc]) pr pc)"
  shows "\<forall>s\<in>set (steps (solveSimplex_ext quot ty n m c cons signs meth)). P s"
proof -
  let ?tc = "extTotalCols meth n m signs"
  let ?c = "negateForMin ty c"
  let ?init = "extInit meth n m ?c cons signs"
  obtain k1 T1 B1 S1 where r1: "runSimplexLoop quot m ?tc 0 ?init = (k1, T1, B1, S1)"
    by (metis prod_cases4)
  have "snd (snd ?init) = []"
    by (simp add: extInit_def Let_def split: prod.splits)
  then have "\<forall>s\<in>set (snd (snd (snd (runSimplexLoop quot m ?tc 0 ?init)))). P s"
    by (intro ext_loop_steps_all) (use assms in auto)
  then have p1: "\<forall>s\<in>set S1. P s" by (simp add: r1)
  obtain k2 T2 B2 S2 where r2:
    "runSimplexLoop quot m ?tc k1 (preparePhase2 n m ?tc ?c (T1, B1, S1)) = (k2, T2, B2, S2)"
    by (metis prod_cases4)
  have "snd (snd (preparePhase2 n m ?tc ?c (T1, B1, S1))) = S1"
    by (simp add: preparePhase2_def)
  then have "\<forall>s\<in>set (snd (snd (snd (runSimplexLoop quot m ?tc k1 (preparePhase2 n m ?tc ?c (T1, B1, S1)))))). P s"
    by (intro ext_loop_steps_all) (use assms p1 in auto)
  then have p2: "\<forall>s\<in>set S2. P s" by (simp add: r2)
  show ?thesis
    using p1 p2 r1 r2 by (cases "meth = TwoPhase") (auto simp: solveSimplex_ext_def Let_def)
qed


subsection \<open>Where the loops stop\<close>

lemma simpleLoop_steps_grow:
  "case simpleLoop quot m totalCols names iter (T, B, S) of
     Inl st \<Rightarrow> length S \<le> length (snd (snd st)) | Inr st \<Rightarrow> length S \<le> length (snd (snd st))"
proof -
  have "case simpleLoop quot m totalCols names iter (T, B, S) of
     Inl st \<Rightarrow> (\<lambda>st. length S \<le> length (snd (snd st))) st
   | Inr st \<Rightarrow> (\<lambda>st. length S \<le> length (snd (snd st))) st"
    by (rule simpleLoop_invariant) auto
  then show ?thesis by simp
qed

lemma runSimplexLoopFrom_steps_grow:
  "length S \<le> length (snd (snd (snd (runSimplexLoopFrom quot m totalCols iterStart it (T, B, S)))))"
proof -
  have "(\<lambda>st. length S \<le> length (snd (snd st)))
          (snd (runSimplexLoopFrom quot m totalCols iterStart it (T, B, S)))"
    by (rule runSimplexLoopFrom_invariant) auto
  then show ?thesis by simp
qed

lemma simpleLoop_break_iff:
  assumes "iter < 100"
  shows "simpleLoop quot m totalCols names iter (T, B, S) = Inr (T, B, S)
           \<longleftrightarrow> (\<forall>j<totalCols - 1. 0 \<le> T ! 0 ! j)"
proof (cases "findPivotCol 0 T totalCols")
  case None
  then have "\<forall>j<totalCols - 1. 0 \<le> T ! 0 ! j"
    by (simp only: findPivotCol_None_iff)
  then show ?thesis using assms None
    by (subst simpleLoop.simps) simp
next
  case (Some pc)
  then have no: "\<not> (\<forall>j<totalCols - 1. 0 \<le> T ! 0 ! j)"
    using findPivotCol_None_iff[of 0 T totalCols] by simp
  have "simpleLoop quot m totalCols names iter (T, B, S) \<noteq> Inr (T, B, S)"
  proof (cases "ratioTest quot 0 T m totalCols pc")
    case None
    then show ?thesis using assms Some by (subst simpleLoop.simps) simp
  next
    case Some2: (Some pr)
    have eq: "simpleLoop quot m totalCols names iter (T, B, S) = simpleLoop quot m totalCols names (iter + 1)
                   (pivotOp (m + 1) totalCols pr pc T, B[pr - 1 := int pc],
                    S @ [simpleStep names T B pr pc])"
      using assms Some Some2 by (subst simpleLoop.simps) simp
    show ?thesis
      using simpleLoop_steps_grow[of "S @ [simpleStep names T B pr pc]" quot m totalCols names "iter + 1"
          "pivotOp (m + 1) totalCols pr pc T" "B[pr - 1 := int pc]"]
      unfolding eq by (auto split: sum.splits)
  qed
  then show ?thesis using no by simp
qed

lemma runSimplexLoopFrom_break_iff:
  assumes "it < 50"
  shows "runSimplexLoopFrom quot m totalCols iterStart it (T, B, S) = (int it, T, B, S)
           \<longleftrightarrow> (\<forall>j<totalCols - 1. - (1 / 1000000000) \<le> T ! 0 ! j)"
proof (cases "findPivotCol (- (1 / 1000000000)) T totalCols")
  case None
  then have "\<forall>j<totalCols - 1. - (1 / 1000000000) \<le> T ! 0 ! j"
    by (simp only: findPivotCol_None_iff)
  then show ?thesis using assms None
    by (subst runSimplexLoopFrom.simps) simp
next
  case (Some pc)
  then have no: "\<not> (\<forall>j<totalCols - 1. - (1 / 1000000000) \<le> T ! 0 ! j)"
    using findPivotCol_None_iff[of "- (1 / 1000000000)" T totalCols] by simp
  have "runSimplexLoopFrom quot m totalCols iterStart it (T, B, S) \<noteq> (int it, T, B, S)"
  proof (cases "ratioTest quot (1 / 1000000000) T m totalCols pc")
    case None
    then show ?thesis using assms Some by (subst runSimplexLoopFrom.simps) simp
  next
    case Some2: (Some pr)
    have eq: "runSimplexLoopFrom quot m totalCols iterStart it (T, B, S) =
                  runSimplexLoopFrom quot m totalCols iterStart (it + 1)
                   (pivotOp (m + 1) totalCols pr pc T, B[pr - 1 := int pc],
                    S @ [extStep iterStart it T (B[pr - 1 := int pc]) pr pc])"
      using assms Some Some2 by (subst runSimplexLoopFrom.simps) simp
    show ?thesis
      using runSimplexLoopFrom_steps_grow[of "S @ [extStep iterStart it T (B[pr - 1 := int pc]) pr pc]"
          quot m totalCols iterStart "it + 1" "pivotOp (m + 1) totalCols pr pc T" "B[pr - 1 := int pc]"]
      unfolding eq by (auto simp: prod_eq_iff)
  qed
  then show ?thesis using no by simp
qed


lemma simpleLoop_unbounded:
  assumes "iter < 100" "findPivotCol 0 T totalCols = Some pc"
    "\<forall>i. 1 \<le> i \<and> i \<le> m \<and> 0 < T ! i ! pc \<longrightarrow> ratio quot T totalCols pc i = PlusInfinity"
  shows "simpleLoop quot m totalCols names iter (T, B, S) = Inl (T, B, S)"
proof -
  have "ratioTest quot 0 T m totalCols pc = None"
    using assms(3) by (simp only: ratioTest_None_iff)
  then show ?thesis using assms(1,2) by (subst simpleLoop.simps) simp
qed

lemma runSimplexLoopFrom_unbounded:
  assumes "it < 50" "findPivotCol (- (1 / 1000000000)) T totalCols = Some pc"
    "\<forall>i. 1 \<le> i \<and> i \<le> m \<and> 1 / 1000000000 < T ! i ! pc \<longrightarrow>
         ratio quot T totalCols pc i = PlusInfinity"
  shows "runSimplexLoopFrom quot m totalCols iterStart it (T, B, S) = (- 1, T, B, S)"
proof -
  have "ratioTest quot (1 / 1000000000) T m totalCols pc = None"
    using assms(3) by (simp only: ratioTest_None_iff)
  then show ?thesis using assms(1,2) by (subst runSimplexLoopFrom.simps) simp
qed

lemma solveSimplex_unbounded:
  assumes "simpleLoop quot m (n + m + 1) (simpleNames n m) 0 (simpleInit n m (negateForMin ty c) cons)
             = Inl (T, B, S)"
  shows "solveSimplex quot ty n m c cons =
           \<lparr> steps = S, finalTableau = T, solution = [], optimalValue = 0, status = Unbounded,
             variableNames = simpleNames n m, finalBasicVars = B \<rparr>"
  using assms by (simp add: solveSimplex_def Let_def stoppedResult_def)

lemma solveSimplex_ext_unbounded:
  assumes "meth \<noteq> TwoPhase"
    "runSimplexLoop quot m (extTotalCols meth n m signs) 0 (extInit meth n m (negateForMin ty c) cons signs)
       = (- 1, T, B, S)"
  shows "solveSimplex_ext quot ty n m c cons signs meth =
           \<lparr> steps = S, finalTableau = T, solution = [], optimalValue = 0, status = Unbounded,
             variableNames = extNames meth n m signs, finalBasicVars = B \<rparr>"
  using assms by (simp add: solveSimplex_ext_def Let_def stoppedResult_def)

lemma solveSimplex_ext_phase2_unbounded:
  assumes "runSimplexLoop quot m (extTotalCols TwoPhase n m signs) 0
             (extInit TwoPhase n m (negateForMin ty c) cons signs) = (k, T1, B1, S1)"
    "\<not> \<bar>T1 ! 0 ! (extTotalCols TwoPhase n m signs - 1)\<bar> > 1 / 100000"
    "runSimplexLoop quot m (extTotalCols TwoPhase n m signs) k
       (preparePhase2 n m (extTotalCols TwoPhase n m signs) (negateForMin ty c) (T1, B1, S1))
       = (- 1, T, B, S)"
  shows "solveSimplex_ext quot ty n m c cons signs TwoPhase =
           \<lparr> steps = S, finalTableau = T, solution = [], optimalValue = 0, status = Unbounded,
             variableNames = extNames TwoPhase n m signs, finalBasicVars = B \<rparr>"
  using assms by (simp add: solveSimplex_ext_def Let_def stoppedResult_def)


subsection \<open>The Gauss-Jordan pivot, entry by entry\<close>

lemma fold_upd_length [simp]:
  "length (fold (\<lambda>j r. r[j := g j r]) [a..<k] row) = length row"
  by (induction k) auto

lemma fold_upd_nth:
  "fold (\<lambda>j r. r[j := g j (r ! j)]) [0..<k] row ! j
     = (if j < k \<and> j < length row then g j (row ! j) else row ! j)"
proof (induction k arbitrary: j)
  case 0
  then show ?case by simp
next
  case (Suc k)
  let ?F = "fold (\<lambda>j r. r[j := g j (r ! j)]) [0..<k] row"
  have len: "length ?F = length row"
    using fold_upd_length[where g = "\<lambda>j r. g j (r ! j)" and a = 0] by simp
  have unf: "fold (\<lambda>j r. r[j := g j (r ! j)]) [0..<Suc k] row = ?F[k := g k (?F ! k)]"
    by simp
  show ?case
  proof (cases "k < length row")
    case True
    then show ?thesis
      unfolding unf using Suc[of j] Suc[of k] by (auto simp: len nth_list_update less_Suc_eq)
  next
    case False
    then have "length ?F \<le> k" unfolding len by simp
    then have "?F[k := g k (?F ! k)] = ?F" by (rule list_update_beyond)
    then show ?thesis
      unfolding unf using Suc[of j] False by (auto simp: less_Suc_eq)
  qed
qed

lemma normalizeRow_length [simp]: "length (normalizeRow totalCols pv row) = length row"
  unfolding normalizeRow_def using fold_upd_length[where g = "\<lambda>j r. r ! j / pv" and a = 0] by simp

lemma normalizeRow_nth:
  "j < totalCols \<Longrightarrow> j < length row \<Longrightarrow> normalizeRow totalCols pv row ! j = row ! j / pv"
  unfolding normalizeRow_def using fold_upd_nth[where g = "\<lambda>j x. x / pv"] by simp

lemma subtractRow_length [simp]: "length (subtractRow totalCols f prow row) = length row"
  unfolding subtractRow_def
  using fold_upd_length[where g = "\<lambda>j r. r ! j - f * prow ! j" and a = 0] by simp

lemma subtractRow_nth:
  "j < totalCols \<Longrightarrow> j < length row \<Longrightarrow>
     subtractRow totalCols f prow row ! j = row ! j - f * prow ! j"
  unfolding subtractRow_def using fold_upd_nth[where g = "\<lambda>j x. x - f * prow ! j"] by simp

lemma eliminateOthers_length [simp]: "length (eliminateOthers numRows totalCols pr pc T) = length T"
  unfolding eliminateOthers_def by (induction numRows) auto

lemma eliminateOthers_nth:
  "i < length T \<Longrightarrow> pr < length T \<Longrightarrow>
   eliminateOthers numRows totalCols pr pc T ! i
     = (if i < numRows \<and> i \<noteq> pr then subtractRow totalCols (T ! i ! pc) (T ! pr) (T ! i) else T ! i)"
proof (induction numRows arbitrary: i)
  case 0
  then show ?case by (simp add: eliminateOthers_def)
next
  case (Suc k)
  have unf: "eliminateOthers (Suc k) totalCols pr pc T =
    (let U = eliminateOthers k totalCols pr pc T in
     if k \<noteq> pr then U[k := subtractRow totalCols (U ! k ! pc) (U ! pr) (U ! k)] else U)"
    by (simp add: eliminateOthers_def Let_def)
  have pr: "eliminateOthers k totalCols pr pc T ! pr = T ! pr"
    using Suc.IH[OF Suc.prems(2) Suc.prems(2)] by simp
  show ?case
  proof (cases "k < length T")
    case True
    have kk: "eliminateOthers k totalCols pr pc T ! k = T ! k"
      using Suc.IH[OF True Suc.prems(2)] by simp
    show ?thesis
      using Suc.IH[OF Suc.prems] Suc.prems True
      by (auto simp: unf Let_def nth_list_update pr kk less_Suc_eq)
  next
    case False
    then show ?thesis
      using Suc.IH[OF Suc.prems] Suc.prems
      by (auto simp: unf Let_def less_Suc_eq)
  qed
qed

lemma pivotOp_length [simp]: "length (pivotOp numRows totalCols pr pc T) = length T"
  by (simp add: pivotOp_def Let_def)

lemma pivotOp_row:
  assumes "i < length T" "pr < length T" "i < numRows"
  shows "pivotOp numRows totalCols pr pc T ! i =
    (if i = pr then normalizeRow totalCols (T ! pr ! pc) (T ! pr)
     else subtractRow totalCols (T ! i ! pc) (normalizeRow totalCols (T ! pr ! pc) (T ! pr)) (T ! i))"
  using assms by (simp add: pivotOp_def Let_def eliminateOthers_nth)

lemma pivotOp_nth:
  assumes "i < length T" "pr < length T" "i < numRows" "j < totalCols" "j < length (T ! i)"
    "j < length (T ! pr)"
  shows "pivotOp numRows totalCols pr pc T ! i ! j =
    (if i = pr then T ! pr ! j / T ! pr ! pc
     else T ! i ! j - T ! i ! pc * (T ! pr ! j / T ! pr ! pc))"
  using assms by (simp add: pivotOp_row normalizeRow_nth subtractRow_nth)

lemma pivotOp_row_length:
  assumes "i < length T" "pr < length T" "i < numRows"
  shows "length (pivotOp numRows totalCols pr pc T ! i) = length (T ! i)"
  using assms by (simp add: pivotOp_row)

subsection \<open>A pivot keeps the canonical form and the basis valid\<close>

lemma canonical_pivot:
  assumes can: "canonical bound m totalCols T B"
    and pcol: "findPivotCol bound T totalCols = Some pc"
    and prow: "ratioTest quot eps T m totalCols pc = Some pr"
    and eps: "0 \<le> eps" and bound: "bound \<le> 0"
  shows "canonical bound m totalCols (pivotOp (m + 1) totalCols pr pc T) (B[pr - 1 := int pc])"
proof -
  let ?T' = "pivotOp (m + 1) totalCols pr pc T"
  let ?B' = "B[pr - 1 := int pc]"
  from can have lenT: "length T = m + 1" and rows: "\<And>r. r \<le> m \<Longrightarrow> length (T ! r) = totalCols"
    and lenB: "length B = m"
    and inB: "\<And>i. i < m \<Longrightarrow> 0 \<le> B ! i \<and> nat (B ! i) < totalCols - 1"
    and dist: "distinct B"
    and unit: "\<And>i r. i < m \<Longrightarrow> 1 \<le> r \<Longrightarrow> r \<le> m \<Longrightarrow>
                 T ! r ! nat (B ! i) = (if r = i + 1 then 1 else 0)"
    and row0: "\<And>i. i < m \<Longrightarrow> bound \<le> T ! 0 ! nat (B ! i)"
    by (auto simp: canonical_def rectangular_def validBasis_def)
  from findPivotCol_SomeD[OF pcol] have pc: "pc < totalCols - 1" and neg: "T ! 0 ! pc < bound"
    by auto
  from ratioTest_SomeD[OF prow] have pr: "1 \<le> pr" "pr \<le> m" and pv: "eps < T ! pr ! pc"
    by auto
  have pv0: "T ! pr ! pc \<noteq> 0" using pv eps by auto
  have notin: "int pc \<notin> set B"
  proof
    assume "int pc \<in> set B"
    then obtain i where i: "i < m" "B ! i = int pc" using lenB by (auto simp: in_set_conv_nth)
    with row0[of i] neg show False by simp
  qed
  have entry: "\<And>r j. r \<le> m \<Longrightarrow> j < totalCols \<Longrightarrow>
      ?T' ! r ! j = (if r = pr then T ! pr ! j / T ! pr ! pc
                     else T ! r ! j - T ! r ! pc * (T ! pr ! j / T ! pr ! pc))"
    using lenT rows pr by (intro pivotOp_nth) auto
  have rect: "rectangular m totalCols ?T'"
    using lenT rows pr by (auto simp: rectangular_def pivotOp_row_length)
  have vb: "validBasis m totalCols ?B'"
    unfolding validBasis_def
  proof (intro conjI allI impI)
    show "length ?B' = m" using lenB by simp
    show "distinct ?B'" using dist notin by (simp add: distinct_list_update)
    fix i assume "i < m"
    then show "0 \<le> ?B' ! i" using inB[of i] lenB pr by (simp add: nth_list_update)
    show "nat (?B' ! i) < totalCols - 1" using inB[of i] lenB pc pr \<open>i < m\<close>
      by (simp add: nth_list_update)
  qed
  have unit': "\<forall>i<m. \<forall>r. 1 \<le> r \<and> r \<le> m \<longrightarrow> ?T' ! r ! nat (?B' ! i) = (if r = i + 1 then 1 else 0)"
  proof (intro allI impI)
    fix i r assume i: "i < m" and r: "1 \<le> r \<and> r \<le> m"
    show "?T' ! r ! nat (?B' ! i) = (if r = i + 1 then 1 else 0)"
    proof (cases "i = pr - 1")
      case True
      then have b: "nat (?B' ! i) = pc" using lenB i by simp
      have eq: "r = i + 1 \<longleftrightarrow> r = pr" using True pr by auto
      have "pc < totalCols" using pc by simp
      then have "?T' ! r ! pc = (if r = pr then 1 else 0)"
        using entry[of r pc] r pv0 by simp
      then show ?thesis unfolding b eq .
    next
      case False
      then have b: "?B' ! i = B ! i" by simp
      have j: "nat (B ! i) < totalCols" using inB[OF i] by linarith
      have z: "T ! pr ! nat (B ! i) = 0" using unit[OF i pr] False pr by auto
      have "?T' ! r ! nat (B ! i) = T ! r ! nat (B ! i)"
        using entry[of r "nat (B ! i)"] r j z by simp
      then show ?thesis unfolding b using unit[OF i, of r] r by simp
    qed
  qed
  have row0': "\<forall>i<m. bound \<le> ?T' ! 0 ! nat (?B' ! i)"
  proof (intro allI impI)
    fix i assume i: "i < m"
    show "bound \<le> ?T' ! 0 ! nat (?B' ! i)"
    proof (cases "i = pr - 1")
      case True
      then have b: "nat (?B' ! i) = pc" using lenB i by simp
      have "pc < totalCols" using pc by simp
      then have "?T' ! 0 ! pc = 0"
        using entry[of 0 pc] pv0 pr by simp
      then show ?thesis unfolding b using bound by simp
    next
      case False
      then have b: "?B' ! i = B ! i" by simp
      have j: "nat (B ! i) < totalCols" using inB[OF i] by linarith
      have z: "T ! pr ! nat (B ! i) = 0" using unit[OF i pr] False pr by auto
      have "?T' ! 0 ! nat (B ! i) = T ! 0 ! nat (B ! i)"
        using entry[of 0 "nat (B ! i)"] j z pr by simp
      then show ?thesis unfolding b using row0[OF i] by simp
    qed
  qed
  show ?thesis unfolding canonical_def using rect vb unit' row0' by blast
qed

subsection \<open>The constraint loop of the extended variant in closed form\<close>

lemma slackBefore_0 [simp]: "slackBefore signs 0 = 0"
  by (simp add: slackBefore_def)

lemma slackBefore_Suc:
  "slackBefore signs (Suc k) =
     slackBefore signs k + (if signAt signs k = ''<='' \<or> signAt signs k = ''>='' then 1 else 0)"
  by (simp add: slackBefore_def)

lemma artBefore_0 [simp]: "artBefore signs 0 = 0"
  by (simp add: artBefore_def)

lemma artBefore_Suc:
  "artBefore signs (Suc k) =
     artBefore signs k + (if signAt signs k = ''>='' \<or> signAt signs k = ''='' then 1 else 0)"
  by (simp add: artBefore_def)

lemma countVars_Suc:
  "countVars (Suc k) signs =
     (case countVars k signs of (s, a) \<Rightarrow>
        if signAt signs k = ''<='' then (s + 1, a)
        else if signAt signs k = ''>='' then (s + 1, a + 1) else (s, a + 1))"
  by (simp add: countVars_def)

lemma fst_countVars: "fst (countVars k signs) = slackBefore signs k"
  by (induction k) (auto simp: countVars_def slackBefore_Suc countVars_Suc split: prod.splits)

lemma snd_countVars_ge: "artBefore signs k \<le> snd (countVars k signs)"
  by (induction k) (auto simp: countVars_def artBefore_Suc countVars_Suc split: prod.splits)

lemma fillConstraint_eq:
  "fillConstraint meth numVars totalCols constraints signs i (T, B, curSlack, curArt) =
     (T[i + 1 := fillRow meth numVars totalCols constraints signs i curSlack curArt (T ! (i + 1))],
      (if fillBasic meth signs i curSlack curArt = - 1 then B
       else B[i := fillBasic meth signs i curSlack curArt]),
      curSlack + (if signAt signs i = ''<='' \<or> signAt signs i = ''>='' then 1 else 0),
      curArt + (if (signAt signs i = ''>='' \<or> signAt signs i = ''='') \<and> useArtificials meth
                then 1 else 0))"
  by (auto simp: fillConstraint_def fillRow_def fillBasic_def Let_def useArtificials_def)


lemma upd_mid: "length A = k \<Longrightarrow> (A @ replicate (Suc j) z)[k := x] = A @ x # replicate j z"
  by (simp add: list_update_append)

lemma nth_mid: "length A = k \<Longrightarrow> (A @ replicate (Suc j) z) ! k = z"
  by (simp add: nth_append)

lemma fill_fold:
  assumes "k \<le> m"
  shows "fold (fillConstraint meth n tc cons signs) [0..<k]
           (replicate (m + 1) Z, replicate m (- 1), n, n + slackBefore signs m)
     = (Z # map (\<lambda>i. fillRow meth n tc cons signs i (slackCol n signs i) (artCol meth n m signs i) Z) [0..<k]
            @ replicate (m - k) Z,
        map (\<lambda>i. fillBasic meth signs i (slackCol n signs i) (artCol meth n m signs i)) [0..<k]
            @ replicate (m - k) (- 1),
        slackCol n signs k, artCol meth n m signs k)"
  using assms
proof (induction k)
  case 0
  then show ?case by (simp add: slackCol_def artCol_def)
next
  case (Suc k)
  let ?A = "map (\<lambda>i. fillRow meth n tc cons signs i (slackCol n signs i) (artCol meth n m signs i) Z) [0..<k]"
  let ?G = "map (\<lambda>i. fillBasic meth signs i (slackCol n signs i) (artCol meth n m signs i)) [0..<k]"
  from Suc.prems have km: "m - k = Suc (m - Suc k)" by simp
  have lenA: "length ?A = k" and lenG: "length ?G = k" by simp_all
  have ih: "fold (fillConstraint meth n tc cons signs) [0..<k]
           (replicate (m + 1) Z, replicate m (- 1), n, n + slackBefore signs m)
     = (Z # ?A @ replicate (Suc (m - Suc k)) Z, ?G @ replicate (Suc (m - Suc k)) (- 1),
        slackCol n signs k, artCol meth n m signs k)"
    using Suc.IH Suc.prems by (simp add: km)
  have row: "(Z # ?A @ replicate (Suc (m - Suc k)) Z) ! (k + 1) = Z"
    using nth_mid[OF lenA] by simp
  have updT: "(Z # ?A @ replicate (Suc (m - Suc k)) Z)[k + 1 := x]
                = Z # ?A @ x # replicate (m - Suc k) Z" for x
    using upd_mid[OF lenA] by simp
  have updB: "(?G @ replicate (Suc (m - Suc k)) (- 1))[k := x] = ?G @ x # replicate (m - Suc k) (- 1)" for x
    using upd_mid[OF lenG] by simp
  have keepB: "?G @ replicate (Suc (m - Suc k)) (- 1) = ?G @ (- 1) # replicate (m - Suc k) (- 1)"
    by simp
  have sc: "slackCol n signs k + (if signAt signs k = ''<='' \<or> signAt signs k = ''>='' then 1 else 0)
              = slackCol n signs (Suc k)"
    by (simp add: slackCol_def slackBefore_Suc)
  have ac: "artCol meth n m signs k
              + (if (signAt signs k = ''>='' \<or> signAt signs k = ''='') \<and> useArtificials meth then 1 else 0)
              = artCol meth n m signs (Suc k)"
    by (simp add: artCol_def artBefore_Suc)
  have "fold (fillConstraint meth n tc cons signs) [0..<Suc k]
           (replicate (m + 1) Z, replicate m (- 1), n, n + slackBefore signs m)
        = fillConstraint meth n tc cons signs k
            (Z # ?A @ replicate (Suc (m - Suc k)) Z, ?G @ replicate (Suc (m - Suc k)) (- 1),
             slackCol n signs k, artCol meth n m signs k)"
    using ih by simp
  also have "\<dots> = (Z # ?A @ fillRow meth n tc cons signs k (slackCol n signs k) (artCol meth n m signs k) Z
                          # replicate (m - Suc k) Z,
                    ?G @ fillBasic meth signs k (slackCol n signs k) (artCol meth n m signs k)
                          # replicate (m - Suc k) (- 1),
                    slackCol n signs (Suc k), artCol meth n m signs (Suc k))"
    unfolding fillConstraint_eq row updT updB sc ac
    by (cases "fillBasic meth signs k (slackCol n signs k) (artCol meth n m signs k) = - 1")
       simp_all
  finally show ?case by simp
qed

lemma fill_coeffs_length [simp]:
  "length (fold (\<lambda>j r. r[j := f j]) [0..<n] Z) = length Z"
  using fold_upd_length[where g = "\<lambda>j r. f j" and a = 0] by simp

lemma fill_coeffs_nth:
  "fold (\<lambda>j r. r[j := f j]) [0..<n] Z ! j = (if j < n \<and> j < length Z then f j else Z ! j)"
  using fold_upd_nth[where g = "\<lambda>j x. f j"] by simp

lemma negate_length [simp]:
  "length (fold (\<lambda>j r. r[j := r ! j * (- 1)]) [0..<tc] (row :: rat list)) = length row"
  using fold_upd_length[where g = "\<lambda>j r. r ! j * (- 1)" and a = 0] by simp

lemma negate_nth:
  "fold (\<lambda>j r. r[j := r ! j * (- 1)]) [0..<tc] (row :: rat list) ! j
     = (if j < tc \<and> j < length row then - (row ! j) else row ! j)"
  using fold_upd_nth[where g = "\<lambda>j x. x * (- 1)" and row = row] by simp

lemma negate_nth':
  "fold (\<lambda>j r. r[j := - r ! j]) [0..<tc] (row :: rat list) ! j
     = (if j < tc \<and> j < length row then - (row ! j) else row ! j)"
  using fold_upd_nth[where g = "\<lambda>j x. - x" and row = row] by simp

lemma fillRow_length [simp]:
  "length (fillRow meth n tc cons signs i cs ca Z) = length Z"
  by (simp add: fillRow_def Let_def)

lemma fillRow_zero:
  assumes "j < tc" "n \<le> j" "j \<noteq> tc - 1"
    "signAt signs i = ''<='' \<or> signAt signs i = ''>='' \<longrightarrow> j \<noteq> cs"
    "(signAt signs i = ''>='' \<or> signAt signs i = ''='') \<and> useArtificials meth \<longrightarrow> j \<noteq> ca"
  shows "fillRow meth n tc cons signs i cs ca (replicate tc 0) ! j = 0"
  using assms
  by (auto simp: fillRow_def Let_def nth_list_update fill_coeffs_nth negate_nth' useArtificials_def)

lemma fillRow_slack_one:
  assumes "cs < tc" "signAt signs i = ''<='' \<or> (meth = Standard \<and> signAt signs i = ''>='')"
  shows "fillRow meth n tc cons signs i cs ca (replicate tc 0) ! cs = 1"
  using assms by (auto simp: fillRow_def Let_def)

lemma fillRow_art_one:
  assumes "ca < tc" "signAt signs i = ''>='' \<or> signAt signs i = ''=''" "useArtificials meth"
  shows "fillRow meth n tc cons signs i cs ca (replicate tc 0) ! ca = 1"
  using assms by (auto simp: fillRow_def Let_def useArtificials_def)

lemma fillRow_std_ge:
  assumes "signAt signs i = ''>=''" "n \<le> cs" "cs < tc - 1"
  shows "\<forall>j<n. fillRow Standard n tc cons signs i cs ca (replicate tc 0) ! j = cons ! i ! j * (- 1)"
    and "fillRow Standard n tc cons signs i cs ca (replicate tc 0) ! (tc - 1) = cons ! i ! n * (- 1)"
  using assms
  by (auto simp: fillRow_def Let_def nth_list_update fill_coeffs_nth negate_nth')

lemma fillRow_le:
  assumes "signAt signs i = ''<=''" "n \<le> cs" "cs < tc - 1"
  shows "\<forall>j<n. fillRow meth n tc cons signs i cs ca (replicate tc 0) ! j = cons ! i ! j"
    and "fillRow meth n tc cons signs i cs ca (replicate tc 0) ! (tc - 1) = cons ! i ! n"
  using assms
  by (auto simp: fillRow_def Let_def nth_list_update fill_coeffs_nth)

lemma extTotalCols_eq:
  "extTotalCols meth n m signs
     = n + slackBefore signs m + (if useArtificials meth then snd (countVars m signs) else 0) + 1"
  using fst_countVars[of m signs] by (cases "countVars m signs") (simp add: extTotalCols_def)

lemma extInit_closed:
  "extInit meth n m c cons signs =
     (let tc = extTotalCols meth n m signs;
          B1 = map (filledBasic meth n m signs) [0..<m];
          T2 = initObjective meth n (slackBefore signs m) tc c (replicate tc 0)
                 # map (filledRow meth n m cons signs) [0..<m]
      in (if useArtificials meth then eliminateBasic (\<lambda>x. x \<noteq> 0) m tc B1 T2 else T2, B1, []))"
proof -
  obtain s a where cv: "countVars m signs = (s, a)" by (cases "countVars m signs")
  have s: "s = slackBefore signs m" using fst_countVars[of m signs] cv by simp
  let ?tc = "extTotalCols meth n m signs"
  have f: "fold (fillConstraint meth n ?tc cons signs) [0..<m]
             (replicate (Suc m) (replicate ?tc 0), replicate m (- 1), n, n + slackBefore signs m)
     = (replicate ?tc 0 # map (filledRow meth n m cons signs) [0..<m],
        map (filledBasic meth n m signs) [0..<m], slackCol n signs m, artCol meth n m signs m)"
    using fill_fold[of m m meth n ?tc cons signs "replicate ?tc 0"]
    by (simp add: filledRow_def filledBasic_def del: replicate_Suc)
  show ?thesis
    unfolding extInit_def cv s by (simp add: f Let_def del: replicate_Suc)
qed

lemma slackBefore_mono: "i \<le> k \<Longrightarrow> slackBefore signs i \<le> slackBefore signs k"
  by (induction k) (auto simp: slackBefore_Suc le_Suc_eq)

lemma slackBefore_strict:
  assumes "i < k" "signAt signs i = ''<='' \<or> signAt signs i = ''>=''"
  shows "slackBefore signs i < slackBefore signs k"
proof -
  have "slackBefore signs (Suc i) \<le> slackBefore signs k"
    using assms(1) by (intro slackBefore_mono) simp
  then show ?thesis using assms(2) by (simp add: slackBefore_Suc)
qed

lemma artBefore_mono: "i \<le> k \<Longrightarrow> artBefore signs i \<le> artBefore signs k"
  by (induction k) (auto simp: artBefore_Suc le_Suc_eq)

lemma artBefore_strict:
  assumes "i < k" "signAt signs i = ''>='' \<or> signAt signs i = ''=''"
  shows "artBefore signs i < artBefore signs k"
proof -
  have "artBefore signs (Suc i) \<le> artBefore signs k"
    using assms(1) by (intro artBefore_mono) simp
  then show ?thesis using assms(2) by (simp add: artBefore_Suc)
qed

lemma slackBefore_cong:
  assumes "\<And>j. j < k \<Longrightarrow> (signAt signs' j = ''<='' \<or> signAt signs' j = ''>='')
                          = (signAt signs j = ''<='' \<or> signAt signs j = ''>='')"
  shows "slackBefore signs' k = slackBefore signs k"
  using assms by (induction k) (simp_all add: slackBefore_Suc)

lemma std_ge_row:
  assumes i: "i < m" and ge: "signAt signs i = ''>=''"
  shows "slackCol n signs i < extTotalCols Standard n m signs - 1"
    and "n \<le> slackCol n signs i"
    and "filledBasic Standard n m signs i = int (slackCol n signs i)"
    and "filledRow Standard n m cons signs i ! slackCol n signs i = 1"
    and "\<forall>j<n. filledRow Standard n m cons signs i ! j = cons ! i ! j * (- 1)"
    and "filledRow Standard n m cons signs i ! (extTotalCols Standard n m signs - 1) = cons ! i ! n * (- 1)"
    and "\<forall>j. n \<le> j \<and> j < extTotalCols Standard n m signs - 1 \<and> j \<noteq> slackCol n signs i
            \<longrightarrow> filledRow Standard n m cons signs i ! j = 0"
proof -
  have tc: "extTotalCols Standard n m signs = n + slackBefore signs m + 1"
    by (simp add: extTotalCols_eq useArtificials_def)
  show c1: "slackCol n signs i < extTotalCols Standard n m signs - 1"
    using slackBefore_strict[of i m signs] i ge by (simp add: tc slackCol_def)
  show c2: "n \<le> slackCol n signs i" by (simp add: slackCol_def)
  show "filledBasic Standard n m signs i = int (slackCol n signs i)"
    using ge by (simp add: filledBasic_def fillBasic_def)
  show "filledRow Standard n m cons signs i ! slackCol n signs i = 1"
    unfolding filledRow_def using c1 ge by (intro fillRow_slack_one) auto
  show "\<forall>j<n. filledRow Standard n m cons signs i ! j = cons ! i ! j * (- 1)"
    unfolding filledRow_def using fillRow_std_ge(1)[OF ge c2 c1] by blast
  show "filledRow Standard n m cons signs i ! (extTotalCols Standard n m signs - 1) = cons ! i ! n * (- 1)"
    unfolding filledRow_def using fillRow_std_ge(2)[OF ge c2 c1] by blast
  show "\<forall>j. n \<le> j \<and> j < extTotalCols Standard n m signs - 1 \<and> j \<noteq> slackCol n signs i
            \<longrightarrow> filledRow Standard n m cons signs i ! j = 0"
    unfolding filledRow_def by (intro allI impI fillRow_zero) (auto simp: useArtificials_def)
qed

lemma extInit_Standard:
  "extInit Standard n m c cons signs =
     (initObjective Standard n (slackBefore signs m) (extTotalCols Standard n m signs) c
        (replicate (extTotalCols Standard n m signs) 0)
        # map (filledRow Standard n m cons signs) [0..<m],
      map (filledBasic Standard n m signs) [0..<m], [])"
  by (simp add: extInit_closed Let_def useArtificials_def)

lemma std_ge_as_le:
  assumes i: "i < m" and ge: "signAt signs i = ''>=''"
    and wf: "i < length cons" "n < length (cons ! i)"
  shows "extInit Standard n m c cons signs
           = extInit Standard n m c (cons[i := map (\<lambda>x. x * (- 1)) (cons ! i)]) (signs[i := ''<=''])"
proof -
  let ?signs' = "signs[i := ''<='']"
  let ?cons' = "cons[i := map (\<lambda>x. x * (- 1)) (cons ! i)]"
  have il: "i < length signs" using ge by (auto simp: signAt_def split: if_splits)
  have sg: "signAt ?signs' j = (if j = i then ''<='' else signAt signs j)" for j
    using il by (auto simp: signAt_def nth_list_update)
  have sb: "slackBefore ?signs' k = slackBefore signs k" for k
    by (rule slackBefore_cong) (use ge in \<open>auto simp: sg\<close>)
  have tc: "extTotalCols Standard n m ?signs' = extTotalCols Standard n m signs"
    by (simp add: extTotalCols_eq useArtificials_def sb)
  have sc: "slackCol n ?signs' k = slackCol n signs k" for k by (simp add: slackCol_def sb)
  have ac: "artCol Standard n m ?signs' k = artCol Standard n m signs k" for k
    by (simp add: artCol_def sb useArtificials_def)
  have fb: "filledBasic Standard n m ?signs' k = filledBasic Standard n m signs k" for k
    using ge by (auto simp: filledBasic_def fillBasic_def sc ac sg useArtificials_def)
  have fr: "filledRow Standard n m ?cons' ?signs' k = filledRow Standard n m cons signs k"
    if k: "k < m" for k
  proof (cases "k = i")
    case False
    then show ?thesis
      by (simp add: filledRow_def fillRow_def tc sc ac sg Let_def nth_list_update)
  next
    case True
    let ?tc = "extTotalCols Standard n m signs"
    let ?cs = "slackCol n signs i"
    note r = std_ge_row[OF i ge]
    have le: "signAt ?signs' i = ''<=''" by (simp add: sg)
    have c1: "?cs < ?tc - 1" and c2: "n \<le> ?cs" using r(1,2) by auto
    have l1: "\<forall>j<n. filledRow Standard n m ?cons' ?signs' i ! j = ?cons' ! i ! j"
      unfolding filledRow_def tc sc ac using fillRow_le(1)[OF le c2 c1] by blast
    have l2: "filledRow Standard n m ?cons' ?signs' i ! (?tc - 1) = ?cons' ! i ! n"
      unfolding filledRow_def tc sc ac using fillRow_le(2)[OF le c2 c1] by blast
    have l3: "filledRow Standard n m ?cons' ?signs' i ! ?cs = 1"
      unfolding filledRow_def tc sc ac using c1 le by (intro fillRow_slack_one) auto
    have l4: "\<forall>j. n \<le> j \<and> j < ?tc - 1 \<and> j \<noteq> ?cs
            \<longrightarrow> filledRow Standard n m ?cons' ?signs' i ! j = 0"
      unfolding filledRow_def tc sc ac
      by (intro allI impI fillRow_zero) (auto simp: useArtificials_def)
    have cj: "?cons' ! i ! j = cons ! i ! j * (- 1)" if "j \<le> n" for j
      using wf that by simp
    have "filledRow Standard n m ?cons' ?signs' i ! j = filledRow Standard n m cons signs i ! j"
      if j: "j < ?tc" for j
    proof -
      consider "j < n" | "j = ?tc - 1" | "j = ?cs" | "n \<le> j \<and> j < ?tc - 1 \<and> j \<noteq> ?cs"
        using j by linarith
      then show ?thesis
      proof cases
        case 1 then show ?thesis using l1 r(5) cj[of j] by simp
      next
        case 2 then show ?thesis using l2 r(6) cj[of n] by simp
      next
        case 3 then show ?thesis using l3 r(4) by simp
      next
        case 4 then show ?thesis using l4 r(7) by simp
      qed
    qed
    then show ?thesis unfolding True
      by (intro nth_equalityI) (simp_all add: filledRow_def tc)
  qed
  show ?thesis
    unfolding extInit_Standard tc sb using fb fr by simp
qed

subsection \<open>The initial tableaux are in canonical form\<close>

lemma canonical_iff:
  "canonical bound m totalCols T B \<longleftrightarrow>
     basisColumns m totalCols T B \<and> (\<forall>i<m. bound \<le> T ! 0 ! nat (B ! i))"
  by (auto simp: canonical_def basisColumns_def)

lemma eliminateBasic_Suc:
  "eliminateBasic nz (Suc k) totalCols B T =
     (let U = eliminateBasic nz k totalCols B T; coeff = cellAt (U ! 0) (B ! k)
      in if nz coeff then U[0 := subtractRow totalCols coeff (U ! (k + 1)) (U ! 0)] else U)"
  by (simp add: eliminateBasic_def Let_def)

lemma eliminateBasic_partial:
  assumes bc: "basisColumns m totalCols T B"
    and nz: "\<And>x. \<not> nz x \<Longrightarrow> bound \<le> x" and bound: "bound \<le> 0"
    and k: "k \<le> m"
  shows "length (eliminateBasic nz k totalCols B T) = m + 1 \<and>
         length (eliminateBasic nz k totalCols B T ! 0) = totalCols \<and>
         (\<forall>r. 1 \<le> r \<longrightarrow> eliminateBasic nz k totalCols B T ! r = T ! r) \<and>
         (\<forall>i<k. bound \<le> eliminateBasic nz k totalCols B T ! 0 ! nat (B ! i))"
  using k
proof (induction k)
  case 0
  then show ?case using bc
    by (auto simp: eliminateBasic_def basisColumns_def rectangular_def)
next
  case (Suc k)
  let ?U = "eliminateBasic nz k totalCols B T"
  from bc have lenB: "length B = m"
    and inB: "\<And>i. i < m \<Longrightarrow> 0 \<le> B ! i \<and> nat (B ! i) < totalCols - 1"
    and rows: "\<And>r. r \<le> m \<Longrightarrow> length (T ! r) = totalCols"
    and unit: "\<And>i r. i < m \<Longrightarrow> 1 \<le> r \<Longrightarrow> r \<le> m \<Longrightarrow>
                 T ! r ! nat (B ! i) = (if r = i + 1 then 1 else 0)"
    by (auto simp: basisColumns_def rectangular_def validBasis_def)
  from Suc have km: "k < m" and ih: "length ?U = m + 1" "length (?U ! 0) = totalCols"
    "\<And>r. 1 \<le> r \<Longrightarrow> ?U ! r = T ! r" "\<And>i. i < k \<Longrightarrow> bound \<le> ?U ! 0 ! nat (B ! i)"
    by auto
  let ?coeff = "?U ! 0 ! nat (B ! k)"
  have coeff: "cellAt (?U ! 0) (B ! k) = ?coeff" using inB[OF km] by (simp add: cellAt_def)
  have col: "nat (B ! i) < totalCols" if "i < m" for i using inB[OF that] by linarith
  show ?case
  proof (cases "nz ?coeff")
    case False
    then have e: "eliminateBasic nz (Suc k) totalCols B T = ?U"
      by (simp add: eliminateBasic_Suc Let_def coeff)
    have "bound \<le> ?U ! 0 ! nat (B ! i)" if "i < Suc k" for i
      using that ih(4)[of i] nz[OF False] by (cases "i = k") auto
    then show ?thesis unfolding e using ih by auto
  next
    case True
    let ?row = "subtractRow totalCols ?coeff (T ! (k + 1)) (?U ! 0)"
    have e: "eliminateBasic nz (Suc k) totalCols B T = ?U[0 := ?row]"
      using True ih(3)[of "k + 1"] by (simp add: eliminateBasic_Suc Let_def coeff)
    have r0: "?U[0 := ?row] ! 0 = ?row" using ih(1) by simp
    have entry: "?row ! j = ?U ! 0 ! j - ?coeff * T ! (k + 1) ! j" if "j < totalCols" for j
      using that ih(2) by (simp add: subtractRow_nth)
    have "bound \<le> ?row ! nat (B ! i)" if i: "i < Suc k" for i
    proof (cases "i = k")
      case True
      have "T ! (k + 1) ! nat (B ! k) = 1" using unit[OF km, of "k + 1"] km by simp
      then have "?row ! nat (B ! k) = 0" using entry[OF col[OF km]] by simp
      then show ?thesis using bound True by simp
    next
      case False
      then have ik: "i < k" using i by simp
      then have im: "i < m" using km by simp
      have "T ! (k + 1) ! nat (B ! i) = 0" using unit[OF im, of "k + 1"] km False by simp
      then have "?row ! nat (B ! i) = ?U ! 0 ! nat (B ! i)" using entry[OF col[OF im]] by simp
      then show ?thesis using ih(4)[OF ik] by simp
    qed
    moreover have "length (?U[0 := ?row]) = m + 1" using ih(1) by simp
    moreover have "length ?row = totalCols" using ih(2) by simp
    moreover have "\<forall>r. 1 \<le> r \<longrightarrow> ?U[0 := ?row] ! r = T ! r" using ih(3) by simp
    ultimately show ?thesis unfolding e r0 by blast
  qed
qed

lemma eliminateBasic_canonical:
  assumes bc: "basisColumns m totalCols T B"
    and nz: "\<And>x. \<not> nz x \<Longrightarrow> bound \<le> x" and bound: "bound \<le> 0"
  shows "canonical bound m totalCols (eliminateBasic nz m totalCols B T) B"
proof -
  note p = eliminateBasic_partial[OF bc nz bound le_refl]
  let ?E = "eliminateBasic nz m totalCols B T"
  have rect: "rectangular m totalCols ?E"
    unfolding rectangular_def
  proof (intro conjI allI impI)
    show "length ?E = m + 1" using p by blast
    fix r assume "r \<le> m"
    show "length (?E ! r) = totalCols"
    proof (cases "r = 0")
      case True then show ?thesis using p by simp
    next
      case False
      then have "?E ! r = T ! r" using p by simp
      then show ?thesis using bc \<open>r \<le> m\<close> by (simp add: basisColumns_def rectangular_def)
    qed
  qed
  have "basisColumns m totalCols ?E B"
    unfolding basisColumns_def using rect bc p by (auto simp: basisColumns_def)
  then show ?thesis unfolding canonical_iff using p by blast
qed

lemma objRow_length [simp]: "length (objRow n totalCols c) = totalCols"
  by (simp add: objRow_def)

lemma objRow_nth: "j < totalCols \<Longrightarrow> objRow n totalCols c ! j = (if j < n then - (c ! j) else 0)"
  by (simp add: objRow_def fill_coeffs_nth del: replicate_Suc)

lemma constraintRow_length [simp]: "length (constraintRow n totalCols cons i) = totalCols"
  by (simp add: constraintRow_def)

lemma constraintRow_slack:
  assumes "k < m"
  shows "constraintRow n (n + m + 1) cons i ! (n + k) = (if k = i then 1 else 0)"
  using assms by (simp add: constraintRow_def nth_list_update fill_coeffs_nth del: replicate_Suc)

lemma simpleInit_canonical:
  "canonical 0 m (n + m + 1) (fst (simpleInit n m c cons)) (fst (snd (simpleInit n m c cons)))"
proof -
  let ?tc = "n + m + 1"
  let ?T = "objRow n ?tc c # map (constraintRow n ?tc cons) [0..<m]"
  let ?B = "map (\<lambda>i. int (n + i)) [0..<m]"
  have T: "fst (simpleInit n m c cons) = ?T" and B: "fst (snd (simpleInit n m c cons)) = ?B"
    by (simp_all add: simpleInit_def Let_def)
  have rect: "rectangular m ?tc ?T"
    unfolding rectangular_def
  proof (intro conjI allI impI)
    show "length ?T = m + 1" by simp
    fix r assume "r \<le> m"
    then show "length (?T ! r) = ?tc" by (cases r) simp_all
  qed
  have "inj_on (\<lambda>i. int (n + i)) (set [0..<m])" by (simp add: inj_on_def)
  then have "distinct ?B" by (simp add: distinct_map)
  then have vb: "validBasis m ?tc ?B" by (simp add: validBasis_def nat_int_add)
  have unit: "\<forall>i<m. \<forall>r. 1 \<le> r \<and> r \<le> m \<longrightarrow> ?T ! r ! nat (?B ! i) = (if r = i + 1 then 1 else 0)"
  proof (intro allI impI)
    fix i r assume i: "i < m" and r: "1 \<le> r \<and> r \<le> m"
    then obtain r' where r': "r = Suc r'" "r' < m" by (cases r) auto
    have "?T ! r ! nat (?B ! i) = constraintRow n ?tc cons r' ! (n + i)"
      using i r' by (simp add: nat_int_add)
    also have "\<dots> = (if i = r' then 1 else 0)" using constraintRow_slack[OF i] .
    finally show "?T ! r ! nat (?B ! i) = (if r = i + 1 then 1 else 0)"
      using r' by auto
  qed
  have row0: "\<forall>i<m. 0 \<le> ?T ! 0 ! nat (?B ! i)"
    by (simp add: objRow_nth nat_int_add)
  show ?thesis unfolding T B canonical_def using rect vb unit row0 by blast
qed

lemma initObjective_length [simp]:
  "length (initObjective meth n s totalCols c row) = length row"
  by (simp add: initObjective_def)

lemma filledRow_length [simp]:
  "length (filledRow meth n m cons signs i) = extTotalCols meth n m signs"
  by (simp add: filledRow_def)

lemma not_Standard_useArtificials: "meth \<noteq> Standard \<Longrightarrow> useArtificials meth"
  by (cases meth) (simp_all add: useArtificials_def)

lemma slackCol_bounds:
  assumes "i < m" "signAt signs i = ''<='' \<or> signAt signs i = ''>=''"
  shows "n \<le> slackCol n signs i" "slackCol n signs i < n + slackBefore signs m"
    "slackCol n signs i < extTotalCols meth n m signs - 1"
  using slackBefore_strict[OF assms] by (simp_all add: slackCol_def extTotalCols_eq)

lemma artCol_bounds:
  assumes "i < m" "signAt signs i = ''>='' \<or> signAt signs i = ''=''" "useArtificials meth"
  shows "n + slackBefore signs m \<le> artCol meth n m signs i"
    "artCol meth n m signs i < extTotalCols meth n m signs - 1"
  using artBefore_strict[OF assms(1,2)] snd_countVars_ge[of signs m] assms(3)
  by (simp_all add: artCol_def extTotalCols_eq)

lemma slackCol_inj:
  assumes "i < m" "r < m" "r \<noteq> i"
    "signAt signs i = ''<='' \<or> signAt signs i = ''>=''"
    "signAt signs r = ''<='' \<or> signAt signs r = ''>=''"
  shows "slackCol n signs i \<noteq> slackCol n signs r"
proof (cases "i < r")
  case True
  then show ?thesis using slackBefore_strict[OF True assms(4)] by (simp add: slackCol_def)
next
  case False
  then have ri: "r < i" using assms(3) by simp
  show ?thesis using slackBefore_strict[OF ri assms(5)] by (simp add: slackCol_def)
qed

lemma artCol_inj:
  assumes "i < m" "r < m" "r \<noteq> i" "useArtificials meth"
    "signAt signs i = ''>='' \<or> signAt signs i = ''=''"
    "signAt signs r = ''>='' \<or> signAt signs r = ''=''"
  shows "artCol meth n m signs i \<noteq> artCol meth n m signs r"
proof (cases "i < r")
  case True
  then show ?thesis using artBefore_strict[OF True assms(5)] assms(4) by (simp add: artCol_def)
next
  case False
  then have ri: "r < i" using assms(3) by simp
  show ?thesis using artBefore_strict[OF ri assms(6)] assms(4) by (simp add: artCol_def)
qed

lemma ext_basic_cols:
  assumes ok: "signsOk meth m signs" and i: "i < m"
  shows "0 \<le> filledBasic meth n m signs i"
    and "n \<le> nat (filledBasic meth n m signs i)"
    and "nat (filledBasic meth n m signs i) < extTotalCols meth n m signs - 1"
    and "filledRow meth n m cons signs i ! nat (filledBasic meth n m signs i) = 1"
    and "\<forall>r<m. r \<noteq> i \<longrightarrow> filledRow meth n m cons signs r ! nat (filledBasic meth n m signs i) = 0"
proof -
  let ?tc = "extTotalCols meth n m signs"
  have sgn: "signAt signs k = ''<='' \<or> signAt signs k = ''>='' \<or>
             (signAt signs k = ''='' \<and> useArtificials meth)" if "k < m" for k
    using ok that by (simp add: signsOk_def)
  have other: "filledRow meth n m cons signs r ! b = 0"
    if r: "r < m" and b: "n \<le> b" "b < ?tc - 1"
      and s: "signAt signs r = ''<='' \<or> signAt signs r = ''>='' \<Longrightarrow> b \<noteq> slackCol n signs r"
      and a: "(signAt signs r = ''>='' \<or> signAt signs r = ''='') \<and> useArtificials meth
                \<Longrightarrow> b \<noteq> artCol meth n m signs r" for r b
    unfolding filledRow_def using b s a by (intro fillRow_zero) auto
  consider (slack) "signAt signs i = ''<='' \<or> (meth = Standard \<and> signAt signs i = ''>='')"
    | (art) "(signAt signs i = ''>='' \<or> signAt signs i = ''='') \<and> useArtificials meth
             \<and> signAt signs i \<noteq> ''<=''"
    using sgn[OF i] not_Standard_useArtificials[of meth] by auto
  then have "0 \<le> filledBasic meth n m signs i \<and>
    n \<le> nat (filledBasic meth n m signs i) \<and>
    nat (filledBasic meth n m signs i) < ?tc - 1 \<and>
    filledRow meth n m cons signs i ! nat (filledBasic meth n m signs i) = 1 \<and>
    (\<forall>r<m. r \<noteq> i \<longrightarrow> filledRow meth n m cons signs r ! nat (filledBasic meth n m signs i) = 0)"
  proof cases
    case slack
    then have ss: "signAt signs i = ''<='' \<or> signAt signs i = ''>=''" by auto
    have fb: "filledBasic meth n m signs i = int (slackCol n signs i)"
      using slack by (auto simp: filledBasic_def fillBasic_def)
    have sb: "n \<le> slackCol n signs i" "slackCol n signs i < n + slackBefore signs m"
      "slackCol n signs i < ?tc - 1"
      using slackCol_bounds[OF i ss] by blast+
    have sb': "slackCol n signs i < ?tc" using sb(3) by linarith
    have one: "filledRow meth n m cons signs i ! slackCol n signs i = 1"
      unfolding filledRow_def using sb' slack by (intro fillRow_slack_one) auto
    have zero: "filledRow meth n m cons signs r ! slackCol n signs i = 0" if r: "r < m" "r \<noteq> i" for r
    proof (rule other[OF r(1) sb(1) sb(3)])
      assume "signAt signs r = ''<='' \<or> signAt signs r = ''>=''"
      then show "slackCol n signs i \<noteq> slackCol n signs r"
        using slackCol_inj[OF i r ss] by simp
    next
      assume "(signAt signs r = ''>='' \<or> signAt signs r = ''='') \<and> useArtificials meth"
      then have a1: "signAt signs r = ''>='' \<or> signAt signs r = ''=''" and a2: "useArtificials meth"
        by auto
      have "n + slackBefore signs m \<le> artCol meth n m signs r"
        by (rule artCol_bounds(1)[OF r(1) a1 a2])
      moreover have "slackCol n signs i < n + slackBefore signs m" by (rule sb(2))
      ultimately show "slackCol n signs i \<noteq> artCol meth n m signs r" by simp
    qed
    show ?thesis unfolding fb using sb one zero by simp
  next
    case art
    then have as: "signAt signs i = ''>='' \<or> signAt signs i = ''=''" and ua: "useArtificials meth"
      by auto
    have ns: "meth \<noteq> Standard" using ua by (auto simp: useArtificials_def)
    have fb: "filledBasic meth n m signs i = int (artCol meth n m signs i)"
      using art ns by (auto simp: filledBasic_def fillBasic_def)
    have ab: "n + slackBefore signs m \<le> artCol meth n m signs i"
      "artCol meth n m signs i < ?tc - 1"
      using artCol_bounds[OF i as ua] by blast+
    have ab': "artCol meth n m signs i < ?tc" using ab(2) by linarith
    have one: "filledRow meth n m cons signs i ! artCol meth n m signs i = 1"
      unfolding filledRow_def using ab' as ua by (intro fillRow_art_one) auto
    have nle: "n \<le> artCol meth n m signs i" using ab(1) by simp
    have zero: "filledRow meth n m cons signs r ! artCol meth n m signs i = 0" if r: "r < m" "r \<noteq> i" for r
    proof (rule other[OF r(1) nle ab(2)])
      assume s: "signAt signs r = ''<='' \<or> signAt signs r = ''>=''"
      have "slackCol n signs r < n + slackBefore signs m"
        by (rule slackCol_bounds(2)[OF r(1) s])
      moreover have "n + slackBefore signs m \<le> artCol meth n m signs i" by (rule ab(1))
      ultimately show "artCol meth n m signs i \<noteq> slackCol n signs r" by simp
    next
      assume "(signAt signs r = ''>='' \<or> signAt signs r = ''='') \<and> useArtificials meth"
      then show "artCol meth n m signs i \<noteq> artCol meth n m signs r"
        using artCol_inj[OF i r ua as] by simp
    qed
    show ?thesis unfolding fb using nle ab one zero by simp
  qed
  then show "0 \<le> filledBasic meth n m signs i"
    and "n \<le> nat (filledBasic meth n m signs i)"
    and "nat (filledBasic meth n m signs i) < extTotalCols meth n m signs - 1"
    and "filledRow meth n m cons signs i ! nat (filledBasic meth n m signs i) = 1"
    and "\<forall>r<m. r \<noteq> i \<longrightarrow> filledRow meth n m cons signs r ! nat (filledBasic meth n m signs i) = 0"
    by blast+
qed

lemma extInit_basisColumns:
  assumes ok: "signsOk meth m signs" and obj: "length obj = extTotalCols meth n m signs"
  shows "basisColumns m (extTotalCols meth n m signs)
           (obj # map (filledRow meth n m cons signs) [0..<m])
           (map (filledBasic meth n m signs) [0..<m])"
proof -
  let ?tc = "extTotalCols meth n m signs"
  let ?T = "obj # map (filledRow meth n m cons signs) [0..<m]"
  let ?B = "map (filledBasic meth n m signs) [0..<m]"
  note c = ext_basic_cols[OF ok]
  have rect: "rectangular m ?tc ?T"
    unfolding rectangular_def
  proof (intro conjI allI impI)
    show "length ?T = m + 1" by simp
    fix r assume "r \<le> m"
    then show "length (?T ! r) = ?tc" using obj by (cases r) simp_all
  qed
  have ne: "filledBasic meth n m signs i \<noteq> filledBasic meth n m signs j"
    if "i < m" "j < m" "i \<noteq> j" for i j
  proof
    assume e: "filledBasic meth n m signs i = filledBasic meth n m signs j"
    have "filledRow meth n m cons signs j ! nat (filledBasic meth n m signs j) = 1"
      using c(4)[OF that(2)] .
    moreover have "filledRow meth n m cons signs j ! nat (filledBasic meth n m signs i) = 0"
      using c(5)[OF that(1)] that by simp
    ultimately show False using e by simp
  qed
  have "distinct ?B"
    unfolding distinct_conv_nth using ne by simp
  then have vb: "validBasis m ?tc ?B"
    unfolding validBasis_def using c(1,3) by simp
  have unit: "\<forall>i<m. \<forall>r. 1 \<le> r \<and> r \<le> m \<longrightarrow> ?T ! r ! nat (?B ! i) = (if r = i + 1 then 1 else 0)"
  proof (intro allI impI)
    fix i r assume i: "i < m" and r: "1 \<le> r \<and> r \<le> m"
    then obtain r' where r': "r = Suc r'" "r' < m" by (cases r) auto
    have "?T ! r ! nat (?B ! i) = filledRow meth n m cons signs r' ! nat (filledBasic meth n m signs i)"
      using i r' by simp
    also have "\<dots> = (if r' = i then 1 else 0)"
      using c(4)[OF i] c(5)[OF i] r'(2) by auto
    finally show "?T ! r ! nat (?B ! i) = (if r = i + 1 then 1 else 0)"
      using r' by auto
  qed
  show ?thesis unfolding basisColumns_def using rect vb unit by blast
qed

lemma extInit_canonical:
  assumes ok: "signsOk meth m signs"
  shows "canonical (- (1 / 1000000000)) m (extTotalCols meth n m signs)
           (fst (extInit meth n m c cons signs)) (fst (snd (extInit meth n m c cons signs)))"
proof -
  let ?tc = "extTotalCols meth n m signs"
  let ?obj = "initObjective meth n (slackBefore signs m) ?tc c (replicate ?tc 0)"
  let ?T = "?obj # map (filledRow meth n m cons signs) [0..<m]"
  let ?B = "map (filledBasic meth n m signs) [0..<m]"
  have bc: "basisColumns m ?tc ?T ?B"
    by (rule extInit_basisColumns[OF ok]) simp
  show ?thesis
  proof (cases "useArtificials meth")
    case True
    have "canonical (- (1 / 1000000000)) m ?tc (eliminateBasic (\<lambda>x. x \<noteq> 0) m ?tc ?B ?T) ?B"
      by (rule eliminateBasic_canonical[OF bc]) simp_all
    then show ?thesis using True by (simp add: extInit_closed Let_def)
  next
    case False
    then have std: "meth = Standard" using not_Standard_useArtificials by blast
    have "\<forall>i<m. - (1 / 1000000000) \<le> ?T ! 0 ! nat (?B ! i)"
    proof (intro allI impI)
      fix i assume i: "i < m"
      note c = ext_basic_cols[OF ok i, of n]
      have "nat (filledBasic meth n m signs i) < ?tc" using c(3) by linarith
      then have "?obj ! nat (filledBasic meth n m signs i) = 0"
        using c(2) by (simp add: std initObjective_def fill_coeffs_nth)
      then show "- (1 / 1000000000) \<le> ?T ! 0 ! nat (?B ! i)" using i by simp
    qed
    then have "canonical (- (1 / 1000000000)) m ?tc ?T ?B"
      unfolding canonical_iff using bc by blast
    then show ?thesis using False by (simp add: extInit_closed Let_def)
  qed
qed

lemma preparePhase2_canonical:
  assumes "canonical bound m totalCols T B"
  shows "canonical (- (1 / 1000000000)) m totalCols
           (fst (preparePhase2 n m totalCols c (T, B, S))) B"
    and "snd (preparePhase2 n m totalCols c (T, B, S)) = (B, S)"
proof -
  let ?row = "fold (\<lambda>j r. r[j := - (c ! j)]) [0..<n] (fold (\<lambda>j r. r[j := 0]) [0..<totalCols] (T ! 0))"
  from assms have bc: "basisColumns m totalCols T B" by (simp add: canonical_iff)
  have len: "length ?row = totalCols"
    using bc by (simp add: basisColumns_def rectangular_def)
  have bc': "basisColumns m totalCols (T[0 := ?row]) B"
    unfolding basisColumns_def rectangular_def
  proof (intro conjI allI impI)
    show "length (T[0 := ?row]) = m + 1" using bc by (simp add: basisColumns_def rectangular_def)
    show "validBasis m totalCols B" using bc by (simp add: basisColumns_def)
  next
    fix r assume "r \<le> m"
    then show "length (T[0 := ?row] ! r) = totalCols"
      using bc len by (cases r) (auto simp: basisColumns_def rectangular_def)
  next
    fix i r assume "i < m" "1 \<le> r \<and> r \<le> m"
    then show "T[0 := ?row] ! r ! nat (B ! i) = (if r = i + 1 then 1 else 0)"
      using bc by (auto simp: basisColumns_def)
  qed
  have "canonical (- (1 / 1000000000)) m totalCols
          (eliminateBasic (\<lambda>coeff. \<bar>coeff\<bar> > 1 / 1000000000) m totalCols B (T[0 := ?row])) B"
    by (rule eliminateBasic_canonical[OF bc']) auto
  then show "canonical (- (1 / 1000000000)) m totalCols
           (fst (preparePhase2 n m totalCols c (T, B, S))) B"
    by (simp add: preparePhase2_def)
  show "snd (preparePhase2 n m totalCols c (T, B, S)) = (B, S)"
    by (simp add: preparePhase2_def)
qed

subsection \<open>The basis stays valid\<close>

lemma canonical_validBasis: "canonical bound m totalCols T B \<Longrightarrow> validBasis m totalCols B"
  by (simp add: canonical_def)

lemma simple_basis_valid:
  "validBasis m (n + m + 1) (fst (snd (simpleInit n m (negateForMin ty c) cons))) \<and>
   (\<forall>s\<in>set (steps (solveSimplex quot ty n m c cons)). validBasis m (n + m + 1) (basicVars s)) \<and>
   validBasis m (n + m + 1) (finalBasicVars (solveSimplex quot ty n m c cons))"
proof -
  let ?tc = "n + m + 1"
  let ?I = "\<lambda>st. case st of (T, B, S) \<Rightarrow>
              canonical 0 m ?tc T B \<and> (\<forall>s\<in>set (S :: SimplexStep list). validBasis m ?tc (basicVars s))"
  obtain T0 B0 where i: "simpleInit n m (negateForMin ty c) cons = (T0, B0, [])"
    by (simp add: simpleInit_def Let_def)
  have c0: "canonical 0 m ?tc T0 B0"
    using simpleInit_canonical[where m = m and n = n and c = "negateForMin ty c" and cons = cons] by (simp add: i)
  have inv: "case simpleLoop quot m ?tc (simpleNames n m) 0 (T0, B0, []) of
          Inl st \<Rightarrow> ?I st | Inr st \<Rightarrow> ?I st"
  proof (rule simpleLoop_invariant)
    show "?I (T0, B0, [])" using c0 by simp
  next
    fix T B S pc pr
    assume a: "?I (T, B, S)" "findPivotCol 0 T ?tc = Some pc" "ratioTest quot 0 T m ?tc pc = Some pr"
    then have c: "canonical 0 m ?tc T B" by simp
    have "canonical 0 m ?tc (pivotOp (m + 1) ?tc pr pc T) (B[pr - 1 := int pc])"
      by (rule canonical_pivot[OF c a(2,3)]) simp_all
    then show "?I (pivotOp (m + 1) ?tc pr pc T, B[pr - 1 := int pc],
                   S @ [simpleStep (simpleNames n m) T B pr pc])"
      using a(1) canonical_validBasis[OF c] by (simp add: simpleStep_def)
  qed
  have "validBasis m ?tc (fst (snd (simpleInit n m (negateForMin ty c) cons)))"
    using canonical_validBasis[OF c0] by (simp add: i)
  moreover have "(\<forall>s\<in>set (steps (solveSimplex quot ty n m c cons)). validBasis m ?tc (basicVars s)) \<and>
     validBasis m ?tc (finalBasicVars (solveSimplex quot ty n m c cons))"
    using inv
    by (auto simp: solveSimplex_def Let_def i stoppedResult_def optimalResult_def
          split: sum.splits dest: canonical_validBasis)
  ultimately show ?thesis by blast
qed

lemma ext_loop_canonical:
  assumes "canonical (- (1 / 1000000000)) m totalCols T B"
    and "\<forall>s\<in>set S. validBasis m totalCols (basicVars s)"
    and "runSimplexLoop quot m totalCols iterStart (T, B, S) = (k, T', B', S')"
  shows "canonical (- (1 / 1000000000)) m totalCols T' B' \<and>
         (\<forall>s\<in>set S'. validBasis m totalCols (basicVars s))"
proof -
  let ?I = "\<lambda>st. case st of (T, B, S) \<Rightarrow>
              canonical (- (1 / 1000000000)) m totalCols T B \<and>
              (\<forall>s\<in>set (S :: SimplexStep list). validBasis m totalCols (basicVars s))"
  have "?I (snd (runSimplexLoopFrom quot m totalCols iterStart 0 (T, B, S)))"
  proof (rule runSimplexLoopFrom_invariant)
    show "?I (T, B, S)" using assms(1,2) by simp
  next
    fix T B S pc pr it
    assume a: "?I (T, B, S)" "findPivotCol (- (1 / 1000000000)) T totalCols = Some pc"
      "ratioTest quot (1 / 1000000000) T m totalCols pc = Some pr"
    then have c: "canonical (- (1 / 1000000000)) m totalCols T B" by simp
    have c': "canonical (- (1 / 1000000000)) m totalCols
            (pivotOp (m + 1) totalCols pr pc T) (B[pr - 1 := int pc])"
      by (rule canonical_pivot[OF c a(2,3)]) simp_all
    then show "?I (pivotOp (m + 1) totalCols pr pc T, B[pr - 1 := int pc],
                   S @ [extStep iterStart it T (B[pr - 1 := int pc]) pr pc])"
      using a(1) canonical_validBasis[OF c'] by (simp add: extStep_def)
  qed
  then show ?thesis using assms(3) by (simp add: runSimplexLoop_def)
qed

lemma ext_basis_valid:
  assumes ok: "signsOk meth m signs"
  shows "validBasis m (extTotalCols meth n m signs)
           (fst (snd (extInit meth n m (negateForMin ty c) cons signs))) \<and>
         (\<forall>s\<in>set (steps (solveSimplex_ext quot ty n m c cons signs meth)).
            validBasis m (extTotalCols meth n m signs) (basicVars s)) \<and>
         validBasis m (extTotalCols meth n m signs)
           (finalBasicVars (solveSimplex_ext quot ty n m c cons signs meth))"
proof -
  let ?tc = "extTotalCols meth n m signs"
  let ?c = "negateForMin ty c"
  obtain T0 B0 where i: "extInit meth n m ?c cons signs = (T0, B0, [])"
    by (simp add: extInit_closed Let_def)
  have c0: "canonical (- (1 / 1000000000)) m ?tc T0 B0"
    using extInit_canonical[OF ok, where n = n and c = ?c and cons = cons] by (simp add: i)
  obtain k1 T1 B1 S1 where r1: "runSimplexLoop quot m ?tc 0 (T0, B0, []) = (k1, T1, B1, S1)"
    by (metis prod_cases4)
  have p1: "canonical (- (1 / 1000000000)) m ?tc T1 B1 \<and>
            (\<forall>s\<in>set S1. validBasis m ?tc (basicVars s))"
    by (rule ext_loop_canonical[OF c0 _ r1]) simp
  obtain T1' where pp: "preparePhase2 n m ?tc ?c (T1, B1, S1) = (T1', B1, S1)"
    using preparePhase2_canonical(2)[OF conjunct1[OF p1], where n = n and c = ?c and S = S1]
    by (cases "preparePhase2 n m ?tc ?c (T1, B1, S1)") auto
  have c1': "canonical (- (1 / 1000000000)) m ?tc T1' B1"
    using preparePhase2_canonical(1)[OF conjunct1[OF p1], where n = n and c = ?c and S = S1] pp by simp
  obtain k2 T2 B2 S2 where r2: "runSimplexLoop quot m ?tc k1 (T1', B1, S1) = (k2, T2, B2, S2)"
    by (metis prod_cases4)
  have p2: "canonical (- (1 / 1000000000)) m ?tc T2 B2 \<and>
            (\<forall>s\<in>set S2. validBasis m ?tc (basicVars s))"
    using ext_loop_canonical[OF c1' _ r2] p1 by blast
  have v0: "validBasis m ?tc (fst (snd (extInit meth n m ?c cons signs)))"
    using canonical_validBasis[OF c0] by (simp add: i)
  have v1: "validBasis m ?tc B1" and v2: "validBasis m ?tc B2"
    using p1 p2 canonical_validBasis by blast+
  have "(\<forall>s\<in>set (steps (solveSimplex_ext quot ty n m c cons signs meth)).
            validBasis m ?tc (basicVars s)) \<and>
         validBasis m ?tc (finalBasicVars (solveSimplex_ext quot ty n m c cons signs meth))"
    using p1 p2 v1 v2 i r1 r2 pp
    by (cases "meth = TwoPhase")
       (auto simp: solveSimplex_ext_def Let_def stoppedResult_def optimalResult_def)
  then show ?thesis using v0 by blast
qed


subsection \<open>The basis recorded in the steps\<close>












subsection \<open>The preparation of phase 2\<close>

lemma eliminateBasic_rows:
  "length (eliminateBasic nz k totalCols B T) = length T \<and>
   (\<forall>r. 1 \<le> r \<longrightarrow> eliminateBasic nz k totalCols B T ! r = T ! r)"
proof (induction k)
  case 0
  then show ?case by (simp add: eliminateBasic_def)
next
  case (Suc k)
  then show ?case by (auto simp: eliminateBasic_Suc Let_def)
qed

lemma eliminateBasic_row0:
  assumes bc: "basisColumns m totalCols T B" and k: "k \<le> m"
  shows "length (eliminateBasic nz k totalCols B T ! 0) = totalCols \<and>
         (\<forall>j<totalCols. eliminateBasic nz k totalCols B T ! 0 ! j =
            T ! 0 ! j - (\<Sum>i\<leftarrow>[0..<k]. if nz (T ! 0 ! nat (B ! i))
                                      then T ! 0 ! nat (B ! i) * T ! (i + 1) ! j else 0))"
  using k
proof (induction k)
  case 0
  then show ?case using bc
    by (auto simp: eliminateBasic_def basisColumns_def rectangular_def)
next
  case (Suc k)
  let ?U = "eliminateBasic nz k totalCols B T"
  let ?a = "\<lambda>i. T ! 0 ! nat (B ! i)"
  let ?f = "\<lambda>j i. if nz (?a i) then ?a i * T ! (i + 1) ! j else 0"
  from bc have inB: "\<And>i. i < m \<Longrightarrow> 0 \<le> B ! i \<and> nat (B ! i) < totalCols - 1"
    and unit: "\<And>i r. i < m \<Longrightarrow> 1 \<le> r \<Longrightarrow> r \<le> m \<Longrightarrow>
                 T ! r ! nat (B ! i) = (if r = i + 1 then 1 else 0)"
    by (auto simp: basisColumns_def rectangular_def validBasis_def)
  from Suc have km: "k < m" and len: "length (?U ! 0) = totalCols"
    and ih: "\<And>j. j < totalCols \<Longrightarrow> ?U ! 0 ! j = T ! 0 ! j - (\<Sum>i\<leftarrow>[0..<k]. ?f j i)"
    by auto
  have rows: "?U ! (k + 1) = T ! (k + 1)" using eliminateBasic_rows[where k = k] by simp
  have lenU: "0 < length ?U"
    using eliminateBasic_rows[where k = k and T = T] bc
    by (simp add: basisColumns_def rectangular_def)
  have col: "nat (B ! k) < totalCols" using inB[OF km] by linarith
  have zero: "map (?f (nat (B ! k))) [0..<k] = map (\<lambda>i. 0) [0..<k]"
  proof (rule map_cong[OF refl])
    fix i assume "i \<in> set [0..<k]"
    then have ik: "i < k" by simp
    then have "T ! (i + 1) ! nat (B ! k) = 0" using unit[OF km, of "i + 1"] km by simp
    then show "?f (nat (B ! k)) i = 0" by simp
  qed
  have "(\<Sum>i\<leftarrow>[0..<k]. ?f (nat (B ! k)) i) = 0" unfolding zero by simp
  then have cf: "?U ! 0 ! nat (B ! k) = ?a k" using ih[OF col] by simp
  have coeff: "cellAt (?U ! 0) (B ! k) = ?a k" using inB[OF km] cf by (simp add: cellAt_def)
  have sum: "(\<Sum>i\<leftarrow>[0..<Suc k]. ?f j i) = (\<Sum>i\<leftarrow>[0..<k]. ?f j i) + ?f j k" for j
    by simp
  show ?case
  proof (cases "nz (?a k)")
    case False
    then have e: "eliminateBasic nz (Suc k) totalCols B T = ?U"
      by (simp add: eliminateBasic_Suc Let_def coeff)
    have "?U ! 0 ! j = T ! 0 ! j - (\<Sum>i\<leftarrow>[0..<Suc k]. ?f j i)" if "j < totalCols" for j
      unfolding sum using ih[OF that] False by simp
    then show ?thesis unfolding e using len by blast
  next
    case True
    let ?row = "subtractRow totalCols (?a k) (T ! (k + 1)) (?U ! 0)"
    have e: "eliminateBasic nz (Suc k) totalCols B T = ?U[0 := ?row]"
      using True rows by (simp add: eliminateBasic_Suc Let_def coeff)
    have r0: "?U[0 := ?row] ! 0 = ?row" using lenU by simp
    have "?row ! j = T ! 0 ! j - (\<Sum>i\<leftarrow>[0..<Suc k]. ?f j i)" if "j < totalCols" for j
      unfolding sum using that len ih[OF that] True by (simp add: subtractRow_nth)
    moreover have "length ?row = totalCols" using len by simp
    ultimately show ?thesis unfolding e r0 by blast
  qed
qed

lemma preparePhase2_rows:
  "snd (preparePhase2 n m totalCols c (T, B, S)) = (B, S) \<and>
   length (fst (preparePhase2 n m totalCols c (T, B, S))) = length T \<and>
   (\<forall>r. 1 \<le> r \<longrightarrow> fst (preparePhase2 n m totalCols c (T, B, S)) ! r = T ! r)"
  using eliminateBasic_rows[where k = m and totalCols = totalCols and B = B
      and nz = "\<lambda>coeff. \<bar>coeff\<bar> > 1 / 1000000000"]
  by (simp add: preparePhase2_def)

lemma preparePhase2_row0:
  assumes bc: "basisColumns m totalCols T B"
  shows "length (fst (preparePhase2 n m totalCols c (T, B, S)) ! 0) = totalCols \<and>
         (\<forall>j<totalCols. fst (preparePhase2 n m totalCols c (T, B, S)) ! 0 ! j
                          = phase2Objective n m c T B j)"
proof -
  let ?row = "fold (\<lambda>j r. r[j := - (c ! j)]) [0..<n] (fold (\<lambda>j r. r[j := 0]) [0..<totalCols] (T ! 0))"
  let ?T = "T[0 := ?row]"
  let ?nz = "\<lambda>coeff :: rat. \<bar>coeff\<bar> > 1 / 1000000000"
  have lenT: "length T = m + 1" and len0: "length (T ! 0) = totalCols"
    using bc by (auto simp: basisColumns_def rectangular_def)
  have inB: "\<And>i. i < m \<Longrightarrow> 0 \<le> B ! i \<and> nat (B ! i) < totalCols - 1"
    using bc by (auto simp: basisColumns_def validBasis_def)
  have len: "length ?row = totalCols" using len0 by simp
  have bc': "basisColumns m totalCols ?T B"
    unfolding basisColumns_def rectangular_def
  proof (intro conjI allI impI)
    show "length ?T = m + 1" using lenT by simp
    show "validBasis m totalCols B" using bc by (simp add: basisColumns_def)
  next
    fix r assume "r \<le> m"
    then show "length (?T ! r) = totalCols"
      using bc len by (cases r) (auto simp: basisColumns_def rectangular_def)
  next
    fix i r assume "i < m" "1 \<le> r \<and> r \<le> m"
    then show "?T ! r ! nat (B ! i) = (if r = i + 1 then 1 else 0)"
      using bc by (auto simp: basisColumns_def)
  qed
  have z: "fold (\<lambda>j r. r[j := 0]) [0..<totalCols] (T ! 0) ! j = 0" if "j < totalCols" for j
    using fold_upd_nth[where g = "\<lambda>j x. 0" and k = totalCols and row = "T ! 0" and j = j] that len0
    by simp
  have row: "?row ! j = costRow n c j" if "j < totalCols" for j
    using fold_upd_nth[where g = "\<lambda>j x. - (c ! j)" and k = n
        and row = "fold (\<lambda>j r. r[j := 0]) [0..<totalCols] (T ! 0)" and j = j] z[OF that] that len0
    by (simp add: costRow_def)
  have t0: "?T ! 0 = ?row" using lenT by simp
  have ti: "?T ! (i + 1) = T ! (i + 1)" for i by simp
  have c0: "?T ! 0 ! j = costRow n c j" if "j < totalCols" for j
    unfolding t0 by (rule row[OF that])
  have s: "(\<Sum>i\<leftarrow>[0..<m]. if ?nz (?T ! 0 ! nat (B ! i)) then ?T ! 0 ! nat (B ! i) * ?T ! (i + 1) ! j else 0)
         = (\<Sum>i\<leftarrow>[0..<m]. if ?nz (costRow n c (nat (B ! i)))
                          then costRow n c (nat (B ! i)) * T ! (i + 1) ! j else 0)" for j
  proof (rule arg_cong[where f = sum_list], rule map_cong[OF refl])
    fix i assume "i \<in> set [0..<m]"
    then have "i < m" by simp
    then have "nat (B ! i) < totalCols" using inB by fastforce
    then have "?T ! 0 ! nat (B ! i) = costRow n c (nat (B ! i))" by (rule c0)
    then show "(if ?nz (?T ! 0 ! nat (B ! i)) then ?T ! 0 ! nat (B ! i) * ?T ! (i + 1) ! j else 0)
             = (if ?nz (costRow n c (nat (B ! i))) then costRow n c (nat (B ! i)) * T ! (i + 1) ! j else 0)"
      unfolding ti by simp
  qed
  note e = eliminateBasic_row0[OF bc' le_refl, where nz = ?nz]
  have f: "fst (preparePhase2 n m totalCols c (T, B, S)) = eliminateBasic ?nz m totalCols B ?T"
    by (simp add: preparePhase2_def)
  have "eliminateBasic ?nz m totalCols B ?T ! 0 ! j = phase2Objective n m c T B j"
    if "j < totalCols" for j
    using e that unfolding s phase2Objective_def by (simp add: c0[OF that])
  then show ?thesis unfolding f using e by blast
qed

lemma phase1_basisColumns:
  assumes ok: "signsOk TwoPhase m signs"
    and run: "runSimplexLoop quot m (extTotalCols TwoPhase n m signs) 0
                (extInit TwoPhase n m c cons signs) = (k, T1, B1, S1)"
  shows "basisColumns m (extTotalCols TwoPhase n m signs) T1 B1"
proof -
  let ?tc = "extTotalCols TwoPhase n m signs"
  obtain T0 B0 where i: "extInit TwoPhase n m c cons signs = (T0, B0, [])"
    by (simp add: extInit_closed Let_def)
  have c0: "canonical (- (1 / 1000000000)) m ?tc T0 B0"
    using extInit_canonical[OF ok, where n = n and c = c and cons = cons] by (simp add: i)
  have "canonical (- (1 / 1000000000)) m ?tc T1 B1 \<and>
            (\<forall>s\<in>set S1. validBasis m ?tc (basicVars s))"
    by (rule ext_loop_canonical[OF c0 _ run[unfolded i]]) simp
  then show ?thesis by (simp add: canonical_iff)
qed

section \<open>The claims\<close>

text \<open>
  The solves of the examples are run with the exact division. On each of their inputs every
  quotient the ratio test computes is a small integer, which the division of doubles gives
  as well.
\<close>

text \<open>
  C1: every step is to hold the tableau and the basis as they were before the pivot. The
  simple variant does so. The extended variant writes the entering variable into
  \<open>basicVars\<close> (line 454) before it copies \<open>basicVars\<close> into the step (line 462): on the
  example of C8 with the method standard, the first pivot is on row 2 and column 1, the
  basis before it is \<open>[2, 3, 4]\<close>, and the step holds the tableau before the pivot with the
  basis \<open>[2, 1, 4]\<close> after it, while the simple variant's step holds \<open>[2, 3, 4]\<close>.
\<close>

theorem ext_step_basis_example:
  "snd (extInit Standard 2 3 [3, 5] [[1, 0, 4], [0, 2, 12], [3, 2, 18]] [''<='', ''<='', ''<='']) = ([2, 3, 4], []) \<and>
   pivotRow (hd (steps (solveSimplex_ext exactQuot TMax 2 3 [3, 5] [[1, 0, 4], [0, 2, 12], [3, 2, 18]]
            [''<='', ''<='', ''<=''] Standard))) = 2 \<and>
   pivotCol (hd (steps (solveSimplex_ext exactQuot TMax 2 3 [3, 5] [[1, 0, 4], [0, 2, 12], [3, 2, 18]]
            [''<='', ''<='', ''<=''] Standard))) = 1 \<and>
   basicVars (hd (steps (solveSimplex_ext exactQuot TMax 2 3 [3, 5] [[1, 0, 4], [0, 2, 12], [3, 2, 18]]
            [''<='', ''<='', ''<=''] Standard))) = [2, 1, 4] \<and>
   tableau (hd (steps (solveSimplex_ext exactQuot TMax 2 3 [3, 5] [[1, 0, 4], [0, 2, 12], [3, 2, 18]]
            [''<='', ''<='', ''<=''] Standard))) =
     [[- 3, - 5, 0, 0, 0, 0], [1, 0, 1, 0, 0, 4], [0, 2, 0, 1, 0, 12], [3, 2, 0, 0, 1, 18]] \<and>
   basicVars (hd (steps (solveSimplex exactQuot TMax 2 3 [3, 5] [[1, 0, 4], [0, 2, 12], [3, 2, 18]]))) = [2, 3, 4]"
  by code_simp

text \<open>
  C2: a phase-1 run that ends with the unbounded outcome is to give the status Unbounded.
  With two equality constraints \<open>6e-10 x1 = 0\<close> the phase-1 row 0 holds \<open>-1.2e-9\<close> in
  column 0, below the bound \<open>-1e-9\<close>, while no entry of that column exceeds \<open>1e-9\<close>: the
  phase-1 loop returns \<open>-1\<close>, which line 486 does not test, phase 2 runs and the status is
  Optimal.
\<close>

theorem twoPhase_phase1_unbounded_example:
  "fst (runSimplexLoop exactQuot 2 (extTotalCols TwoPhase 1 2 [''='', ''='']) 0
          (extInit TwoPhase 1 2 [0] [[6 / 10000000000, 0], [6 / 10000000000, 0]] [''='', ''=''])) = - 1 \<and>
   status (solveSimplex_ext exactQuot TMax 1 2 [0] [[6 / 10000000000, 0], [6 / 10000000000, 0]]
             [''='', ''=''] TwoPhase) = Optimal"
  by code_simp

text \<open>
  C3, as stated, fails with the method standard and an equality constraint: the constraint
  loop assigns a basic variable to such a row only under a method with artificial
  variables (line 323), so the entry of \<open>basicVars\<close> stays \<open>-1\<close>, from the initial basis to
  the result. A relation string that is none of \<open><=\<close>, \<open>>=\<close>, \<open>=\<close> leaves \<open>-1\<close> under
  every method.
\<close>

theorem standard_equality_basis_counterexample:
  "fst (snd (extInit Standard 1 1 [1] [[1, 1]] [''=''])) = [- 1] \<and>
   finalBasicVars (solveSimplex_ext exactQuot TMax 1 1 [- 1] [[1, 1]] [''=''] Standard) = [- 1] \<and>
   \<not> validBasis 1 (extTotalCols Standard 1 1 [''=''])
       (finalBasicVars (solveSimplex_ext exactQuot TMax 1 1 [- 1] [[1, 1]] [''=''] Standard)) \<and>
   fst (snd (extInit BigM 1 1 [1] [[1, 1]] [''<''])) = [- 1]"
proof -
  have a: "fst (snd (extInit Standard 1 1 [1] [[1, 1]] [''=''])) = [- 1]" by code_simp
  have b: "finalBasicVars (solveSimplex_ext exactQuot TMax 1 1 [- 1] [[1, 1]] [''=''] Standard) = [- 1]"
    by code_simp
  have c: "\<not> validBasis 1 (extTotalCols Standard 1 1 [''='']) [- 1]"
    by (simp add: validBasis_def)
  have d: "fst (snd (extInit BigM 1 1 [1] [[1, 1]] [''<''])) = [- 1]"
    by (simp add: extInit_closed Let_def filledBasic_def fillBasic_def signAt_def)
  show ?thesis using a b c d by simp
qed

text \<open>
  C3, amended: in the simple variant for every input, and in the extended variant when
  each of the \<open>m\<close> relations is \<open><=\<close> or \<open>>=\<close>, or \<open>=\<close> under the method bigM or twoPhase,
  the basis is valid at all times: the initial basis, the basis held by every step and the
  basis of the result have one entry per constraint row, each the index of a variable
  column (never \<open>-1\<close>), and no index twice.
\<close>

theorem basis_always_valid:
  "validBasis m (n + m + 1) (fst (snd (simpleInit n m (negateForMin ty c) cons))) \<and>
   (\<forall>s\<in>set (steps (solveSimplex quot ty n m c cons)). validBasis m (n + m + 1) (basicVars s)) \<and>
   validBasis m (n + m + 1) (finalBasicVars (solveSimplex quot ty n m c cons)) \<and>
   (signsOk meth m signs \<longrightarrow>
      validBasis m (extTotalCols meth n m signs)
        (fst (snd (extInit meth n m (negateForMin ty c) cons signs))) \<and>
      (\<forall>s\<in>set (steps (solveSimplex_ext quot ty n m c cons signs meth)).
         validBasis m (extTotalCols meth n m signs) (basicVars s)) \<and>
      validBasis m (extTotalCols meth n m signs)
        (finalBasicVars (solveSimplex_ext quot ty n m c cons signs meth)))"
  using simple_basis_valid[where m = m and n = n and ty = ty and c = c and cons = cons and quot = quot]
    ext_basis_valid[where meth = meth and m = m and signs = signs and n = n and ty = ty and c = c
      and cons = cons and quot = quot]
  by blast

theorem basis_always_valid_witness:
  "steps (solveSimplex exactQuot TMax 2 3 [3, 5] [[1, 0, 4], [0, 2, 12], [3, 2, 18]]) \<noteq> [] \<and>
   validBasis 3 (2 + 3 + 1)
     (basicVars (hd (steps (solveSimplex exactQuot TMax 2 3 [3, 5] [[1, 0, 4], [0, 2, 12], [3, 2, 18]])))) \<and>
   validBasis 3 (2 + 3 + 1)
     (finalBasicVars (solveSimplex exactQuot TMax 2 3 [3, 5] [[1, 0, 4], [0, 2, 12], [3, 2, 18]])) \<and>
   signsOk TwoPhase 2 [''<='', ''>=''] \<and>
   steps (solveSimplex_ext exactQuot TMax 2 2 [1, 1] [[1, 1, 4], [1, 1, 3]] [''<='', ''>=''] TwoPhase) \<noteq> [] \<and>
   validBasis 2 (extTotalCols TwoPhase 2 2 [''<='', ''>=''])
     (fst (snd (extInit TwoPhase 2 2 (negateForMin TMax [1, 1]) [[1, 1, 4], [1, 1, 3]] [''<='', ''>='']))) \<and>
   validBasis 2 (extTotalCols TwoPhase 2 2 [''<='', ''>=''])
     (basicVars (hd (steps
        (solveSimplex_ext exactQuot TMax 2 2 [1, 1] [[1, 1, 4], [1, 1, 3]] [''<='', ''>=''] TwoPhase)))) \<and>
   validBasis 2 (extTotalCols TwoPhase 2 2 [''<='', ''>=''])
     (finalBasicVars (solveSimplex_ext exactQuot TMax 2 2 [1, 1] [[1, 1, 4], [1, 1, 3]] [''<='', ''>=''] TwoPhase))"
proof -
  have a: "steps (solveSimplex exactQuot TMax 2 3 [3, 5] [[1, 0, 4], [0, 2, 12], [3, 2, 18]]) \<noteq> []"
    by code_simp
  have b: "steps (solveSimplex_ext exactQuot TMax 2 2 [1, 1] [[1, 1, 4], [1, 1, 3]] [''<='', ''>=''] TwoPhase) \<noteq> []"
    by code_simp
  have ok: "signsOk TwoPhase 2 [''<='', ''>='']"
    by (simp add: signsOk_def signAt_def less_Suc_eq numeral_2_eq_2)
  show ?thesis
    using a b ok hd_in_set[OF a] hd_in_set[OF b]
      basis_always_valid[where m = 3 and n = 2 and ty = TMax and c = "[3, 5]"
        and cons = "[[1, 0, 4], [0, 2, 12], [3, 2, 18]]" and quot = exactQuot]
      basis_always_valid[where m = 2 and n = 2 and ty = TMax and c = "[1, 1]"
        and cons = "[[1, 1, 4], [1, 1, 3]]" and meth = TwoPhase and signs = "[''<='', ''>='']"
        and quot = exactQuot]
    by blast
qed

text \<open>
  C4, as stated, fails in the simple variant, which compares with \<open>0\<close> and has no
  tolerance: with the objective \<open>5e-10 x1\<close> its row 0 holds \<open>-5e-10\<close>, within \<open>1e-9\<close> of
  zero, and column 0 is selected for a pivot.
\<close>

theorem simple_variant_no_tolerance_counterexample:
  "steps (solveSimplex exactQuot TMax 1 1 [1 / 2000000000] [[1, 1]]) \<noteq> [] \<and>
   pivotCol (hd (steps (solveSimplex exactQuot TMax 1 1 [1 / 2000000000] [[1, 1]]))) = 0 \<and>
   tableau (hd (steps (solveSimplex exactQuot TMax 1 1 [1 / 2000000000] [[1, 1]]))) ! 0 ! 0 = - (1 / 2000000000) \<and>
   \<bar>- (1 / 2000000000 :: rat)\<bar> \<le> 1 / 1000000000"
  by code_simp

text \<open>
  C4, amended: in every step of both variants the entering variable is the pivot column,
  the column of row 0 (the right-hand side left out) with the most negative value, the
  lowest index among ties. The bound a value must be below to be selected is \<open>0\<close> in the
  simple variant and \<open>-1e-9\<close> in the extended one; an iteration within the cap stops the
  loop as optimal exactly when no entry of row 0 is below that bound.
\<close>

theorem entering_variable_choice:
  "(\<forall>s\<in>set (steps (solveSimplex quot ty n m c cons)).
      enteringVar s = pivotCol s \<and> mostNegative 0 (tableau s ! 0) (n + m) (pivotCol s)) \<and>
   (\<forall>s\<in>set (steps (solveSimplex_ext quot ty n m c cons signs meth)).
      enteringVar s = pivotCol s \<and>
      mostNegative (- (1 / 1000000000)) (tableau s ! 0) (extTotalCols meth n m signs - 1) (pivotCol s)) \<and>
   (findPivotCol bound T totalCols = Some p \<longleftrightarrow> mostNegative bound (T ! 0) (totalCols - 1) p) \<and>
   (iter < 100 \<longrightarrow>
      (simpleLoop quot m totalCols names iter (T, B, S) = Inr (T, B, S)
         \<longleftrightarrow> (\<forall>j<totalCols - 1. 0 \<le> T ! 0 ! j))) \<and>
   (it < 50 \<longrightarrow>
      (runSimplexLoopFrom quot m totalCols iterStart it (T, B, S) = (int it, T, B, S)
         \<longleftrightarrow> (\<forall>j<totalCols - 1. - (1 / 1000000000) \<le> T ! 0 ! j)))"
proof (intro conjI)
  show "\<forall>s\<in>set (steps (solveSimplex quot ty n m c cons)).
      enteringVar s = pivotCol s \<and> mostNegative 0 (tableau s ! 0) (n + m) (pivotCol s)"
    by (rule simple_steps_all) (simp add: simpleStep_def mostNegative_def findPivotCol_Some_iff)
  show "\<forall>s\<in>set (steps (solveSimplex_ext quot ty n m c cons signs meth)).
      enteringVar s = pivotCol s \<and>
      mostNegative (- (1 / 1000000000)) (tableau s ! 0) (extTotalCols meth n m signs - 1) (pivotCol s)"
    by (rule ext_steps_all) (simp add: extStep_def mostNegative_def findPivotCol_Some_iff)
  show "findPivotCol bound T totalCols = Some p \<longleftrightarrow> mostNegative bound (T ! 0) (totalCols - 1) p"
    by (simp add: mostNegative_def findPivotCol_Some_iff)
  show "iter < 100 \<longrightarrow>
      (simpleLoop quot m totalCols names iter (T, B, S) = Inr (T, B, S)
         \<longleftrightarrow> (\<forall>j<totalCols - 1. 0 \<le> T ! 0 ! j))"
    using simpleLoop_break_iff by blast
  show "it < 50 \<longrightarrow>
      (runSimplexLoopFrom quot m totalCols iterStart it (T, B, S) = (int it, T, B, S)
         \<longleftrightarrow> (\<forall>j<totalCols - 1. - (1 / 1000000000) \<le> T ! 0 ! j))"
    using runSimplexLoopFrom_break_iff by blast
qed


theorem entering_variable_choice_witness:
  "steps (solveSimplex exactQuot TMax 2 3 [3, 5] [[1, 0, 4], [0, 2, 12], [3, 2, 18]]) \<noteq> [] \<and>
   mostNegative 0 (tableau (hd (steps (solveSimplex exactQuot TMax 2 3 [3, 5] [[1, 0, 4], [0, 2, 12], [3, 2, 18]]))) ! 0)
     (2 + 3) (pivotCol (hd (steps (solveSimplex exactQuot TMax 2 3 [3, 5] [[1, 0, 4], [0, 2, 12], [3, 2, 18]])))) \<and>
   steps (solveSimplex_ext exactQuot TMax 2 3 [3, 5] [[1, 0, 4], [0, 2, 12], [3, 2, 18]]
            [''<='', ''<='', ''<=''] Standard) \<noteq> [] \<and>
   mostNegative (- (1 / 1000000000))
     (tableau (hd (steps (solveSimplex_ext exactQuot TMax 2 3 [3, 5] [[1, 0, 4], [0, 2, 12], [3, 2, 18]]
            [''<='', ''<='', ''<=''] Standard))) ! 0)
     (extTotalCols Standard 2 3 [''<='', ''<='', ''<=''] - 1)
     (pivotCol (hd (steps (solveSimplex_ext exactQuot TMax 2 3 [3, 5] [[1, 0, 4], [0, 2, 12], [3, 2, 18]]
            [''<='', ''<='', ''<=''] Standard)))) \<and>
   (0 :: nat) < 100 \<and>
   simpleLoop exactQuot 1 3 [] 0 ([[0, 0, 0], [1, 1, 1]], [1], []) = Inr ([[0, 0, 0], [1, 1, 1]], [1], []) \<and>
   (0 :: nat) < 50 \<and>
   runSimplexLoopFrom exactQuot 1 3 0 0 ([[- (1 / 2000000000), 0, 0], [1, 1, 1]], [1], [])
     = (int 0, [[- (1 / 2000000000), 0, 0], [1, 1, 1]], [1], [])"
proof -
  have a: "steps (solveSimplex exactQuot TMax 2 3 [3, 5] [[1, 0, 4], [0, 2, 12], [3, 2, 18]]) \<noteq> []"
    by code_simp
  have b: "steps (solveSimplex_ext exactQuot TMax 2 3 [3, 5] [[1, 0, 4], [0, 2, 12], [3, 2, 18]]
            [''<='', ''<='', ''<=''] Standard) \<noteq> []"
    by code_simp
  have c: "\<forall>j<3 - 1. (0 :: rat) \<le> [[0, 0, 0], [1, 1, 1]] ! 0 ! j"
    by (simp add: less_Suc_eq numeral_2_eq_2)
  have d: "\<forall>j<3 - 1. - (1 / 1000000000 :: rat) \<le> [[- (1 / 2000000000), 0, 0], [1, 1, 1]] ! 0 ! j"
    by (simp add: less_Suc_eq numeral_2_eq_2)
  have e: "(0 :: nat) < 100" "(0 :: nat) < 50" by simp_all
  note t1 = entering_variable_choice[where quot = exactQuot and ty = TMax and n = 2 and m = 3 and c = "[3, 5]"
        and cons = "[[1, 0, 4], [0, 2, 12], [3, 2, 18]]" and signs = "[''<='', ''<='', ''<='']"
        and meth = Standard]
  note t2 = entering_variable_choice[where quot = exactQuot and iter = 0 and m = 1 and totalCols = 3 and names = "[]"
        and T = "[[0, 0, 0], [1, 1, 1]]" and B = "[1]" and S = "[]"]
  note t3 = entering_variable_choice[where quot = exactQuot and it = 0 and m = 1 and totalCols = 3 and iterStart = 0
        and T = "[[- (1 / 2000000000), 0, 0], [1, 1, 1]]" and B = "[1]" and S = "[]"]
  have f: "simpleLoop exactQuot 1 3 [] 0 ([[0, 0, 0], [1, 1, 1]], [1], []) = Inr ([[0, 0, 0], [1, 1, 1]], [1], [])"
    using t2 c e by blast
  have g: "runSimplexLoopFrom exactQuot 1 3 0 0 ([[- (1 / 2000000000), 0, 0], [1, 1, 1]], [1], [])
     = (int 0, [[- (1 / 2000000000), 0, 0], [1, 1, 1]], [1], [])"
    using t3 d e by blast
  show ?thesis
    using a b e f g hd_in_set[OF a] hd_in_set[OF b] t1 by blast
qed

text \<open>
  C5: with the method twoPhase, when the absolute value of row 0's right-hand side after
  the phase-1 loop exceeds \<open>1e-5\<close>, the result is Infeasible with an empty solution and the
  optimal value 0, and holds the tableau, the basis and the steps as phase 1 left them
  (row 0 is not rebuilt, phase 2 is not run). Otherwise phase 2 is prepared and run. The
  preparation leaves the constraint rows, the basis and the steps as phase 1 left them
  and, when every relation is \<open><=\<close>, \<open>>=\<close> or \<open>=\<close>, makes row 0 the row that holds \<open>- c\<close>
  for the decision variables and 0 elsewhere, minus, for every constraint row whose basic
  variable has an entry exceeding \<open>1e-9\<close> in absolute value in that row, that entry times
  the constraint row. The loop is then run again from that tableau, with the iteration
  count of phase 1, and the result is Unbounded with an empty solution and the optimal
  value 0 if that run ends with the unbounded outcome, and otherwise Optimal with the
  solution and the optimal value read from the tableau and the basis that run leaves.
\<close>

theorem twoPhase_feasibility_gate:
  "(let tc = extTotalCols TwoPhase n m signs;
        c' = negateForMin ty c;
        names = extNames TwoPhase n m signs;
        phase1 = runSimplexLoop quot m tc 0 (extInit TwoPhase n m c' cons signs);
        T1 = fst (snd phase1); B1 = fst (snd (snd phase1)); S1 = snd (snd (snd phase1));
        r = solveSimplex_ext quot ty n m c cons signs TwoPhase
    in (\<bar>T1 ! 0 ! (tc - 1)\<bar> > 1 / 100000 \<longrightarrow>
          r = \<lparr> steps = S1, finalTableau = T1, solution = [], optimalValue = 0,
                status = Infeasible, variableNames = names, finalBasicVars = B1 \<rparr>) \<and>
       (\<not> \<bar>T1 ! 0 ! (tc - 1)\<bar> > 1 / 100000 \<longrightarrow>
          (let T2 = fst (preparePhase2 n m tc c' (T1, B1, S1));
               phase2 = runSimplexLoop quot m tc (fst phase1) (T2, B1, S1);
               T3 = fst (snd phase2); B3 = fst (snd (snd phase2)); S3 = snd (snd (snd phase2))
           in length T2 = length T1 \<and> (\<forall>i. 1 \<le> i \<longrightarrow> T2 ! i = T1 ! i) \<and>
              (signsOk TwoPhase m signs \<longrightarrow>
                 length (T2 ! 0) = tc \<and> (\<forall>j<tc. T2 ! 0 ! j = phase2Objective n m c' T1 B1 j)) \<and>
              r = (if fst phase2 = - 1
                   then \<lparr> steps = S3, finalTableau = T3, solution = [], optimalValue = 0,
                          status = Unbounded, variableNames = names, finalBasicVars = B3 \<rparr>
                   else \<lparr> steps = S3, finalTableau = T3,
                          solution = extractSolution n m tc T3 B3,
                          optimalValue = (if ty = TMin then - (T3 ! 0 ! (tc - 1))
                                          else T3 ! 0 ! (tc - 1)),
                          status = Optimal, variableNames = names, finalBasicVars = B3 \<rparr>))))"
proof -
  let ?tc = "extTotalCols TwoPhase n m signs"
  let ?c = "negateForMin ty c"
  let ?names = "extNames TwoPhase n m signs"
  obtain k1 T1 B1 S1 where r1:
    "runSimplexLoop quot m ?tc 0 (extInit TwoPhase n m ?c cons signs) = (k1, T1, B1, S1)"
    by (metis prod_cases4)
  obtain T2 where pp: "preparePhase2 n m ?tc ?c (T1, B1, S1) = (T2, B1, S1)"
    using preparePhase2_rows[where n = n and m = m and totalCols = ?tc and c = ?c and T = T1
        and B = B1 and S = S1]
    by (cases "preparePhase2 n m ?tc ?c (T1, B1, S1)") auto
  obtain k2 T3 B3 S3 where r2: "runSimplexLoop quot m ?tc k1 (T2, B1, S1) = (k2, T3, B3, S3)"
    by (metis prod_cases4)
  have rows: "length T2 = length T1 \<and> (\<forall>i. 1 \<le> i \<longrightarrow> T2 ! i = T1 ! i)"
    using preparePhase2_rows[where n = n and m = m and totalCols = ?tc and c = ?c and T = T1
        and B = B1 and S = S1] pp
    by simp
  have row0: "length (T2 ! 0) = ?tc \<and> (\<forall>j<?tc. T2 ! 0 ! j = phase2Objective n m ?c T1 B1 j)"
    if ok: "signsOk TwoPhase m signs"
    using preparePhase2_row0[OF phase1_basisColumns[OF ok r1], where n = n and c = ?c and S = S1] pp
    by simp
  have gate: "solveSimplex_ext quot ty n m c cons signs TwoPhase =
                \<lparr> steps = S1, finalTableau = T1, solution = [], optimalValue = 0,
                  status = Infeasible, variableNames = ?names, finalBasicVars = B1 \<rparr>"
    if "\<bar>T1 ! 0 ! (?tc - 1)\<bar> > 1 / 100000"
    using that r1 by (simp add: solveSimplex_ext_def Let_def stoppedResult_def)
  have run: "solveSimplex_ext quot ty n m c cons signs TwoPhase =
               (if k2 = - 1
                then \<lparr> steps = S3, finalTableau = T3, solution = [], optimalValue = 0,
                       status = Unbounded, variableNames = ?names, finalBasicVars = B3 \<rparr>
                else \<lparr> steps = S3, finalTableau = T3,
                       solution = extractSolution n m ?tc T3 B3,
                       optimalValue = (if ty = TMin then - (T3 ! 0 ! (?tc - 1))
                                       else T3 ! 0 ! (?tc - 1)),
                       status = Optimal, variableNames = ?names, finalBasicVars = B3 \<rparr>)"
    if "\<not> \<bar>T1 ! 0 ! (?tc - 1)\<bar> > 1 / 100000"
    using that r1 r2 pp
    by (simp add: solveSimplex_ext_def Let_def stoppedResult_def optimalResult_def)
  show ?thesis
    unfolding Let_def r1 pp fst_conv snd_conv r2
    using rows row0 gate run by blast
qed

theorem twoPhase_feasibility_gate_witness:
  "(let tc = extTotalCols TwoPhase 2 2 [''<='', ''>=''];
        c' = negateForMin TMax [1, 1];
        names = extNames TwoPhase 2 2 [''<='', ''>=''];
        phase1 = runSimplexLoop exactQuot 2 tc 0 (extInit TwoPhase 2 2 c' [[1, 1, 1], [1, 1, 3]] [''<='', ''>='']);
        T1 = fst (snd phase1); B1 = fst (snd (snd phase1)); S1 = snd (snd (snd phase1));
        r = solveSimplex_ext exactQuot TMax 2 2 [1, 1] [[1, 1, 1], [1, 1, 3]] [''<='', ''>=''] TwoPhase
    in \<bar>T1 ! 0 ! (tc - 1)\<bar> > 1 / 100000 \<and>
       r = \<lparr> steps = S1, finalTableau = T1, solution = [], optimalValue = 0,
             status = Infeasible, variableNames = names, finalBasicVars = B1 \<rparr> \<and>
       T1 = [[0, 0, 1, 1, 0, - 2], [1, 1, 1, 0, 0, 1], [0, 0, - 1, - 1, 1, 2]] \<and>
       B1 = [0, 4] \<and>
       length S1 = 1 \<and>
       status r = Infeasible \<and>
       solution r = [] \<and>
       optimalValue r = 0) \<and>
   signsOk TwoPhase 2 [''<='', ''>=''] \<and>
   (let tc = extTotalCols TwoPhase 2 2 [''<='', ''>=''];
        c' = negateForMin TMax [1, 1];
        names = extNames TwoPhase 2 2 [''<='', ''>=''];
        phase1 = runSimplexLoop exactQuot 2 tc 0 (extInit TwoPhase 2 2 c' [[1, 1, 4], [1, 1, 3]] [''<='', ''>='']);
        T1 = fst (snd phase1); B1 = fst (snd (snd phase1)); S1 = snd (snd (snd phase1));
        r = solveSimplex_ext exactQuot TMax 2 2 [1, 1] [[1, 1, 4], [1, 1, 3]] [''<='', ''>=''] TwoPhase;
        T2 = fst (preparePhase2 2 2 tc c' (T1, B1, S1));
        phase2 = runSimplexLoop exactQuot 2 tc (fst phase1) (T2, B1, S1);
        T3 = fst (snd phase2); B3 = fst (snd (snd phase2)); S3 = snd (snd (snd phase2))
    in \<not> \<bar>T1 ! 0 ! (tc - 1)\<bar> > 1 / 100000 \<and>
       length T2 = length T1 \<and>
       T2 ! 1 = T1 ! 1 \<and>
       T2 ! 2 = T1 ! 2 \<and>
       length (T2 ! 0) = tc \<and>
       T2 ! 0 ! 3 = phase2Objective 2 2 c' T1 B1 3 \<and>
       r = (if fst phase2 = - 1
            then \<lparr> steps = S3, finalTableau = T3, solution = [], optimalValue = 0,
                   status = Unbounded, variableNames = names, finalBasicVars = B3 \<rparr>
            else \<lparr> steps = S3, finalTableau = T3,
                   solution = extractSolution 2 2 tc T3 B3,
                   optimalValue = (if TMax = TMin then - (T3 ! 0 ! (tc - 1))
                                   else T3 ! 0 ! (tc - 1)),
                   status = Optimal, variableNames = names, finalBasicVars = B3 \<rparr>) \<and>
       tc = 6 \<and>
       T1 = [[0, 0, 0, 0, 1, 0], [0, 0, 1, 1, - 1, 1], [1, 1, 0, - 1, 1, 3]] \<and>
       B1 = [2, 0] \<and>
       fst phase1 = 1 \<and>
       T2 = [[0, 0, 0, - 1, 1, 3], [0, 0, 1, 1, - 1, 1], [1, 1, 0, - 1, 1, 3]] \<and>
       map (phase2Objective 2 2 c' T1 B1) [0..<tc] = [0, 0, 0, - 1, 1, 3] \<and>
       fst phase2 = 1 \<and>
       T3 = [[0, 0, 1, 0, 0, 4], [0, 0, 1, 1, - 1, 1], [1, 1, 1, 0, 0, 4]] \<and>
       B3 = [3, 0] \<and>
       status r = Optimal \<and>
       optimalValue r = 4 \<and>
       solution r = [4, 0] \<and>
       map description (steps r) = [''Iter 1: Pivot (2, 0)'', ''Iter 2: Pivot (1, 3)''])"
proof -
  have g1: "(let tc = extTotalCols TwoPhase 2 2 [''<='', ''>=''];
         c' = negateForMin TMax [1, 1];
         names = extNames TwoPhase 2 2 [''<='', ''>=''];
         phase1 = runSimplexLoop exactQuot 2 tc 0 (extInit TwoPhase 2 2 c' [[1, 1, 1], [1, 1, 3]] [''<='', ''>='']);
         T1 = fst (snd phase1); B1 = fst (snd (snd phase1)); S1 = snd (snd (snd phase1));
         r = solveSimplex_ext exactQuot TMax 2 2 [1, 1] [[1, 1, 1], [1, 1, 3]] [''<='', ''>=''] TwoPhase
     in \<bar>T1 ! 0 ! (tc - 1)\<bar> > 1 / 100000)"
    unfolding Let_def by code_simp
  have v1: "(let tc = extTotalCols TwoPhase 2 2 [''<='', ''>=''];
         c' = negateForMin TMax [1, 1];
         names = extNames TwoPhase 2 2 [''<='', ''>=''];
         phase1 = runSimplexLoop exactQuot 2 tc 0 (extInit TwoPhase 2 2 c' [[1, 1, 1], [1, 1, 3]] [''<='', ''>='']);
         T1 = fst (snd phase1); B1 = fst (snd (snd phase1)); S1 = snd (snd (snd phase1));
         r = solveSimplex_ext exactQuot TMax 2 2 [1, 1] [[1, 1, 1], [1, 1, 3]] [''<='', ''>=''] TwoPhase
     in T1 = [[0, 0, 1, 1, 0, - 2], [1, 1, 1, 0, 0, 1], [0, 0, - 1, - 1, 1, 2]] \<and>
        B1 = [0, 4] \<and>
        length S1 = 1 \<and>
        status r = Infeasible \<and>
        solution r = [] \<and>
        optimalValue r = 0)"
    unfolding Let_def by code_simp
  have g2: "(let tc = extTotalCols TwoPhase 2 2 [''<='', ''>=''];
         c' = negateForMin TMax [1, 1];
         names = extNames TwoPhase 2 2 [''<='', ''>=''];
         phase1 = runSimplexLoop exactQuot 2 tc 0 (extInit TwoPhase 2 2 c' [[1, 1, 4], [1, 1, 3]] [''<='', ''>='']);
         T1 = fst (snd phase1); B1 = fst (snd (snd phase1)); S1 = snd (snd (snd phase1));
         r = solveSimplex_ext exactQuot TMax 2 2 [1, 1] [[1, 1, 4], [1, 1, 3]] [''<='', ''>=''] TwoPhase
     in \<not> \<bar>T1 ! 0 ! (tc - 1)\<bar> > 1 / 100000)"
    unfolding Let_def by code_simp
  have v2: "(let tc = extTotalCols TwoPhase 2 2 [''<='', ''>=''];
         c' = negateForMin TMax [1, 1];
         names = extNames TwoPhase 2 2 [''<='', ''>=''];
         phase1 = runSimplexLoop exactQuot 2 tc 0 (extInit TwoPhase 2 2 c' [[1, 1, 4], [1, 1, 3]] [''<='', ''>='']);
         T1 = fst (snd phase1); B1 = fst (snd (snd phase1)); S1 = snd (snd (snd phase1));
         r = solveSimplex_ext exactQuot TMax 2 2 [1, 1] [[1, 1, 4], [1, 1, 3]] [''<='', ''>=''] TwoPhase;
         T2 = fst (preparePhase2 2 2 tc c' (T1, B1, S1));
         phase2 = runSimplexLoop exactQuot 2 tc (fst phase1) (T2, B1, S1);
         T3 = fst (snd phase2); B3 = fst (snd (snd phase2)); S3 = snd (snd (snd phase2))
     in tc = 6 \<and>
        T1 = [[0, 0, 0, 0, 1, 0], [0, 0, 1, 1, - 1, 1], [1, 1, 0, - 1, 1, 3]] \<and>
        B1 = [2, 0] \<and>
        fst phase1 = 1 \<and>
        T2 = [[0, 0, 0, - 1, 1, 3], [0, 0, 1, 1, - 1, 1], [1, 1, 0, - 1, 1, 3]] \<and>
        map (phase2Objective 2 2 c' T1 B1) [0..<tc] = [0, 0, 0, - 1, 1, 3] \<and>
        fst phase2 = 1 \<and>
        T3 = [[0, 0, 1, 0, 0, 4], [0, 0, 1, 1, - 1, 1], [1, 1, 1, 0, 0, 4]] \<and>
        B3 = [3, 0] \<and>
        status r = Optimal \<and>
        optimalValue r = 4 \<and>
        solution r = [4, 0] \<and>
        map description (steps r) = [''Iter 1: Pivot (2, 0)'', ''Iter 2: Pivot (1, 3)''])"
    unfolding Let_def by code_simp
  have ok: "signsOk TwoPhase 2 [''<='', ''>='']"
    by (simp add: signsOk_def signAt_def less_Suc_eq numeral_2_eq_2)
  have n: "(1 :: nat) \<le> 1" "(1 :: nat) \<le> 2" by simp_all
  have n3: "3 < extTotalCols TwoPhase 2 2 [''<='', ''>='']" by code_simp
  note t1 = twoPhase_feasibility_gate[where quot = exactQuot and ty = TMax and n = 2 and m = 2
        and c = "[1, 1]" and cons = "[[1, 1, 1], [1, 1, 3]]" and signs = "[''<='', ''>='']"]
  note t2 = twoPhase_feasibility_gate[where quot = exactQuot and ty = TMax and n = 2 and m = 2
        and c = "[1, 1]" and cons = "[[1, 1, 4], [1, 1, 3]]" and signs = "[''<='', ''>='']"]
  have p1: "(let tc = extTotalCols TwoPhase 2 2 [''<='', ''>=''];
         c' = negateForMin TMax [1, 1];
         names = extNames TwoPhase 2 2 [''<='', ''>=''];
         phase1 = runSimplexLoop exactQuot 2 tc 0 (extInit TwoPhase 2 2 c' [[1, 1, 1], [1, 1, 3]] [''<='', ''>='']);
         T1 = fst (snd phase1); B1 = fst (snd (snd phase1)); S1 = snd (snd (snd phase1));
         r = solveSimplex_ext exactQuot TMax 2 2 [1, 1] [[1, 1, 1], [1, 1, 3]] [''<='', ''>=''] TwoPhase
     in r = \<lparr> steps = S1, finalTableau = T1, solution = [], optimalValue = 0,
             status = Infeasible, variableNames = names, finalBasicVars = B1 \<rparr>)"
    using t1 g1 unfolding Let_def by blast
  have p2: "(let tc = extTotalCols TwoPhase 2 2 [''<='', ''>=''];
         c' = negateForMin TMax [1, 1];
         names = extNames TwoPhase 2 2 [''<='', ''>=''];
         phase1 = runSimplexLoop exactQuot 2 tc 0 (extInit TwoPhase 2 2 c' [[1, 1, 4], [1, 1, 3]] [''<='', ''>='']);
         T1 = fst (snd phase1); B1 = fst (snd (snd phase1)); S1 = snd (snd (snd phase1));
         r = solveSimplex_ext exactQuot TMax 2 2 [1, 1] [[1, 1, 4], [1, 1, 3]] [''<='', ''>=''] TwoPhase;
         T2 = fst (preparePhase2 2 2 tc c' (T1, B1, S1));
         phase2 = runSimplexLoop exactQuot 2 tc (fst phase1) (T2, B1, S1);
         T3 = fst (snd phase2); B3 = fst (snd (snd phase2)); S3 = snd (snd (snd phase2))
     in length T2 = length T1 \<and>
        T2 ! 1 = T1 ! 1 \<and>
        T2 ! 2 = T1 ! 2 \<and>
        length (T2 ! 0) = tc \<and>
        T2 ! 0 ! 3 = phase2Objective 2 2 c' T1 B1 3 \<and>
        r = (if fst phase2 = - 1
            then \<lparr> steps = S3, finalTableau = T3, solution = [], optimalValue = 0,
                   status = Unbounded, variableNames = names, finalBasicVars = B3 \<rparr>
            else \<lparr> steps = S3, finalTableau = T3,
                   solution = extractSolution 2 2 tc T3 B3,
                   optimalValue = (if TMax = TMin then - (T3 ! 0 ! (tc - 1))
                                   else T3 ! 0 ! (tc - 1)),
                   status = Optimal, variableNames = names, finalBasicVars = B3 \<rparr>))"
    using t2 g2 ok n n3 unfolding Let_def by blast
  show ?thesis
    using g1 v1 p1 ok g2 v2 p2 unfolding Let_def by blast
qed

text \<open>
  C6, as stated, fails in the extended variant, whose ratio test takes only rows whose
  entry exceeds \<open>1e-9\<close>: with the constraint \<open>5e-10 x1 \<le> 1\<close> the only row has a strictly
  positive entry in the pivot column, no row is chosen and the status is Unbounded. No
  quotient is computed on this input, so this holds for every division.
\<close>

theorem ext_ratio_tolerance_counterexample:
  "(0 :: rat) < 1 / 2000000000 \<and>
   extInit Standard 1 1 [1] [[1 / 2000000000, 1]] [''<=''] = ([[- 1, 0, 0], [1 / 2000000000, 1, 1]], [1], []) \<and>
   findPivotCol (- (1 / 1000000000)) [[- 1, 0, 0], [1 / 2000000000, 1, 1]] 3 = Some 0 \<and>
   (\<forall>quot. ratioTest quot (1 / 1000000000) [[- 1, 0, 0], [1 / 2000000000, 1, 1]] 1 3 0 = None \<and>
      status (solveSimplex_ext quot TMax 1 1 [1] [[1 / 2000000000, 1]] [''<=''] Standard) = Unbounded)"
proof (intro conjI allI)
  show "(0 :: rat) < 1 / 2000000000" by simp
  show "extInit Standard 1 1 [1] [[1 / 2000000000, 1]] [''<='']
          = ([[- 1, 0, 0], [1 / 2000000000, 1, 1]], [1], [])"
    by code_simp
  show "findPivotCol (- (1 / 1000000000)) [[- 1, 0, 0], [1 / 2000000000, 1, 1]] 3 = Some 0"
    by code_simp
  fix quot :: "rat \<Rightarrow> rat \<Rightarrow> jsratio"
  show "ratioTest quot (1 / 1000000000) [[- 1, 0, 0], [1 / 2000000000, 1, 1]] 1 3 0 = None"
    by code_simp
  show "status (solveSimplex_ext quot TMax 1 1 [1] [[1 / 2000000000, 1]] [''<=''] Standard) = Unbounded"
    by code_simp
qed

text \<open>
  C6, amended: in every step of both variants the pivot row is a row \<open>1..m\<close> whose entry in
  the pivot column exceeds the bound (\<open>0\<close> in the simple variant, \<open>1e-9\<close> in the extended
  one); among those rows it has the least quotient \<open>rhs / entry\<close> as the division computes
  it, a quotient below \<open>Infinity\<close>, and the lowest index among the rows with an equal computed
  quotient. This holds for every division. When no row is eligible, or the computed quotient
  of every eligible row is \<open>Infinity\<close>, and only then, no row is chosen and the loop stops at
  once; the simple variant, the extended variant with the methods standard and bigM, and
  phase 2 of twoPhase then return the status Unbounded with the steps recorded so far, an
  empty solution and the optimal value 0.
\<close>

theorem leaving_row_choice:
  "(\<forall>s\<in>set (steps (solveSimplex quot ty n m c cons)).
      minRatioRow quot 0 (tableau s) m (n + m + 1) (pivotCol s) (pivotRow s)) \<and>
   (\<forall>s\<in>set (steps (solveSimplex_ext quot ty n m c cons signs meth)).
      minRatioRow quot (1 / 1000000000) (tableau s) m (extTotalCols meth n m signs) (pivotCol s)
        (pivotRow s)) \<and>
   (ratioTest quot eps T m totalCols pc = Some p \<longleftrightarrow> minRatioRow quot eps T m totalCols pc p) \<and>
   (ratioTest quot eps T m totalCols pc = None \<longleftrightarrow>
      (\<forall>i. 1 \<le> i \<and> i \<le> m \<and> eps < T ! i ! pc \<longrightarrow> ratio quot T totalCols pc i = PlusInfinity)) \<and>
   (iter < 100 \<and> findPivotCol 0 T totalCols = Some pc \<and>
      (\<forall>i. 1 \<le> i \<and> i \<le> m \<and> 0 < T ! i ! pc \<longrightarrow> ratio quot T totalCols pc i = PlusInfinity)
      \<longrightarrow> simpleLoop quot m totalCols names iter (T, B, S) = Inl (T, B, S)) \<and>
   (simpleLoop quot m (n + m + 1) (simpleNames n m) 0 (simpleInit n m (negateForMin ty c) cons)
      = Inl (T, B, S)
      \<longrightarrow> solveSimplex quot ty n m c cons =
           \<lparr> steps = S, finalTableau = T, solution = [], optimalValue = 0, status = Unbounded,
             variableNames = simpleNames n m, finalBasicVars = B \<rparr>) \<and>
   (it < 50 \<and> findPivotCol (- (1 / 1000000000)) T totalCols = Some pc \<and>
      (\<forall>i. 1 \<le> i \<and> i \<le> m \<and> 1 / 1000000000 < T ! i ! pc \<longrightarrow>
         ratio quot T totalCols pc i = PlusInfinity)
      \<longrightarrow> runSimplexLoopFrom quot m totalCols iterStart it (T, B, S) = (- 1, T, B, S)) \<and>
   (meth \<noteq> TwoPhase \<and>
      runSimplexLoop quot m (extTotalCols meth n m signs) 0
        (extInit meth n m (negateForMin ty c) cons signs) = (- 1, T, B, S)
      \<longrightarrow> solveSimplex_ext quot ty n m c cons signs meth =
           \<lparr> steps = S, finalTableau = T, solution = [], optimalValue = 0, status = Unbounded,
             variableNames = extNames meth n m signs, finalBasicVars = B \<rparr>) \<and>
   (runSimplexLoop quot m (extTotalCols TwoPhase n m signs) 0
        (extInit TwoPhase n m (negateForMin ty c) cons signs) = (k, T1, B1, S1) \<and>
      \<not> \<bar>T1 ! 0 ! (extTotalCols TwoPhase n m signs - 1)\<bar> > 1 / 100000 \<and>
      runSimplexLoop quot m (extTotalCols TwoPhase n m signs) k
        (preparePhase2 n m (extTotalCols TwoPhase n m signs) (negateForMin ty c) (T1, B1, S1))
        = (- 1, T, B, S)
      \<longrightarrow> solveSimplex_ext quot ty n m c cons signs TwoPhase =
           \<lparr> steps = S, finalTableau = T, solution = [], optimalValue = 0, status = Unbounded,
             variableNames = extNames TwoPhase n m signs, finalBasicVars = B \<rparr>)"
proof (intro conjI)
  show "\<forall>s\<in>set (steps (solveSimplex quot ty n m c cons)).
      minRatioRow quot 0 (tableau s) m (n + m + 1) (pivotCol s) (pivotRow s)"
    by (rule simple_steps_all) (simp add: simpleStep_def minRatioRow_def ratioTest_Some_iff)
  show "\<forall>s\<in>set (steps (solveSimplex_ext quot ty n m c cons signs meth)).
      minRatioRow quot (1 / 1000000000) (tableau s) m (extTotalCols meth n m signs) (pivotCol s)
        (pivotRow s)"
    by (rule ext_steps_all) (simp add: extStep_def minRatioRow_def ratioTest_Some_iff)
  show "ratioTest quot eps T m totalCols pc = Some p \<longleftrightarrow> minRatioRow quot eps T m totalCols pc p"
    by (simp only: minRatioRow_def ratioTest_Some_iff)
  show "ratioTest quot eps T m totalCols pc = None \<longleftrightarrow>
      (\<forall>i. 1 \<le> i \<and> i \<le> m \<and> eps < T ! i ! pc \<longrightarrow> ratio quot T totalCols pc i = PlusInfinity)"
    by (rule ratioTest_None_iff)
  show "iter < 100 \<and> findPivotCol 0 T totalCols = Some pc \<and>
      (\<forall>i. 1 \<le> i \<and> i \<le> m \<and> 0 < T ! i ! pc \<longrightarrow> ratio quot T totalCols pc i = PlusInfinity)
      \<longrightarrow> simpleLoop quot m totalCols names iter (T, B, S) = Inl (T, B, S)"
    using simpleLoop_unbounded by blast
  show "simpleLoop quot m (n + m + 1) (simpleNames n m) 0 (simpleInit n m (negateForMin ty c) cons)
      = Inl (T, B, S)
      \<longrightarrow> solveSimplex quot ty n m c cons =
           \<lparr> steps = S, finalTableau = T, solution = [], optimalValue = 0, status = Unbounded,
             variableNames = simpleNames n m, finalBasicVars = B \<rparr>"
    using solveSimplex_unbounded by blast
  show "it < 50 \<and> findPivotCol (- (1 / 1000000000)) T totalCols = Some pc \<and>
      (\<forall>i. 1 \<le> i \<and> i \<le> m \<and> 1 / 1000000000 < T ! i ! pc \<longrightarrow>
         ratio quot T totalCols pc i = PlusInfinity)
      \<longrightarrow> runSimplexLoopFrom quot m totalCols iterStart it (T, B, S) = (- 1, T, B, S)"
    using runSimplexLoopFrom_unbounded by blast
  show "meth \<noteq> TwoPhase \<and>
      runSimplexLoop quot m (extTotalCols meth n m signs) 0
        (extInit meth n m (negateForMin ty c) cons signs) = (- 1, T, B, S)
      \<longrightarrow> solveSimplex_ext quot ty n m c cons signs meth =
           \<lparr> steps = S, finalTableau = T, solution = [], optimalValue = 0, status = Unbounded,
             variableNames = extNames meth n m signs, finalBasicVars = B \<rparr>"
    using solveSimplex_ext_unbounded by blast
  show "runSimplexLoop quot m (extTotalCols TwoPhase n m signs) 0
        (extInit TwoPhase n m (negateForMin ty c) cons signs) = (k, T1, B1, S1) \<and>
      \<not> \<bar>T1 ! 0 ! (extTotalCols TwoPhase n m signs - 1)\<bar> > 1 / 100000 \<and>
      runSimplexLoop quot m (extTotalCols TwoPhase n m signs) k
        (preparePhase2 n m (extTotalCols TwoPhase n m signs) (negateForMin ty c) (T1, B1, S1))
        = (- 1, T, B, S)
      \<longrightarrow> solveSimplex_ext quot ty n m c cons signs TwoPhase =
           \<lparr> steps = S, finalTableau = T, solution = [], optimalValue = 0, status = Unbounded,
             variableNames = extNames TwoPhase n m signs, finalBasicVars = B \<rparr>"
    using solveSimplex_ext_phase2_unbounded by blast
qed

theorem leaving_row_choice_witness:
  "steps (solveSimplex exactQuot TMax 2 3 [3, 5] [[1, 0, 4], [0, 2, 12], [3, 2, 18]]) \<noteq> [] \<and>
   minRatioRow exactQuot 0 (tableau (hd (steps (solveSimplex exactQuot TMax 2 3 [3, 5] [[1, 0, 4], [0, 2, 12], [3, 2, 18]]))))
     3 (2 + 3 + 1)
     (pivotCol (hd (steps (solveSimplex exactQuot TMax 2 3 [3, 5] [[1, 0, 4], [0, 2, 12], [3, 2, 18]]))))
     (pivotRow (hd (steps (solveSimplex exactQuot TMax 2 3 [3, 5] [[1, 0, 4], [0, 2, 12], [3, 2, 18]])))) \<and>
   steps (solveSimplex_ext exactQuot TMax 2 3 [3, 5] [[1, 0, 4], [0, 2, 12], [3, 2, 18]]
            [''<='', ''<='', ''<=''] Standard) \<noteq> [] \<and>
   minRatioRow exactQuot (1 / 1000000000)
     (tableau (hd (steps (solveSimplex_ext exactQuot TMax 2 3 [3, 5] [[1, 0, 4], [0, 2, 12], [3, 2, 18]]
            [''<='', ''<='', ''<=''] Standard))))
     3 (extTotalCols Standard 2 3 [''<='', ''<='', ''<=''])
     (pivotCol (hd (steps (solveSimplex_ext exactQuot TMax 2 3 [3, 5] [[1, 0, 4], [0, 2, 12], [3, 2, 18]]
            [''<='', ''<='', ''<=''] Standard))))
     (pivotRow (hd (steps (solveSimplex_ext exactQuot TMax 2 3 [3, 5] [[1, 0, 4], [0, 2, 12], [3, 2, 18]]
            [''<='', ''<='', ''<=''] Standard)))) \<and>
   simpleLoop exactQuot 1 4 [] 1 ([[0, - 1, 1, 1], [1, - 1, 1, 1]], [0], []) = Inl ([[0, - 1, 1, 1], [1, - 1, 1, 1]], [0], []) \<and>
   runSimplexLoopFrom exactQuot 1 4 0 1 ([[0, - 1, 1, 1], [1, - 1, 1, 1]], [0], [])
     = (- 1, [[0, - 1, 1, 1], [1, - 1, 1, 1]], [0], []) \<and>
   0 < [[- 1, 0, 0], [1 / 100000, 1, 10 ^ 308 :: rat]] ! 1 ! 0 \<and>
   simpleLoop (\<lambda>a b. if a / b < 2 ^ 1024 then Finite (a / b) else PlusInfinity) 1 3 [] 0
       ([[- 1, 0, 0], [1 / 100000, 1, 10 ^ 308]], [1], [])
     = Inl ([[- 1, 0, 0], [1 / 100000, 1, 10 ^ 308]], [1], []) \<and>
   ratioTest (\<lambda>a b. Finite (of_int (round (a / b * 2 ^ 54)) / 2 ^ 54)) 0
       [[- 1, 0, 0, 0], [3, 1, 0, 1], [1, 0, 1, 6004799503160661 / 2 ^ 54]] 2 4 0 = Some 1 \<and>
   minRatioRow (\<lambda>a b. Finite (of_int (round (a / b * 2 ^ 54)) / 2 ^ 54)) 0
       [[- 1, 0, 0, 0], [3, 1, 0, 1], [1, 0, 1, 6004799503160661 / 2 ^ 54]] 2 4 0 1 \<and>
   ratioTest exactQuot 0
       [[- 1, 0, 0, 0], [3, 1, 0, 1], [1, 0, 1, 6004799503160661 / 2 ^ 54]] 2 4 0 = Some 2 \<and>
   status (solveSimplex exactQuot TMax 2 1 [1, 0] [[1, - 1, 1]]) = Unbounded \<and>
   solution (solveSimplex exactQuot TMax 2 1 [1, 0] [[1, - 1, 1]]) = [] \<and>
   optimalValue (solveSimplex exactQuot TMax 2 1 [1, 0] [[1, - 1, 1]]) = 0 \<and>
   status (solveSimplex_ext exactQuot TMax 2 1 [1, 0] [[1, - 1, 1]] [''<=''] Standard) = Unbounded \<and>
   solution (solveSimplex_ext exactQuot TMax 2 1 [1, 0] [[1, - 1, 1]] [''<=''] Standard) = [] \<and>
   status (solveSimplex_ext exactQuot TMax 2 1 [1, 0] [[1, - 1, 1]] [''>=''] TwoPhase) = Unbounded \<and>
   solution (solveSimplex_ext exactQuot TMax 2 1 [1, 0] [[1, - 1, 1]] [''>=''] TwoPhase) = []"
proof -
  have a: "steps (solveSimplex exactQuot TMax 2 3 [3, 5] [[1, 0, 4], [0, 2, 12], [3, 2, 18]]) \<noteq> []"
    by code_simp
  have b: "steps (solveSimplex_ext exactQuot TMax 2 3 [3, 5] [[1, 0, 4], [0, 2, 12], [3, 2, 18]]
            [''<='', ''<='', ''<=''] Standard) \<noteq> []"
    by code_simp
  note t1 = leaving_row_choice[where quot = exactQuot and ty = TMax and n = 2 and m = 3 and c = "[3, 5]"
        and cons = "[[1, 0, 4], [0, 2, 12], [3, 2, 18]]" and signs = "[''<='', ''<='', ''<='']"
        and meth = Standard]
  have p1: "minRatioRow exactQuot 0 (tableau (hd (steps (solveSimplex exactQuot TMax 2 3 [3, 5] [[1, 0, 4], [0, 2, 12], [3, 2, 18]]))))
     3 (2 + 3 + 1)
     (pivotCol (hd (steps (solveSimplex exactQuot TMax 2 3 [3, 5] [[1, 0, 4], [0, 2, 12], [3, 2, 18]]))))
     (pivotRow (hd (steps (solveSimplex exactQuot TMax 2 3 [3, 5] [[1, 0, 4], [0, 2, 12], [3, 2, 18]]))))"
    using t1 hd_in_set[OF a] by blast
  have p2: "minRatioRow exactQuot (1 / 1000000000)
     (tableau (hd (steps (solveSimplex_ext exactQuot TMax 2 3 [3, 5] [[1, 0, 4], [0, 2, 12], [3, 2, 18]]
            [''<='', ''<='', ''<=''] Standard))))
     3 (extTotalCols Standard 2 3 [''<='', ''<='', ''<=''])
     (pivotCol (hd (steps (solveSimplex_ext exactQuot TMax 2 3 [3, 5] [[1, 0, 4], [0, 2, 12], [3, 2, 18]]
            [''<='', ''<='', ''<=''] Standard))))
     (pivotRow (hd (steps (solveSimplex_ext exactQuot TMax 2 3 [3, 5] [[1, 0, 4], [0, 2, 12], [3, 2, 18]]
            [''<='', ''<='', ''<=''] Standard))))"
    using t1 hd_in_set[OF b] by blast
  \<comment> \<open>the loops at a tableau whose entering column has no eligible row\<close>
  have e: "(1 :: nat) < 100" "(1 :: nat) < 50" by simp_all
  have c1: "findPivotCol 0 [[0, - 1, 1, 1], [1, - 1, 1, 1]] 4 = Some 1" by code_simp
  have c2: "findPivotCol (- (1 / 1000000000)) [[0, - 1, 1, 1], [1, - 1, 1, 1]] 4 = Some 1" by code_simp
  have c3: "\<forall>i. 1 \<le> i \<and> i \<le> 1 \<and> 0 < [[0, - 1, 1, 1], [1, - 1, 1, 1 :: rat]] ! i ! 1 \<longrightarrow>
              ratio exactQuot [[0, - 1, 1, 1], [1, - 1, 1, 1]] 4 1 i = PlusInfinity"
    by (auto simp: le_antisym)
  have c4: "\<forall>i. 1 \<le> i \<and> i \<le> 1 \<and> 1 / 1000000000 < [[0, - 1, 1, 1], [1, - 1, 1, 1 :: rat]] ! i ! 1 \<longrightarrow>
              ratio exactQuot [[0, - 1, 1, 1], [1, - 1, 1, 1]] 4 1 i = PlusInfinity"
    by (auto simp: le_antisym)
  note t2 = leaving_row_choice[where quot = exactQuot and iter = 1 and it = 1 and m = 1 and totalCols = 4 and names = "[]"
        and iterStart = 0 and pc = 1 and T = "[[0, - 1, 1, 1], [1, - 1, 1, 1]]" and B = "[0]" and S = "[]"]
  have p3: "simpleLoop exactQuot 1 4 [] 1 ([[0, - 1, 1, 1], [1, - 1, 1, 1]], [0], [])
              = Inl ([[0, - 1, 1, 1], [1, - 1, 1, 1]], [0], [])"
    using t2 e c1 c3 by blast
  have p4: "runSimplexLoopFrom exactQuot 1 4 0 1 ([[0, - 1, 1, 1], [1, - 1, 1, 1]], [0], [])
     = (- 1, [[0, - 1, 1, 1], [1, - 1, 1, 1]], [0], [])"
    using t2 e c2 c4 by blast
  \<comment> \<open>an eligible row whose quotient overflows, under a division that gives \<open>Infinity\<close> from \<open>2^1024\<close> on\<close>
  have o1: "0 < [[- 1, 0, 0], [1 / 100000, 1, 10 ^ 308 :: rat]] ! 1 ! 0" by simp
  have o2: "findPivotCol 0 [[- 1, 0, 0], [1 / 100000, 1, 10 ^ 308]] 3 = Some 0" by code_simp
  have o3: "\<not> (10 ^ 308 / (1 / 100000) :: rat) < 2 ^ 1024" by simp
  have o4: "\<forall>i. 1 \<le> i \<and> i \<le> 1 \<and> 0 < [[- 1, 0, 0], [1 / 100000, 1, 10 ^ 308 :: rat]] ! i ! 0 \<longrightarrow>
              ratio (\<lambda>a b. if a / b < 2 ^ 1024 then Finite (a / b) else PlusInfinity)
                [[- 1, 0, 0], [1 / 100000, 1, 10 ^ 308]] 3 0 i = PlusInfinity"
  proof (intro allI impI)
    fix i :: nat
    assume "1 \<le> i \<and> i \<le> 1 \<and> 0 < [[- 1, 0, 0], [1 / 100000, 1, 10 ^ 308 :: rat]] ! i ! 0"
    then have "i = 1" by simp
    then show "ratio (\<lambda>a b. if a / b < 2 ^ 1024 then Finite (a / b) else PlusInfinity)
                [[- 1, 0, 0], [1 / 100000, 1, 10 ^ 308]] 3 0 i = PlusInfinity"
      using o3 by (simp add: ratio_def)
  qed
  note t6 = leaving_row_choice[where quot = "\<lambda>a b. if a / b < 2 ^ 1024 then Finite (a / b) else PlusInfinity"
        and iter = 0 and m = 1 and totalCols = 3 and names = "[]" and pc = 0
        and T = "[[- 1, 0, 0], [1 / 100000, 1, 10 ^ 308]]" and B = "[1]" and S = "[]"]
  have e0: "(0 :: nat) < 100" by simp
  have p5: "simpleLoop (\<lambda>a b. if a / b < 2 ^ 1024 then Finite (a / b) else PlusInfinity) 1 3 [] 0
       ([[- 1, 0, 0], [1 / 100000, 1, 10 ^ 308]], [1], [])
     = Inl ([[- 1, 0, 0], [1 / 100000, 1, 10 ^ 308]], [1], [])"
    using t6 e0 o2 o4 by blast
  \<comment> \<open>the rows \<open>3 x1 \<le> 1\<close> and \<open>x1 \<le> 0.3333333333333333\<close> under a division that rounds to a
      multiple of \<open>2^-54\<close>, as the division of doubles does between \<open>1/4\<close> and \<open>1/2\<close>: the
      computed quotients are equal and row 1 is chosen, where the exact quotients choose row 2\<close>
  have p6: "ratioTest (\<lambda>a b. Finite (of_int (round (a / b * 2 ^ 54)) / 2 ^ 54)) 0
       [[- 1, 0, 0, 0], [3, 1, 0, 1], [1, 0, 1, 6004799503160661 / 2 ^ 54]] 2 4 0 = Some 1"
    by code_simp
  note t7 = leaving_row_choice[where quot = "\<lambda>a b. Finite (of_int (round (a / b * 2 ^ 54)) / 2 ^ 54)"
        and eps = 0 and m = 2 and totalCols = 4 and pc = 0 and p = 1
        and T = "[[- 1, 0, 0, 0], [3, 1, 0, 1], [1, 0, 1, 6004799503160661 / 2 ^ 54]]"]
  have p8: "minRatioRow (\<lambda>a b. Finite (of_int (round (a / b * 2 ^ 54)) / 2 ^ 54)) 0
       [[- 1, 0, 0, 0], [3, 1, 0, 1], [1, 0, 1, 6004799503160661 / 2 ^ 54]] 2 4 0 1"
    using t7 p6 by blast
  have p7: "ratioTest exactQuot 0
       [[- 1, 0, 0, 0], [3, 1, 0, 1], [1, 0, 1, 6004799503160661 / 2 ^ 54]] 2 4 0 = Some 2"
    by code_simp
  \<comment> \<open>the simple variant on an unbounded problem\<close>
  define X where "X = simpleLoop exactQuot 1 (2 + 1 + 1) (simpleNames 2 1) 0
                        (simpleInit 2 1 (negateForMin TMax [1, 0]) [[1, - 1, 1]])"
  have "isl X" unfolding X_def by code_simp
  then have x: "X = Inl (fst (projl X), fst (snd (projl X)), snd (snd (projl X)))"
    by (cases X) auto
  note t3 = leaving_row_choice[where quot = exactQuot and ty = TMax and n = 2 and m = 1 and c = "[1, 0]"
        and cons = "[[1, - 1, 1]]" and T = "fst (projl X)" and B = "fst (snd (projl X))"
        and S = "snd (snd (projl X))"]
  have r1: "solveSimplex exactQuot TMax 2 1 [1, 0] [[1, - 1, 1]] =
           \<lparr> steps = snd (snd (projl X)), finalTableau = fst (projl X), solution = [],
             optimalValue = 0, status = Unbounded,
             variableNames = simpleNames 2 1, finalBasicVars = fst (snd (projl X)) \<rparr>"
    using t3 x unfolding X_def by blast
  \<comment> \<open>the extended variant, method standard\<close>
  define Y where "Y = runSimplexLoop exactQuot 1 (extTotalCols Standard 2 1 [''<='']) 0
                        (extInit Standard 2 1 (negateForMin TMax [1, 0]) [[1, - 1, 1]] [''<=''])"
  have "fst Y = - 1" unfolding Y_def by code_simp
  then have y: "Y = (- 1, fst (snd Y), fst (snd (snd Y)), snd (snd (snd Y)))"
    by (cases Y) auto
  note t4 = leaving_row_choice[where quot = exactQuot and ty = TMax and n = 2 and m = 1 and c = "[1, 0]"
        and cons = "[[1, - 1, 1]]" and signs = "[''<='']" and meth = Standard
        and T = "fst (snd Y)" and B = "fst (snd (snd Y))" and S = "snd (snd (snd Y))"]
  have r2: "solveSimplex_ext exactQuot TMax 2 1 [1, 0] [[1, - 1, 1]] [''<=''] Standard =
           \<lparr> steps = snd (snd (snd Y)), finalTableau = fst (snd Y), solution = [],
             optimalValue = 0, status = Unbounded,
             variableNames = extNames Standard 2 1 [''<=''], finalBasicVars = fst (snd (snd Y)) \<rparr>"
    using t4 y unfolding Y_def by blast
  \<comment> \<open>the extended variant, method twoPhase, unbounded in phase 2\<close>
  define P where "P = runSimplexLoop exactQuot 1 (extTotalCols TwoPhase 2 1 [''>='']) 0
                        (extInit TwoPhase 2 1 (negateForMin TMax [1, 0]) [[1, - 1, 1]] [''>=''])"
  define Q where "Q = runSimplexLoop exactQuot 1 (extTotalCols TwoPhase 2 1 [''>='']) (fst P)
        (preparePhase2 2 1 (extTotalCols TwoPhase 2 1 [''>='']) (negateForMin TMax [1, 0])
           (fst (snd P), fst (snd (snd P)), snd (snd (snd P))))"
  have p: "P = (fst P, fst (snd P), fst (snd (snd P)), snd (snd (snd P)))" by simp
  have g: "\<not> \<bar>fst (snd P) ! 0 ! (extTotalCols TwoPhase 2 1 [''>=''] - 1)\<bar> > 1 / 100000"
    unfolding P_def by code_simp
  have "fst Q = - 1" unfolding Q_def P_def by code_simp
  then have q: "Q = (- 1, fst (snd Q), fst (snd (snd Q)), snd (snd (snd Q)))"
    by (cases Q) auto
  note t5 = leaving_row_choice[where quot = exactQuot and ty = TMax and n = 2 and m = 1 and c = "[1, 0]"
        and cons = "[[1, - 1, 1]]" and signs = "[''>='']"
        and k = "fst P" and ?T1.0 = "fst (snd P)" and ?B1.0 = "fst (snd (snd P))"
        and ?S1.0 = "snd (snd (snd P))"
        and T = "fst (snd Q)" and B = "fst (snd (snd Q))" and S = "snd (snd (snd Q))"]
  have r3: "solveSimplex_ext exactQuot TMax 2 1 [1, 0] [[1, - 1, 1]] [''>=''] TwoPhase =
           \<lparr> steps = snd (snd (snd Q)), finalTableau = fst (snd Q), solution = [],
             optimalValue = 0, status = Unbounded,
             variableNames = extNames TwoPhase 2 1 [''>=''], finalBasicVars = fst (snd (snd Q)) \<rparr>"
    using t5 p g q unfolding Q_def P_def by blast
  show ?thesis
    unfolding r1 r2 r3 using a b p1 p2 p3 p4 o1 p5 p6 p7 p8 by simp
qed

text \<open>
  C7: with the method standard, the builder turns every constraint whose relation is
  \<open>>=\<close> into a row that holds the coefficients and the right-hand side multiplied by
  \<open>-1\<close>, a 1 in a slack/surplus column of its own, which becomes the row's basic variable,
  and 0 elsewhere; the initial tableau and basis are those of the problem in which the
  constraint is replaced by its negation with the relation \<open><=\<close>.
\<close>

theorem standard_ge_row_flipped:
  assumes "i < m" and "signAt signs i = ''>=''"
  shows "(let T = fst (extInit Standard n m c cons signs);
              B = fst (snd (extInit Standard n m c cons signs));
              totalCols = extTotalCols Standard n m signs;
              col = slackCol n signs i
          in n \<le> col \<and> col < totalCols - 1 \<and> B ! i = int col \<and> T ! (i + 1) ! col = 1 \<and>
             (\<forall>j<n. T ! (i + 1) ! j = cons ! i ! j * (- 1)) \<and>
             T ! (i + 1) ! (totalCols - 1) = cons ! i ! n * (- 1) \<and>
             (\<forall>j. n \<le> j \<and> j < totalCols - 1 \<and> j \<noteq> col \<longrightarrow> T ! (i + 1) ! j = 0)) \<and>
         (i < length cons \<and> n < length (cons ! i) \<longrightarrow>
            extInit Standard n m c cons signs
              = extInit Standard n m c (cons[i := map (\<lambda>x. x * (- 1)) (cons ! i)]) (signs[i := ''<='']))"
proof -
  note r = std_ge_row[OF assms]
  have T: "fst (extInit Standard n m c cons signs) ! (i + 1) = filledRow Standard n m cons signs i"
    using assms(1) by (simp add: extInit_Standard)
  have B: "fst (snd (extInit Standard n m c cons signs)) ! i = filledBasic Standard n m signs i"
    using assms(1) by (simp add: extInit_Standard)
  have "extInit Standard n m c cons signs
          = extInit Standard n m c (cons[i := map (\<lambda>x. x * (- 1)) (cons ! i)]) (signs[i := ''<=''])"
    if "i < length cons \<and> n < length (cons ! i)"
    using std_ge_as_le[OF assms] that by blast
  then show ?thesis
    unfolding Let_def T B using r by blast
qed

theorem standard_ge_row_flipped_witness:
  "(1 :: nat) < 2 \<and> signAt [''<='', ''>=''] 1 = ''>='' \<and>
   fst (extInit Standard 2 2 [1, 1] [[1, 1, 4], [1, 1, 3]] [''<='', ''>='']) ! 2 = [- 1, - 1, 0, 1, - 3] \<and>
   fst (snd (extInit Standard 2 2 [1, 1] [[1, 1, 4], [1, 1, 3]] [''<='', ''>=''])) ! 1
     = int (slackCol 2 [''<='', ''>=''] 1) \<and>
   fst (extInit Standard 2 2 [1, 1] [[1, 1, 4], [1, 1, 3]] [''<='', ''>='']) ! (1 + 1)
     ! slackCol 2 [''<='', ''>=''] 1 = 1 \<and>
   fst (extInit Standard 2 2 [1, 1] [[1, 1, 4], [1, 1, 3]] [''<='', ''>='']) ! (1 + 1)
     ! (extTotalCols Standard 2 2 [''<='', ''>=''] - 1) = [[1, 1, 4], [1, 1, 3]] ! 1 ! 2 * (- 1) \<and>
   extInit Standard 2 2 [1, 1] [[1, 1, 4], [1, 1, 3]] [''<='', ''>='']
     = extInit Standard 2 2 [1, 1] ([[1, 1, 4], [1, 1, 3]][1 := map (\<lambda>x. x * (- 1)) ([[1, 1, 4], [1, 1, 3]] ! 1)])
         ([''<='', ''>=''][1 := ''<=''])"
proof -
  have h1: "(1 :: nat) < 2" by simp
  have h2: "signAt [''<='', ''>=''] 1 = ''>=''" by (simp add: signAt_def)
  have h3: "1 < length [[1, 1, 4], [1, 1, 3 :: rat]] \<and> 2 < length ([[1, 1, 4], [1, 1, 3 :: rat]] ! 1)"
    by simp
  have e: "fst (extInit Standard 2 2 [1, 1] [[1, 1, 4], [1, 1, 3]] [''<='', ''>='']) ! 2 = [- 1, - 1, 0, 1, - 3]"
    by code_simp
  show ?thesis
    using h1 h2 h3 e
      standard_ge_row_flipped[OF h1 h2, where n = 2 and c = "[1, 1]" and cons = "[[1, 1, 4], [1, 1, 3]]"]
    unfolding Let_def by blast
qed

text \<open>
  C8: for the input maximize \<open>3 x1 + 5 x2\<close> subject to \<open>x1 \<le> 4\<close>, \<open>2 x2 \<le> 12\<close>,
  \<open>3 x1 + 2 x2 \<le> 18\<close>, the simple variant returns status Optimal, optimal value 36 and the
  solution vector \<open>x1 = 2\<close>, \<open>x2 = 6\<close>.
\<close>

theorem solveSimplex_example_36:
  "status (solveSimplex exactQuot TMax 2 3 [3, 5] [[1, 0, 4], [0, 2, 12], [3, 2, 18]]) = Optimal \<and>
   optimalValue (solveSimplex exactQuot TMax 2 3 [3, 5] [[1, 0, 4], [0, 2, 12], [3, 2, 18]]) = 36 \<and>
   solution (solveSimplex exactQuot TMax 2 3 [3, 5] [[1, 0, 4], [0, 2, 12], [3, 2, 18]]) = [2, 6]"
  by code_simp

text \<open>
  C9: over the same constraints, minimizing \<open>c\<close> and maximizing \<open>- c\<close> give equal solution
  vectors and optimal values that are negatives of each other, in both variants.
\<close>

theorem min_max_duality:
  "solution (solveSimplex quot TMin n m c cons) = solution (solveSimplex quot TMax n m (map uminus c) cons) \<and>
   optimalValue (solveSimplex quot TMin n m c cons)
     = - optimalValue (solveSimplex quot TMax n m (map uminus c) cons) \<and>
   solution (solveSimplex_ext quot TMin n m c cons signs meth)
     = solution (solveSimplex_ext quot TMax n m (map uminus c) cons signs meth) \<and>
   optimalValue (solveSimplex_ext quot TMin n m c cons signs meth)
     = - optimalValue (solveSimplex_ext quot TMax n m (map uminus c) cons signs meth)"
  by (simp add: solveSimplex_def solveSimplex_ext_def negateForMin_def Let_def stoppedResult_def
        optimalResult_def split: sum.splits prod.splits)



end
